theory Spec2Isabelle
  imports Main "HOL-Library.AList"
begin

section \<open>Common definitions (core/common.py)\<close>

text \<open>
  The exceptions the modelled code can raise. \<open>ItemNotFoundError\<close> carries the item id, as
  in core/common.py. \<open>AssertionError\<close> is what a failed \<^verbatim>\<open>assert\<close> raises, \<open>KeyError\<close> what
  \<^verbatim>\<open>d[k]\<close> raises on a missing key, \<open>ValueError\<close> what \<^verbatim>\<open>CompositionMode(v)\<close> raises on an
  unknown value, \<open>IndexError\<close> what \<^verbatim>\<open>s[0]\<close> raises on an empty string. \<open>PyException\<close> is the
  plain \<^verbatim>\<open>Exception(message)\<close> of the migration stubs. \<open>DuplicateKey\<close> and
  \<open>MigrationGapError\<close> are the conditions of the document collection and of the migration
  chain. \<open>SchemaError\<close> stands for a stored field whose value has not the type the schema
  declares (Python would go on with the ill-typed value). \<open>NonTermination\<close> stands for a
  migration loop that exhausts its fuel; \<open>agent_loader_fuel\<close> and \<open>guideline_loader_fuel\<close>
  below show that the two loaders never reach it.
\<close>

datatype error =
    ItemNotFoundError string
  | AssertionError
  | KeyError string
  | ValueError
  | IndexError
  | PyException string
  | DuplicateKey
  | MigrationGapError
  | SchemaError string
  | NonTermination

text \<open>
  \<^verbatim>\<open>generate_id\<close>: \<^verbatim>\<open>while True: new_id = nanoid.generate(size=10); if ...: return new_id\<close>.
  The random source is the argument \<open>nanoid_generate\<close>: its value at \<open>n\<close> is what the
  \<open>n\<close>-th call of \<^verbatim>\<open>nanoid.generate(size=10)\<close> returns. The loop has no bound, so the
  function is partial: \<open>None\<close> is the loop that never returns.
\<close>

definition accepted_id :: "string \<Rightarrow> bool" where
  "accepted_id new_id \<longleftrightarrow>
     CHR ''-'' \<notin> set [hd new_id, last new_id] \<and> CHR ''_'' \<notin> set new_id"

partial_function (option) generate_id :: "(nat \<Rightarrow> string) \<Rightarrow> nat \<Rightarrow> (error + string) option" where
  "generate_id nanoid_generate n =
     (let new_id = nanoid_generate n in
      if new_id = [] then Some (Inl IndexError)
      else if accepted_id new_id then Some (Inr new_id)
      else generate_id nanoid_generate (Suc n))"

text \<open>
  Python's \<^verbatim>\<open>datetime\<close> is not code of this repository. A datetime is represented by its
  ISO-8601 text, so that \<^verbatim>\<open>datetime.fromisoformat\<close> is the inverse of
  \<^verbatim>\<open>datetime.isoformat\<close>, as the standard library documents. The \<^verbatim>\<open>ValueError\<close> of
  \<^verbatim>\<open>fromisoformat\<close> on a text that is no date is not modelled: the stores only ever write
  what \<^verbatim>\<open>isoformat\<close> returned.
\<close>

datatype datetime = DateTime (isoformat: string)

definition fromisoformat :: "string \<Rightarrow> datetime" where
  "fromisoformat s = DateTime s"

section \<open>Documents and the document collection\<close>

text \<open>
  \<^verbatim>\<open>JSONSerializable\<close> (core/common.py) without floats, which no modelled field uses. A
  document (\<^verbatim>\<open>BaseDocument\<close>, a \<^verbatim>\<open>TypedDict\<close> with \<^verbatim>\<open>total=False\<close>) is a Python dict from
  field names to values: a key may be absent.
\<close>

datatype json =
    JNull
  | JBool bool
  | JInt int
  | JStr string
  | JList "json list"
  | JObj "(string \<times> json) list"

type_synonym document = "string \<rightharpoonup> json"

text \<open>
  The filters (\<^verbatim>\<open>Where\<close>) that the stores build: a dict of field conditions
  \<^verbatim>\<open>{field: {"$eq": v}}\<close> or \<^verbatim>\<open>{field: {"$ne": v}}\<close> (all of them must hold; \<^verbatim>\<open>{}\<close> is
  \<open>WFields []\<close>), \<^verbatim>\<open>{"$and": [...]}\<close> and \<^verbatim>\<open>{"$or": [...]}\<close>.
\<close>

datatype cond = OpEq json | OpNe json

datatype Where = WFields "(string \<times> cond) list" | WAnd "Where list" | WOr "Where list"

fun matches_cond :: "cond \<Rightarrow> json option \<Rightarrow> bool" where
  "matches_cond (OpEq v) x = (x = Some v)"
| "matches_cond (OpNe v) x = (x \<noteq> Some v)"

text \<open>
  Modelled from the spec: the query algebra of the Document Collection (section 4.1), whose
  implementation (core/persistence) is not among the sources: equality, inequality and the
  boolean combinators over top-level fields; no filter matches every record.
\<close>

fun matches_filters :: "Where \<Rightarrow> document \<Rightarrow> bool" where
  "matches_filters (WFields fs) d = list_all (\<lambda>(k, c). matches_cond c (d k)) fs"
| "matches_filters (WAnd ws) d = list_all (\<lambda>w. matches_filters w d) ws"
| "matches_filters (WOr ws) d = list_ex (\<lambda>w. matches_filters w d) ws"

text \<open>
  A loader normalises a stored record on reading: \<open>Inr (Some d)\<close> is the record at the
  current version, \<open>Inr None\<close> drops the record, \<open>Inl e\<close> is a loader that raises.
\<close>

type_synonym loader = "document \<Rightarrow> error + document option"

fun load_documents :: "loader \<Rightarrow> document list \<Rightarrow> error + document list" where
  "load_documents ld [] = Inr []"
| "load_documents ld (d # ds) =
     (case ld d of
        Inl e \<Rightarrow> Inl e
      | Inr None \<Rightarrow> load_documents ld ds
      | Inr (Some d') \<Rightarrow>
          (case load_documents ld ds of Inl e \<Rightarrow> Inl e | Inr ds' \<Rightarrow> Inr (d' # ds')))"

text \<open>
  Modelled from the spec: \<^verbatim>\<open>DocumentCollection.find\<close> and \<^verbatim>\<open>find_one\<close> (section 4.1), not
  among the sources. Every record returned has passed through the loader; the records
  are in insertion order; \<^verbatim>\<open>find_one\<close> is the first match, and absence is no error.
\<close>

definition collection_find :: "loader \<Rightarrow> Where \<Rightarrow> document list \<Rightarrow> error + document list" where
  "collection_find ld w docs =
     (case load_documents ld docs of
        Inl e \<Rightarrow> Inl e
      | Inr ds \<Rightarrow> Inr (filter (matches_filters w) ds))"

definition collection_find_one :: "loader \<Rightarrow> Where \<Rightarrow> document list \<Rightarrow> error + document option" where
  "collection_find_one ld w docs =
     (case collection_find ld w docs of
        Inl e \<Rightarrow> Inl e
      | Inr [] \<Rightarrow> Inr None
      | Inr (d # _) \<Rightarrow> Inr (Some d))"

text \<open>
  Modelled from the spec: \<^verbatim>\<open>DocumentCollection.insert_one\<close> (section 4.1), not among the
  sources: it fails with DuplicateKey if the id already exists in the collection, and
  appends the record otherwise.
\<close>

definition collection_insert_one :: "document \<Rightarrow> document list \<Rightarrow> error + document list" where
  "collection_insert_one doc docs =
     (if list_ex (\<lambda>d. d ''id'' = doc ''id'') docs then Inl DuplicateKey
      else Inr (docs @ [doc]))"

text \<open>
  Modelled from the spec: \<^verbatim>\<open>DocumentCollection.update_one\<close> and \<^verbatim>\<open>delete_one\<close> (section
  4.1), not among the sources. \<^verbatim>\<open>update_one\<close> applies the partial-field update to the
  first match (the keys of \<open>params\<close> replace the record's, the other keys stay) and
  returns the updated record, or none when nothing matches; the stores never pass
  \<^verbatim>\<open>upsert\<close>. \<^verbatim>\<open>delete_one\<close> removes the first match. The loader runs at read time only,
  never here.
\<close>

record UpdateResult =
  matched_count :: nat
  updated_document :: "document option"

record DeleteResult =
  deleted_count :: nat
  deleted_document :: "document option"

fun collection_update_one :: "Where \<Rightarrow> document \<Rightarrow> document list \<Rightarrow> UpdateResult \<times> document list" where
  "collection_update_one w params [] = (\<lparr>matched_count = 0, updated_document = None\<rparr>, [])"
| "collection_update_one w params (d # ds) =
     (if matches_filters w d
      then (\<lparr>matched_count = 1, updated_document = Some (d ++ params)\<rparr>, (d ++ params) # ds)
      else (case collection_update_one w params ds of (r, ds') \<Rightarrow> (r, d # ds')))"

fun collection_delete_one :: "Where \<Rightarrow> document list \<Rightarrow> DeleteResult \<times> document list" where
  "collection_delete_one w [] = (\<lparr>deleted_count = 0, deleted_document = None\<rparr>, [])"
| "collection_delete_one w (d # ds) =
     (if matches_filters w d
      then (\<lparr>deleted_count = 1, deleted_document = Some d\<rparr>, ds)
      else (case collection_delete_one w ds of (r, ds') \<Rightarrow> (r, d # ds')))"

text \<open>
  Modelled from the spec: \<^verbatim>\<open>DocumentMigrationHelper.migrate\<close> (the Migration Chain of
  sections 2 and 3), not among the sources: the converter registered for the record's
  stored version rewrites it into the next version, repeatedly, until the current
  version is reached; a converter may raise, or drop the record; a version with no
  registered converter is a gap. The loop has no bound of its own: \<open>None\<close> is the fuel
  running out.
\<close>

type_synonym converter = "document \<Rightarrow> error + document option"

fun migrate :: "nat \<Rightarrow> (string \<times> converter) list \<Rightarrow> string \<Rightarrow> document \<Rightarrow> (error + document option) option" where
  "migrate 0 converters target_version doc = None"
| "migrate (Suc fuel) converters target_version doc =
     (case doc ''version'' of
        None \<Rightarrow> Some (Inl (KeyError ''version''))
      | Some (JStr v) \<Rightarrow>
          if v = target_version then Some (Inr (Some doc))
          else (case map_of converters v of
                  None \<Rightarrow> Some (Inl MigrationGapError)
                | Some converter \<Rightarrow>
                    (case converter doc of
                       Inl e \<Rightarrow> Some (Inl e)
                     | Inr None \<Rightarrow> Some (Inr None)
                     | Inr (Some doc') \<Rightarrow> migrate fuel converters target_version doc'))
      | Some _ \<Rightarrow> Some (Inl MigrationGapError))"

section \<open>A typed store: two collections behind one reader-writer lock\<close>

text \<open>
  A store (\<^verbatim>\<open>AgentDocumentStore\<close>, \<^verbatim>\<open>GuidelineDocumentStore\<close>) owns its primary collection
  (\<^verbatim>\<open>_agents_collection\<close>, \<^verbatim>\<open>_collection\<close>), its \<^verbatim>\<open>_tag_association_collection\<close> and its
  \<^verbatim>\<open>_lock\<close>. \<^verbatim>\<open>ReaderWriterLock\<close> is not among the sources; what the stores do with it is
  enter and leave its two scopes, and the model records that: \<open>events\<close> is the sequence
  of scope entries and exits and of collection calls, in the order the code makes them.
\<close>

datatype scope = Reader | Writer

datatype collection_ref = Entities | TagAssociations

datatype access = Find | FindOne | InsertOne | UpdateOne | DeleteOne

datatype event = Acquire scope | Release scope | Access collection_ref access

record document_store =
  collection :: "document list"
  tag_association_collection :: "document list"
  events :: "event list"

text \<open>
  An operation of a store takes the store and returns the store it leaves behind with
  either the exception it raised or its result. An exception does not undo the writes
  made before it.
\<close>

type_synonym 'a store_op = "document_store \<Rightarrow> (error + 'a) \<times> document_store"

definition returns :: "'a \<Rightarrow> 'a store_op" where
  "returns x s = (Inr x, s)"

definition raise :: "error \<Rightarrow> 'a store_op" where
  "raise e s = (Inl e, s)"

definition lift :: "error + 'a \<Rightarrow> 'a store_op" where
  "lift r s = (r, s)"

definition bind_op :: "'a store_op \<Rightarrow> ('a \<Rightarrow> 'b store_op) \<Rightarrow> 'b store_op" where
  "bind_op m f s = (case m s of (Inl e, s') \<Rightarrow> (Inl e, s') | (Inr x, s') \<Rightarrow> f x s')"

definition emit :: "event \<Rightarrow> document_store \<Rightarrow> document_store" where
  "emit e s = s\<lparr>events := events s @ [e]\<rparr>"

text \<open>
  \<^verbatim>\<open>async with self._lock.reader_lock:\<close> and \<^verbatim>\<open>async with self._lock.writer_lock:\<close>: the
  scope is left on every exit path, also when the body raises or returns early.
\<close>

definition with_lock :: "scope \<Rightarrow> 'a store_op \<Rightarrow> 'a store_op" where
  "with_lock sc body s = (case body (emit (Acquire sc) s) of (r, s') \<Rightarrow> (r, emit (Release sc) s'))"

definition get_collection :: "collection_ref \<Rightarrow> document_store \<Rightarrow> document list" where
  "get_collection c s = (case c of Entities \<Rightarrow> collection s | TagAssociations \<Rightarrow> tag_association_collection s)"

definition set_collection :: "collection_ref \<Rightarrow> document list \<Rightarrow> document_store \<Rightarrow> document_store" where
  "set_collection c docs s =
     (case c of Entities \<Rightarrow> s\<lparr>collection := docs\<rparr>
              | TagAssociations \<Rightarrow> s\<lparr>tag_association_collection := docs\<rparr>)"

text \<open>The calls of the collection's operations on one of the store's collections.\<close>

definition find_op :: "collection_ref \<Rightarrow> loader \<Rightarrow> Where \<Rightarrow> document list store_op" where
  "find_op c ld w s = (collection_find ld w (get_collection c s), emit (Access c Find) s)"

definition find_one_op :: "collection_ref \<Rightarrow> loader \<Rightarrow> Where \<Rightarrow> document option store_op" where
  "find_one_op c ld w s = (collection_find_one ld w (get_collection c s), emit (Access c FindOne) s)"

definition insert_one_op :: "collection_ref \<Rightarrow> document \<Rightarrow> unit store_op" where
  "insert_one_op c doc s =
     (case collection_insert_one doc (get_collection c s) of
        Inl e \<Rightarrow> (Inl e, emit (Access c InsertOne) s)
      | Inr docs \<Rightarrow> (Inr (), emit (Access c InsertOne) (set_collection c docs s)))"

definition update_one_op :: "collection_ref \<Rightarrow> Where \<Rightarrow> document \<Rightarrow> UpdateResult store_op" where
  "update_one_op c w params s =
     (case collection_update_one w params (get_collection c s) of
        (r, docs) \<Rightarrow> (Inr r, emit (Access c UpdateOne) (set_collection c docs s)))"

definition delete_one_op :: "collection_ref \<Rightarrow> Where \<Rightarrow> DeleteResult store_op" where
  "delete_one_op c w s =
     (case collection_delete_one w (get_collection c s) of
        (r, docs) \<Rightarrow> (Inr r, emit (Access c DeleteOne) (set_collection c docs s)))"

text \<open>Reading a field of a document: \<^verbatim>\<open>d[k]\<close> raises KeyError on a missing key.\<close>

definition get_field :: "document \<Rightarrow> string \<Rightarrow> error + json" where
  "get_field d k = (case d k of None \<Rightarrow> Inl (KeyError k) | Some v \<Rightarrow> Inr v)"

definition str_field :: "document \<Rightarrow> string \<Rightarrow> error + string" where
  "str_field d k =
     (case d k of None \<Rightarrow> Inl (KeyError k) | Some (JStr s) \<Rightarrow> Inr s | Some _ \<Rightarrow> Inl (SchemaError k))"

fun map_result :: "('a \<Rightarrow> error + 'b) \<Rightarrow> 'a list \<Rightarrow> error + 'b list" where
  "map_result f [] = Inr []"
| "map_result f (x # xs) =
     (case f x of
        Inl e \<Rightarrow> Inl e
      | Inr y \<Rightarrow> (case map_result f xs of Inl e \<Rightarrow> Inl e | Inr ys \<Rightarrow> Inr (y # ys)))"

text \<open>
  \<^verbatim>\<open>if not document:\<close> and \<^verbatim>\<open>assert result.updated_document\<close>: a document is falsy when it
  is \<^verbatim>\<open>None\<close> or the empty dict.
\<close>

definition truthy :: "document option \<Rightarrow> bool" where
  "truthy d = (case d of None \<Rightarrow> False | Some m \<Rightarrow> m \<noteq> Map.empty)"

text \<open>Sequencing of steps that may raise: the first exception ends the computation.\<close>

definition bind_result :: "error + 'a \<Rightarrow> ('a \<Rightarrow> error + 'b) \<Rightarrow> error + 'b" where
  "bind_result r f = (case r of Inl e \<Rightarrow> Inl e | Inr x \<Rightarrow> f x)"

section \<open>The agent store (core/agents.py)\<close>

type_synonym AgentId = string
type_synonym TagId = string

datatype CompositionMode = FLUID | FLUID_UTTERANCE | STRICT_UTTERANCE | COMPOSITED_UTTERANCE

fun composition_mode_value :: "CompositionMode \<Rightarrow> string" where
  "composition_mode_value FLUID = ''fluid''"
| "composition_mode_value FLUID_UTTERANCE = ''fluid_utterance''"
| "composition_mode_value STRICT_UTTERANCE = ''strict_utterance''"
| "composition_mode_value COMPOSITED_UTTERANCE = ''composited_utterance''"

text \<open>\<^verbatim>\<open>CompositionMode(value)\<close>: the member with that value, or ValueError.\<close>

definition composition_mode_of :: "string \<Rightarrow> error + CompositionMode" where
  "composition_mode_of v =
     (if v = ''fluid'' then Inr FLUID
      else if v = ''fluid_utterance'' then Inr FLUID_UTTERANCE
      else if v = ''strict_utterance'' then Inr STRICT_UTTERANCE
      else if v = ''composited_utterance'' then Inr COMPOSITED_UTTERANCE
      else Inl ValueError)"

text \<open>The dataclass \<^verbatim>\<open>Agent\<close>; its fields carry the prefix \<open>a_\<close>.\<close>

record Agent =
  a_id :: AgentId
  a_name :: string
  a_description :: "string option"
  a_creation_utc :: datetime
  a_max_engine_iterations :: int
  a_tags :: "TagId list"
  a_composition_mode :: CompositionMode

definition agent_VERSION :: string where
  "agent_VERSION = ''0.3.0''"

text \<open>
  \<^verbatim>\<open>AgentDocumentStore._document_loader\<close>: both registered converters are stubs that raise
  (the message is shortened here).
\<close>

definition prepare_migration_exception :: error where
  "prepare_migration_exception = PyException ''This code should not be reached!''"

definition agent_v0_1_0_to_v_0_2_0 :: converter where
  "agent_v0_1_0_to_v_0_2_0 doc = Inl prepare_migration_exception"

definition agent_v0_2_0_to_v_0_3_0 :: converter where
  "agent_v0_2_0_to_v_0_3_0 doc = Inl prepare_migration_exception"

definition agent_converters :: "(string \<times> converter) list" where
  "agent_converters = [(''0.1.0'', agent_v0_1_0_to_v_0_2_0), (''0.2.0'', agent_v0_2_0_to_v_0_3_0)]"

definition agent_document_loader :: loader where
  "agent_document_loader doc =
     (case migrate 3 agent_converters agent_VERSION doc of
        None \<Rightarrow> Inl NonTermination
      | Some r \<Rightarrow> r)"

text \<open>
  \<^verbatim>\<open>AgentDocumentStore._association_document_loader\<close>: \<^verbatim>\<open>doc["version"]\<close> raises KeyError
  when the key is missing.
\<close>

definition agent_association_document_loader :: loader where
  "agent_association_document_loader doc =
     (case doc ''version'' of
        None \<Rightarrow> Inl (KeyError ''version'')
      | Some v \<Rightarrow> if v = JStr ''0.3.0'' then Inr (Some doc) else Inr None)"

definition json_of_description :: "string option \<Rightarrow> json" where
  "json_of_description d = (case d of None \<Rightarrow> JNull | Some s \<Rightarrow> JStr s)"

definition serialize_agent :: "Agent \<Rightarrow> document" where
  "serialize_agent agent =
     [''id'' \<mapsto> JStr (a_id agent),
      ''version'' \<mapsto> JStr agent_VERSION,
      ''creation_utc'' \<mapsto> JStr (isoformat (a_creation_utc agent)),
      ''name'' \<mapsto> JStr (a_name agent),
      ''description'' \<mapsto> json_of_description (a_description agent),
      ''max_engine_iterations'' \<mapsto> JInt (a_max_engine_iterations agent),
      ''composition_mode'' \<mapsto> JStr (composition_mode_value (a_composition_mode agent))]"

text \<open>
  The fields \<^verbatim>\<open>_deserialize_agent\<close> reads after the tags, in the order of the keyword
  arguments of \<^verbatim>\<open>Agent(...)\<close>. \<^verbatim>\<open>agent_document.get("composition_mode", "fluid")\<close>
  defaults a missing key.
\<close>

definition description_field :: "document \<Rightarrow> error + string option" where
  "description_field d =
     (case d ''description'' of
        None \<Rightarrow> Inl (KeyError ''description'')
      | Some JNull \<Rightarrow> Inr None
      | Some (JStr s) \<Rightarrow> Inr (Some s)
      | Some _ \<Rightarrow> Inl (SchemaError ''description''))"

definition int_field :: "document \<Rightarrow> string \<Rightarrow> error + int" where
  "int_field d k =
     (case d k of None \<Rightarrow> Inl (KeyError k) | Some (JInt n) \<Rightarrow> Inr n | Some _ \<Rightarrow> Inl (SchemaError k))"

definition composition_mode_field :: "document \<Rightarrow> error + CompositionMode" where
  "composition_mode_field d =
     (case d ''composition_mode'' of
        None \<Rightarrow> composition_mode_of ''fluid''
      | Some (JStr v) \<Rightarrow> composition_mode_of v
      | Some _ \<Rightarrow> Inl ValueError)"

definition agent_of_document :: "document \<Rightarrow> TagId list \<Rightarrow> error + Agent" where
  "agent_of_document d tags =
     (bind_result (str_field d ''id'') (\<lambda>i.
      bind_result (str_field d ''creation_utc'') (\<lambda>c.
      bind_result (str_field d ''name'') (\<lambda>n.
      bind_result (description_field d) (\<lambda>ds.
      bind_result (int_field d ''max_engine_iterations'') (\<lambda>m.
      bind_result (composition_mode_field d) (\<lambda>cm.
        Inr \<lparr>a_id = i, a_name = n, a_description = ds, a_creation_utc = fromisoformat c,
             a_max_engine_iterations = m, a_tags = tags, a_composition_mode = cm\<rparr>)))))))"

definition deserialize_agent :: "document \<Rightarrow> Agent store_op" where
  "deserialize_agent agent_document =
     bind_op (lift (get_field agent_document ''id'')) (\<lambda>i.
     bind_op (find_op TagAssociations agent_association_document_loader
                (WFields [(''agent_id'', OpEq i)])) (\<lambda>ds.
     bind_op (lift (map_result (\<lambda>d. str_field d ''tag_id'') ds)) (\<lambda>tags.
     lift (agent_of_document agent_document tags))))"

text \<open>
  \<^verbatim>\<open>create_agent\<close>. \<open>now\<close> is what \<^verbatim>\<open>datetime.now(timezone.utc)\<close> returns and \<open>gen k\<close> what the
  \<open>k\<close>-th call of \<^verbatim>\<open>generate_id()\<close> of this operation returns. \<^verbatim>\<open>x or default\<close> takes the
  default for \<^verbatim>\<open>None\<close>, for the integer 0 and for the empty sequence; a datetime and an
  enum member are never falsy.
\<close>

definition agent_tag_association_document ::
    "string \<Rightarrow> datetime \<Rightarrow> AgentId \<Rightarrow> TagId \<Rightarrow> document" where
  "agent_tag_association_document new_id creation_utc agent_id tag =
     [''id'' \<mapsto> JStr new_id,
      ''version'' \<mapsto> JStr agent_VERSION,
      ''creation_utc'' \<mapsto> JStr (isoformat creation_utc),
      ''agent_id'' \<mapsto> JStr agent_id,
      ''tag_id'' \<mapsto> JStr tag]"

fun insert_agent_tags ::
    "(nat \<Rightarrow> string) \<Rightarrow> nat \<Rightarrow> datetime \<Rightarrow> AgentId \<Rightarrow> TagId list \<Rightarrow> unit store_op" where
  "insert_agent_tags gen k creation_utc agent_id [] = returns ()"
| "insert_agent_tags gen k creation_utc agent_id (tag # tags) =
     bind_op (insert_one_op TagAssociations
                (agent_tag_association_document (gen k) creation_utc agent_id tag)) (\<lambda>_.
     insert_agent_tags gen (Suc k) creation_utc agent_id tags)"

definition create_agent ::
    "datetime \<Rightarrow> (nat \<Rightarrow> string) \<Rightarrow> string \<Rightarrow> string option \<Rightarrow> datetime option \<Rightarrow> int option \<Rightarrow>
     CompositionMode option \<Rightarrow> TagId list option \<Rightarrow> Agent store_op" where
  "create_agent now gen name description creation_utc max_engine_iterations composition_mode tags =
     with_lock Writer
       (let creation_utc' = (case creation_utc of None \<Rightarrow> now | Some t \<Rightarrow> t);
            max_engine_iterations' =
              (case max_engine_iterations of None \<Rightarrow> 1 | Some m \<Rightarrow> if m = 0 then 1 else m);
            agent = \<lparr>a_id = gen 0, a_name = name, a_description = description,
                     a_creation_utc = creation_utc',
                     a_max_engine_iterations = max_engine_iterations',
                     a_tags = (case tags of None \<Rightarrow> [] | Some ts \<Rightarrow> ts),
                     a_composition_mode =
                       (case composition_mode of None \<Rightarrow> FLUID | Some m \<Rightarrow> m)\<rparr>
        in bind_op (insert_one_op Entities (serialize_agent agent)) (\<lambda>_.
           bind_op (insert_agent_tags gen 1 creation_utc' (a_id agent)
                      (case tags of None \<Rightarrow> [] | Some ts \<Rightarrow> ts)) (\<lambda>_.
           returns agent)))"

fun deserialize_agents :: "document list \<Rightarrow> Agent list store_op" where
  "deserialize_agents [] = returns []"
| "deserialize_agents (d # ds) =
     bind_op (deserialize_agent d) (\<lambda>a.
     bind_op (deserialize_agents ds) (\<lambda>as.
     returns (a # as)))"

definition list_agents :: "Agent list store_op" where
  "list_agents =
     with_lock Reader
       (bind_op (find_op Entities agent_document_loader (WFields [])) deserialize_agents)"

definition read_agent :: "AgentId \<Rightarrow> Agent store_op" where
  "read_agent agent_id =
     bind_op (with_lock Reader
                (find_one_op Entities agent_document_loader
                   (WFields [(''id'', OpEq (JStr agent_id))]))) (\<lambda>agent_document.
     case agent_document of
       None \<Rightarrow> raise (ItemNotFoundError agent_id)
     | Some d \<Rightarrow>
         if d = Map.empty then raise (ItemNotFoundError agent_id)
         else deserialize_agent d)"

text \<open>
  \<^verbatim>\<open>update_agent\<close>: \<open>params\<close> is the \<^verbatim>\<open>AgentUpdateParams\<close> dict, cast to a document as it
  is and handed to \<^verbatim>\<open>update_one\<close>.
\<close>

definition update_agent :: "AgentId \<Rightarrow> document \<Rightarrow> Agent store_op" where
  "update_agent agent_id params =
     bind_op (with_lock Writer
                (bind_op (find_one_op Entities agent_document_loader
                            (WFields [(''id'', OpEq (JStr agent_id))])) (\<lambda>agent_document.
                 if \<not> truthy agent_document then raise (ItemNotFoundError agent_id)
                 else update_one_op Entities (WFields [(''id'', OpEq (JStr agent_id))]) params)))
       (\<lambda>result.
     case updated_document result of
       None \<Rightarrow> raise AssertionError
     | Some d \<Rightarrow>
         if d = Map.empty then raise AssertionError
         else deserialize_agent d)"

text \<open>The loop of \<^verbatim>\<open>delete_agent\<close> and \<^verbatim>\<open>delete_guideline\<close> over the associations found.\<close>

fun delete_associations :: "document list \<Rightarrow> unit store_op" where
  "delete_associations [] = returns ()"
| "delete_associations (doc # docs) =
     bind_op (lift (get_field doc ''id'')) (\<lambda>i.
     bind_op (delete_one_op TagAssociations (WFields [(''id'', OpEq i)])) (\<lambda>_.
     delete_associations docs))"

definition delete_agent :: "AgentId \<Rightarrow> unit store_op" where
  "delete_agent agent_id =
     bind_op (with_lock Writer
                (bind_op (delete_one_op Entities (WFields [(''id'', OpEq (JStr agent_id))])) (\<lambda>result.
                 bind_op (find_op TagAssociations agent_association_document_loader
                            (WFields [(''agent_id'', OpEq (JStr agent_id))])) (\<lambda>docs.
                 bind_op (delete_associations docs) (\<lambda>_.
                 returns result)))))
       (\<lambda>result.
     if deleted_count result = 0 then raise (ItemNotFoundError agent_id) else returns ())"

text \<open>
  \<^verbatim>\<open>upsert_tag\<close> of the agent store. Inside the writer scope \<^verbatim>\<open>return False\<close> leaves the
  function at once (\<open>Inl False\<close> below); otherwise the scope ends with the document
  found last, and the check after the scope decides.
\<close>

definition agent_upsert_tag ::
    "datetime \<Rightarrow> (nat \<Rightarrow> string) \<Rightarrow> AgentId \<Rightarrow> TagId \<Rightarrow> datetime option \<Rightarrow> bool store_op" where
  "agent_upsert_tag now gen agent_id tag_id creation_utc =
     bind_op (with_lock Writer
                (bind_op (read_agent agent_id) (\<lambda>agent.
                 if tag_id \<in> set (a_tags agent) then returns (Inl False)
                 else
                   let creation_utc' = (case creation_utc of None \<Rightarrow> now | Some t \<Rightarrow> t);
                       association_document =
                         agent_tag_association_document (gen 0) creation_utc' agent_id tag_id
                   in bind_op (insert_one_op TagAssociations association_document) (\<lambda>_.
                      bind_op (find_one_op Entities agent_document_loader
                                 (WFields [(''id'', OpEq (JStr agent_id))])) (\<lambda>agent_document.
                      returns (Inr agent_document))))))
       (\<lambda>r.
     case r of
       Inl b \<Rightarrow> returns b
     | Inr agent_document \<Rightarrow>
         if \<not> truthy agent_document then raise (ItemNotFoundError agent_id)
         else returns True)"

definition agent_remove_tag :: "AgentId \<Rightarrow> TagId \<Rightarrow> unit store_op" where
  "agent_remove_tag agent_id tag_id =
     bind_op (with_lock Writer
                (bind_op (delete_one_op TagAssociations
                            (WFields [(''agent_id'', OpEq (JStr agent_id)),
                                      (''tag_id'', OpEq (JStr tag_id))])) (\<lambda>delete_result.
                 if deleted_count delete_result = 0 then raise (ItemNotFoundError tag_id)
                 else find_one_op Entities agent_document_loader
                        (WFields [(''id'', OpEq (JStr agent_id))]))))
       (\<lambda>agent_document.
     if \<not> truthy agent_document then raise (ItemNotFoundError agent_id) else returns ())"

section \<open>The guideline store (core/guidelines.py)\<close>

type_synonym GuidelineId = string

record GuidelineContent =
  condition :: string
  action :: string

text \<open>The dataclass \<^verbatim>\<open>Guideline\<close>; its fields carry the prefix \<open>g_\<close>.\<close>

record Guideline =
  g_id :: GuidelineId
  g_creation_utc :: datetime
  g_content :: GuidelineContent
  g_enabled :: bool
  g_tags :: "TagId list"
  g_metadata :: "(string \<times> json) list"

definition guideline_VERSION :: string where
  "guideline_VERSION = ''0.4.0''"

text \<open>
  \<^verbatim>\<open>guideline_document_converter_0_1_0_to_0_2_0\<close>: each \<^verbatim>\<open>d[k]\<close> raises KeyError on a
  missing key, in the order of the keyword arguments.
\<close>

definition guideline_document_converter_0_1_0_to_0_2_0 :: converter where
  "guideline_document_converter_0_1_0_to_0_2_0 d =
     (bind_result (get_field d ''id'') (\<lambda>i.
      bind_result (get_field d ''creation_utc'') (\<lambda>c.
      bind_result (get_field d ''guideline_set'') (\<lambda>gs.
      bind_result (get_field d ''condition'') (\<lambda>cn.
      bind_result (get_field d ''action'') (\<lambda>ac.
        Inr (Some [''id'' \<mapsto> i,
                   ''version'' \<mapsto> JStr ''0.2.0'',
                   ''creation_utc'' \<mapsto> c,
                   ''guideline_set'' \<mapsto> gs,
                   ''condition'' \<mapsto> cn,
                   ''action'' \<mapsto> ac,
                   ''enabled'' \<mapsto> JBool True])))))))"

text \<open>The converters local to \<^verbatim>\<open>GuidelineDocumentStore._document_loader\<close>.\<close>

definition v0_3_0_to_v0_4_0 :: converter where
  "v0_3_0_to_v0_4_0 d =
     (bind_result (get_field d ''id'') (\<lambda>i.
      bind_result (get_field d ''creation_utc'') (\<lambda>c.
      bind_result (get_field d ''condition'') (\<lambda>cn.
      bind_result (get_field d ''action'') (\<lambda>ac.
      bind_result (get_field d ''enabled'') (\<lambda>en.
        Inr (Some [''id'' \<mapsto> i,
                   ''version'' \<mapsto> JStr ''0.4.0'',
                   ''creation_utc'' \<mapsto> c,
                   ''condition'' \<mapsto> cn,
                   ''action'' \<mapsto> ac,
                   ''enabled'' \<mapsto> en,
                   ''metadata'' \<mapsto> JObj []])))))))"

definition v0_2_0_to_v_0_3_0 :: converter where
  "v0_2_0_to_v_0_3_0 doc = Inl prepare_migration_exception"

definition guideline_converters :: "(string \<times> converter) list" where
  "guideline_converters =
     [(''0.1.0'', guideline_document_converter_0_1_0_to_0_2_0),
      (''0.2.0'', v0_2_0_to_v_0_3_0),
      (''0.3.0'', v0_3_0_to_v0_4_0)]"

definition guideline_document_loader :: loader where
  "guideline_document_loader doc =
     (case migrate 4 guideline_converters guideline_VERSION doc of
        None \<Rightarrow> Inl NonTermination
      | Some r \<Rightarrow> r)"

definition guideline_association_document_loader :: loader where
  "guideline_association_document_loader doc =
     (case doc ''version'' of
        None \<Rightarrow> Inl (KeyError ''version'')
      | Some v \<Rightarrow>
          if v = JStr ''0.3.0'' then
            (bind_result (get_field doc ''id'') (\<lambda>i.
             bind_result (get_field doc ''creation_utc'') (\<lambda>c.
             bind_result (get_field doc ''guideline_id'') (\<lambda>g.
             bind_result (get_field doc ''tag_id'') (\<lambda>t.
               Inr (Some [''id'' \<mapsto> i,
                          ''version'' \<mapsto> JStr ''0.4.0'',
                          ''creation_utc'' \<mapsto> c,
                          ''guideline_id'' \<mapsto> g,
                          ''tag_id'' \<mapsto> t]))))))
          else if v = JStr ''0.4.0'' then Inr (Some doc)
          else Inr None)"

definition serialize_guideline :: "Guideline \<Rightarrow> document" where
  "serialize_guideline guideline =
     [''id'' \<mapsto> JStr (g_id guideline),
      ''version'' \<mapsto> JStr guideline_VERSION,
      ''creation_utc'' \<mapsto> JStr (isoformat (g_creation_utc guideline)),
      ''condition'' \<mapsto> JStr (condition (g_content guideline)),
      ''action'' \<mapsto> JStr (action (g_content guideline)),
      ''enabled'' \<mapsto> JBool (g_enabled guideline),
      ''metadata'' \<mapsto> JObj (g_metadata guideline)]"

definition bool_field :: "document \<Rightarrow> string \<Rightarrow> error + bool" where
  "bool_field d k =
     (case d k of None \<Rightarrow> Inl (KeyError k) | Some (JBool b) \<Rightarrow> Inr b | Some _ \<Rightarrow> Inl (SchemaError k))"

definition obj_field :: "document \<Rightarrow> string \<Rightarrow> error + (string \<times> json) list" where
  "obj_field d k =
     (case d k of None \<Rightarrow> Inl (KeyError k) | Some (JObj kvs) \<Rightarrow> Inr kvs | Some _ \<Rightarrow> Inl (SchemaError k))"

definition guideline_of_document :: "document \<Rightarrow> TagId list \<Rightarrow> error + Guideline" where
  "guideline_of_document d tags =
     (bind_result (str_field d ''id'') (\<lambda>i.
      bind_result (str_field d ''creation_utc'') (\<lambda>c.
      bind_result (str_field d ''condition'') (\<lambda>cn.
      bind_result (str_field d ''action'') (\<lambda>ac.
      bind_result (bool_field d ''enabled'') (\<lambda>en.
      bind_result (obj_field d ''metadata'') (\<lambda>md.
        Inr \<lparr>g_id = i, g_creation_utc = fromisoformat c,
             g_content = \<lparr>condition = cn, action = ac\<rparr>,
             g_enabled = en, g_tags = tags, g_metadata = md\<rparr>)))))))"

definition deserialize_guideline :: "document \<Rightarrow> Guideline store_op" where
  "deserialize_guideline guideline_document =
     bind_op (lift (get_field guideline_document ''id'')) (\<lambda>i.
     bind_op (find_op TagAssociations guideline_association_document_loader
                (WFields [(''guideline_id'', OpEq i)])) (\<lambda>ds.
     bind_op (lift (map_result (\<lambda>d. str_field d ''tag_id'') ds)) (\<lambda>tag_ids.
     lift (guideline_of_document guideline_document tag_ids))))"

fun deserialize_guidelines :: "document list \<Rightarrow> Guideline list store_op" where
  "deserialize_guidelines [] = returns []"
| "deserialize_guidelines (d # ds) =
     bind_op (deserialize_guideline d) (\<lambda>g.
     bind_op (deserialize_guidelines ds) (\<lambda>gs.
     returns (g # gs)))"

definition guideline_tag_association_document ::
    "string \<Rightarrow> datetime \<Rightarrow> GuidelineId \<Rightarrow> TagId \<Rightarrow> document" where
  "guideline_tag_association_document new_id creation_utc guideline_id tag =
     [''id'' \<mapsto> JStr new_id,
      ''version'' \<mapsto> JStr guideline_VERSION,
      ''creation_utc'' \<mapsto> JStr (isoformat creation_utc),
      ''guideline_id'' \<mapsto> JStr guideline_id,
      ''tag_id'' \<mapsto> JStr tag]"

fun insert_guideline_tags ::
    "(nat \<Rightarrow> string) \<Rightarrow> nat \<Rightarrow> datetime \<Rightarrow> GuidelineId \<Rightarrow> TagId list \<Rightarrow> unit store_op" where
  "insert_guideline_tags gen k creation_utc guideline_id [] = returns ()"
| "insert_guideline_tags gen k creation_utc guideline_id (tag # tags) =
     bind_op (insert_one_op TagAssociations
                (guideline_tag_association_document (gen k) creation_utc guideline_id tag)) (\<lambda>_.
     insert_guideline_tags gen (Suc k) creation_utc guideline_id tags)"

text \<open>
  \<^verbatim>\<open>create_guideline\<close>; \<open>metadata\<close> and \<open>enabled\<close> are given by the caller (their defaults
  \<^verbatim>\<open>{}\<close> and \<^verbatim>\<open>True\<close> are the caller's \<open>[]\<close> and \<open>True\<close>).
\<close>

definition create_guideline ::
    "datetime \<Rightarrow> (nat \<Rightarrow> string) \<Rightarrow> string \<Rightarrow> string \<Rightarrow> (string \<times> json) list \<Rightarrow>
     datetime option \<Rightarrow> bool \<Rightarrow> TagId list option \<Rightarrow> Guideline store_op" where
  "create_guideline now gen cond_text action_text metadata creation_utc enabled tags =
     with_lock Writer
       (let creation_utc' = (case creation_utc of None \<Rightarrow> now | Some t \<Rightarrow> t);
            guideline = \<lparr>g_id = gen 0, g_creation_utc = creation_utc',
                         g_content = \<lparr>condition = cond_text, action = action_text\<rparr>,
                         g_enabled = enabled,
                         g_tags = (case tags of None \<Rightarrow> [] | Some ts \<Rightarrow> ts),
                         g_metadata = metadata\<rparr>
        in bind_op (insert_one_op Entities (serialize_guideline guideline)) (\<lambda>_.
           bind_op (insert_guideline_tags gen 1 creation_utc' (g_id guideline)
                      (case tags of None \<Rightarrow> [] | Some ts \<Rightarrow> ts)) (\<lambda>_.
           returns guideline)))"

text \<open>
  \<^verbatim>\<open>list_guidelines\<close>. The Python sets of guideline ids are lists without duplicates
  here; a filter built from them does not depend on their order. \<open>Inl []\<close> is the early
  \<^verbatim>\<open>return []\<close> inside the reader scope.
\<close>

definition list_guidelines :: "TagId list option \<Rightarrow> Guideline list store_op" where
  "list_guidelines tags =
     with_lock Reader
       (bind_op
          (case tags of
             None \<Rightarrow> returns (Inr (WFields []))
           | Some ts \<Rightarrow>
               if length ts = 0 then
                 bind_op (find_op TagAssociations guideline_association_document_loader
                            (WFields [])) (\<lambda>docs.
                 bind_op (lift (map_result (\<lambda>doc. get_field doc ''guideline_id'') docs)) (\<lambda>ids.
                 let guideline_ids = remdups ids
                 in returns (Inr (if guideline_ids \<noteq> []
                                  then WAnd (map (\<lambda>i. WFields [(''id'', OpNe i)]) guideline_ids)
                                  else WFields []))))
               else
                 bind_op (find_op TagAssociations guideline_association_document_loader
                            (WOr (map (\<lambda>tag. WFields [(''tag_id'', OpEq (JStr tag))]) ts)))
                   (\<lambda>tag_associations.
                 bind_op (lift (map_result (\<lambda>assoc. get_field assoc ''guideline_id'')
                                  tag_associations)) (\<lambda>ids.
                 let guideline_ids = remdups ids
                 in if guideline_ids = [] then returns (Inl [])
                    else returns (Inr (WOr (map (\<lambda>i. WFields [(''id'', OpEq i)]) guideline_ids))))))
          (\<lambda>r.
           case r of
             Inl early \<Rightarrow> returns early
           | Inr filters \<Rightarrow>
               bind_op (find_op Entities guideline_document_loader filters) deserialize_guidelines))"

definition read_guideline :: "GuidelineId \<Rightarrow> Guideline store_op" where
  "read_guideline guideline_id =
     bind_op (with_lock Reader
                (find_one_op Entities guideline_document_loader
                   (WFields [(''id'', OpEq (JStr guideline_id))]))) (\<lambda>guideline_document.
     case guideline_document of
       None \<Rightarrow> raise (ItemNotFoundError guideline_id)
     | Some d \<Rightarrow>
         if d = Map.empty then raise (ItemNotFoundError guideline_id)
         else deserialize_guideline d)"

definition delete_guideline :: "GuidelineId \<Rightarrow> unit store_op" where
  "delete_guideline guideline_id =
     bind_op (with_lock Writer
                (bind_op (delete_one_op Entities
                            (WFields [(''id'', OpEq (JStr guideline_id))])) (\<lambda>result.
                 bind_op (find_op TagAssociations guideline_association_document_loader
                            (WFields [(''guideline_id'', OpEq (JStr guideline_id))])) (\<lambda>docs.
                 bind_op (delete_associations docs) (\<lambda>_.
                 returns result)))))
       (\<lambda>result.
     if \<not> truthy (deleted_document result) then raise (ItemNotFoundError guideline_id)
     else returns ())"

text \<open>
  \<^verbatim>\<open>update_guideline\<close>: \<open>params\<close> is the \<^verbatim>\<open>GuidelineUpdateParams\<close> dict. The document handed
  to \<^verbatim>\<open>update_one\<close> is built from three of its keys; \<open>present_key params k\<close> is
  \<^verbatim>\<open>({k: params[k]} if k in params else {})\<close>.
\<close>

definition present_key :: "document \<Rightarrow> string \<Rightarrow> document" where
  "present_key params k = (case params k of None \<Rightarrow> Map.empty | Some v \<Rightarrow> [k \<mapsto> v])"

definition guideline_update_document :: "document \<Rightarrow> document" where
  "guideline_update_document params =
     present_key params ''condition'' ++ present_key params ''action''
       ++ present_key params ''enabled''"

definition update_guideline :: "GuidelineId \<Rightarrow> document \<Rightarrow> Guideline store_op" where
  "update_guideline guideline_id params =
     bind_op (with_lock Writer
                (let guideline_document = guideline_update_document params
                 in update_one_op Entities (WFields [(''id'', OpEq (JStr guideline_id))])
                      guideline_document))
       (\<lambda>result.
     case updated_document result of
       None \<Rightarrow> raise AssertionError
     | Some d \<Rightarrow>
         if d = Map.empty then raise AssertionError
         else deserialize_guideline d)"

definition guideline_upsert_tag ::
    "datetime \<Rightarrow> (nat \<Rightarrow> string) \<Rightarrow> GuidelineId \<Rightarrow> TagId \<Rightarrow> datetime option \<Rightarrow> bool store_op" where
  "guideline_upsert_tag now gen guideline_id tag_id creation_utc =
     bind_op (with_lock Writer
                (bind_op (read_guideline guideline_id) (\<lambda>guideline.
                 if tag_id \<in> set (g_tags guideline) then returns (Inl False)
                 else
                   let creation_utc' = (case creation_utc of None \<Rightarrow> now | Some t \<Rightarrow> t);
                       association_document =
                         guideline_tag_association_document (gen 0) creation_utc' guideline_id tag_id
                   in bind_op (insert_one_op TagAssociations association_document) (\<lambda>_.
                      bind_op (find_one_op Entities guideline_document_loader
                                 (WFields [(''id'', OpEq (JStr guideline_id))])) (\<lambda>guideline_document.
                      returns (Inr guideline_document))))))
       (\<lambda>r.
     case r of
       Inl b \<Rightarrow> returns b
     | Inr guideline_document \<Rightarrow>
         if \<not> truthy guideline_document then raise (ItemNotFoundError guideline_id)
         else returns True)"

definition guideline_remove_tag :: "GuidelineId \<Rightarrow> TagId \<Rightarrow> unit store_op" where
  "guideline_remove_tag guideline_id tag_id =
     bind_op (with_lock Writer
                (bind_op (delete_one_op TagAssociations
                            (WFields [(''guideline_id'', OpEq (JStr guideline_id)),
                                      (''tag_id'', OpEq (JStr tag_id))])) (\<lambda>delete_result.
                 if deleted_count delete_result = 0 then raise (ItemNotFoundError tag_id)
                 else find_one_op Entities guideline_document_loader
                        (WFields [(''id'', OpEq (JStr guideline_id))]))))
       (\<lambda>guideline_document.
     if \<not> truthy guideline_document then raise (ItemNotFoundError guideline_id) else returns ())"

text \<open>
  \<^verbatim>\<open>add_metadata\<close> and \<^verbatim>\<open>remove_metadata\<close>. \<^verbatim>\<open>{**old, **new}\<close> keeps the keys of \<open>old\<close> in
  place with the values of \<open>new\<close> where it has the key, and appends the other keys of
  \<open>new\<close>.
\<close>

definition merge_metadata :: "(string \<times> json) list \<Rightarrow> (string \<times> json) list \<Rightarrow> (string \<times> json) list" where
  "merge_metadata old new = fold (\<lambda>(k, v) acc. AList.update k v acc) new old"

definition add_metadata :: "GuidelineId \<Rightarrow> (string \<times> json) list \<Rightarrow> Guideline store_op" where
  "add_metadata guideline_id metadata =
     bind_op (with_lock Writer
                (bind_op (find_one_op Entities guideline_document_loader
                            (WFields [(''id'', OpEq (JStr guideline_id))])) (\<lambda>guideline_document.
                 case guideline_document of
                   None \<Rightarrow> raise (ItemNotFoundError guideline_id)
                 | Some d \<Rightarrow>
                     if d = Map.empty then raise (ItemNotFoundError guideline_id)
                     else
                       bind_op (lift (obj_field d ''metadata'')) (\<lambda>old.
                       let updated_metadata = merge_metadata old metadata
                       in update_one_op Entities (WFields [(''id'', OpEq (JStr guideline_id))])
                            [''metadata'' \<mapsto> JObj updated_metadata]))))
       (\<lambda>result.
     case updated_document result of
       None \<Rightarrow> raise AssertionError
     | Some d \<Rightarrow>
         if d = Map.empty then raise AssertionError
         else deserialize_guideline d)"

definition remove_metadata :: "GuidelineId \<Rightarrow> string list \<Rightarrow> Guideline store_op" where
  "remove_metadata guideline_id keys =
     bind_op (with_lock Writer
                (bind_op (find_one_op Entities guideline_document_loader
                            (WFields [(''id'', OpEq (JStr guideline_id))])) (\<lambda>guideline_document.
                 case guideline_document of
                   None \<Rightarrow> raise (ItemNotFoundError guideline_id)
                 | Some d \<Rightarrow>
                     if d = Map.empty then raise (ItemNotFoundError guideline_id)
                     else
                       bind_op (lift (obj_field d ''metadata'')) (\<lambda>old.
                       let updated_metadata = filter (\<lambda>(k, v). k \<notin> set keys) old
                       in update_one_op Entities (WFields [(''id'', OpEq (JStr guideline_id))])
                            [''metadata'' \<mapsto> JObj updated_metadata]))))
       (\<lambda>result.
     case updated_document result of
       None \<Rightarrow> raise AssertionError
     | Some d \<Rightarrow>
         if d = Map.empty then raise AssertionError
         else deserialize_guideline d)"

section \<open>Properties of stores and of event sequences\<close>

text \<open>The store after an operation made of reads only differs in its events.\<close>

definition same_data :: "document_store \<Rightarrow> document_store \<Rightarrow> bool" where
  "same_data s s' \<longleftrightarrow>
     collection s' = collection s \<and> tag_association_collection s' = tag_association_collection s"

definition reads_only :: "'a store_op \<Rightarrow> bool" where
  "reads_only m \<longleftrightarrow> (\<forall>s. same_data s (snd (m s)))"

text \<open>
  What an update may change: a field of a record can differ after the update only if
  \<open>params\<close> names it; the tag associations stay as they are.
\<close>

definition frame_ok :: "document \<Rightarrow> document_store \<Rightarrow> document_store \<Rightarrow> bool" where
  "frame_ok params s s' \<longleftrightarrow>
     list_all2 (\<lambda>d d'. \<forall>k. params k = None \<longrightarrow> d' k = d k) (collection s) (collection s') \<and>
     tag_association_collection s' = tag_association_collection s"

text \<open>
  An operation preserves a relation between the store before and the store after; the
  relations of interest do not look at the events and are transitive.
\<close>

definition preserves :: "(document_store \<Rightarrow> document_store \<Rightarrow> bool) \<Rightarrow> 'a store_op \<Rightarrow> bool" where
  "preserves R m \<longleftrightarrow> (\<forall>s. R s (snd (m s)))"

definition event_blind :: "(document_store \<Rightarrow> document_store \<Rightarrow> bool) \<Rightarrow> bool" where
  "event_blind R \<longleftrightarrow> reflp R \<and> transp R \<and> (\<forall>s e. R s (emit e s))"

definition primary_kept :: "document_store \<Rightarrow> document_store \<Rightarrow> bool" where
  "primary_kept s s' \<longleftrightarrow> collection s' = collection s"

text \<open>
  A tag association record as the stores write it: the reserved fields, the id of the
  owning entity under \<open>owner_key\<close> (\<^verbatim>\<open>agent_id\<close> or \<^verbatim>\<open>guideline_id\<close>) and the tag id.
  \<open>guideline_from d assocs\<close> is what \<^verbatim>\<open>_deserialize\<close> returns for the record \<open>d\<close> when
  \<open>assocs\<close> are the association records as loaded.
\<close>

definition wf_association :: "string \<Rightarrow> document \<Rightarrow> bool" where
  "wf_association owner_key d \<longleftrightarrow>
     (\<exists>i. d ''id'' = Some (JStr i)) \<and> (\<exists>v. d ''version'' = Some (JStr v)) \<and>
     (\<exists>c. d ''creation_utc'' = Some c) \<and> (\<exists>g. d owner_key = Some (JStr g)) \<and>
     (\<exists>t. d ''tag_id'' = Some (JStr t))"

definition guideline_from :: "document \<Rightarrow> document list \<Rightarrow> error + Guideline" where
  "guideline_from d assocs =
     bind_result (get_field d ''id'') (\<lambda>i.
     bind_result (map_result (\<lambda>a. str_field a ''tag_id'')
                    (filter (matches_filters (WFields [(''guideline_id'', OpEq i)])) assocs)) (\<lambda>tag_ids.
     guideline_of_document d tag_ids))"

definition agent_from :: "document \<Rightarrow> document list \<Rightarrow> error + Agent" where
  "agent_from d assocs =
     bind_result (get_field d ''id'') (\<lambda>i.
     bind_result (map_result (\<lambda>a. str_field a ''tag_id'')
                    (filter (matches_filters (WFields [(''agent_id'', OpEq i)])) assocs)) (\<lambda>tags.
     agent_of_document d tags))"

text \<open>The association records \<^verbatim>\<open>create_agent\<close> inserts for the tags, the \<open>k\<close>-th generated id first.\<close>

definition new_agent_tags :: "(nat \<Rightarrow> string) \<Rightarrow> nat \<Rightarrow> datetime \<Rightarrow> AgentId \<Rightarrow> TagId list \<Rightarrow> document list" where
  "new_agent_tags gen k creation_utc agent_id tags =
     map (\<lambda>(j, tag). agent_tag_association_document (gen j) creation_utc agent_id tag)
       (zip [k..<k + length tags] tags)"

text \<open>
  The association records of one (entity, tag) pair, and the stores whose association
  records are all at the store's current version, as every record the store writes is.
\<close>

definition pair_records :: "string \<Rightarrow> string \<Rightarrow> TagId \<Rightarrow> document list \<Rightarrow> document list" where
  "pair_records owner_key entity_id tag_id docs =
     filter (\<lambda>d. d owner_key = Some (JStr entity_id) \<and> d ''tag_id'' = Some (JStr tag_id)) docs"

definition current_version :: "string \<Rightarrow> document list \<Rightarrow> bool" where
  "current_version v docs = list_all (\<lambda>d. d ''version'' = Some (JStr v)) docs"

text \<open>
  The events an operation adds to the store's sequence, and the shapes of interest.
  \<open>one_writer_section\<close>: the events are one writer scope, entered first and left last,
  with no other scope entered or left in between. \<open>writer_guards_writes\<close>: the writer
  scope is entered first and exactly once; until it is left no writer scope is entered
  again; after it is left there are only reads (\<^verbatim>\<open>find\<close>, \<^verbatim>\<open>find_one\<close>), no write and no
  scope.
\<close>

definition new_events :: "document_store \<Rightarrow> document_store \<Rightarrow> event list" where
  "new_events s s' = drop (length (events s)) (events s')"

fun is_lock_event :: "event \<Rightarrow> bool" where
  "is_lock_event (Acquire _) = True"
| "is_lock_event (Release _) = True"
| "is_lock_event (Access _ _) = False"

fun is_read :: "event \<Rightarrow> bool" where
  "is_read (Access _ Find) = True"
| "is_read (Access _ FindOne) = True"
| "is_read _ = False"

definition one_writer_section :: "event list \<Rightarrow> bool" where
  "one_writer_section tr =
     (case tr of
        [] \<Rightarrow> False
      | e # rest \<Rightarrow>
          e = Acquire Writer \<and> rest \<noteq> [] \<and> last rest = Release Writer \<and>
          list_all (\<lambda>e. \<not> is_lock_event e) (butlast rest))"

definition writer_guards_writes :: "event list \<Rightarrow> bool" where
  "writer_guards_writes tr =
     (case tr of
        [] \<Rightarrow> False
      | e # rest \<Rightarrow>
          e = Acquire Writer \<and>
          (let inside = takeWhile (\<lambda>e. e \<noteq> Release Writer) rest;
               after = drop (Suc (length inside)) rest
           in length inside < length rest \<and> Acquire Writer \<notin> set inside \<and>
              list_all is_read after))"

definition traces_in :: "event set \<Rightarrow> 'a store_op \<Rightarrow> bool" where
  "traces_in E m \<longleftrightarrow> (\<forall>s. \<exists>tr. events (snd (m s)) = events s @ tr \<and> set tr \<subseteq> E)"

section \<open>Example stores\<close>

definition example_agent :: Agent where
  "example_agent =
     \<lparr>a_id = ''agent00001'', a_name = ''A'', a_description = Some ''first'',
      a_creation_utc = DateTime ''2025-01-01T00:00:00+00:00'',
      a_max_engine_iterations = 3, a_tags = [''t1''], a_composition_mode = FLUID\<rparr>"

definition example_agent_store :: document_store where
  "example_agent_store =
     \<lparr>collection = [serialize_agent example_agent],
      tag_association_collection =
        [agent_tag_association_document ''assoc00001'' (DateTime ''2025-01-01T00:00:00+00:00'')
           ''agent00001'' ''t1''],
      events = []\<rparr>"

definition example_guideline :: Guideline where
  "example_guideline =
     \<lparr>g_id = ''guide00001'', g_creation_utc = DateTime ''2025-01-01T00:00:00+00:00'',
      g_content = \<lparr>condition = ''greeted'', action = ''greet back''\<rparr>,
      g_enabled = True, g_tags = [''t1''], g_metadata = [(''k'', JInt 1)]\<rparr>"

definition example_guideline_store :: document_store where
  "example_guideline_store =
     \<lparr>collection = [serialize_guideline example_guideline],
      tag_association_collection =
        [guideline_tag_association_document ''assoc00001''
           (DateTime ''2025-01-01T00:00:00+00:00'') ''guide00001'' ''t1''],
      events = []\<rparr>"

definition empty_store :: document_store where
  "empty_store = \<lparr>collection = [], tag_association_collection = [], events = []\<rparr>"

definition example_guideline_document_v0_1_0 :: document where
  "example_guideline_document_v0_1_0 =
     [''id'' \<mapsto> JStr ''guide00001'',
      ''version'' \<mapsto> JStr ''0.1.0'',
      ''creation_utc'' \<mapsto> JStr ''2025-01-01T00:00:00+00:00'',
      ''guideline_set'' \<mapsto> JStr ''set1'',
      ''condition'' \<mapsto> JStr ''greeted'',
      ''action'' \<mapsto> JStr ''greet back'']"

text \<open>
  The scenario of the specification: guideline A is created with no tags, then
  guideline B with the tag \<open>t1\<close>, starting from the empty store.
\<close>

definition scenario_now :: datetime where
  "scenario_now = DateTime ''2025-01-01T00:00:00+00:00''"

definition scenario_guideline_A :: Guideline where
  "scenario_guideline_A =
     \<lparr>g_id = ''guideA0000'', g_creation_utc = scenario_now,
      g_content = \<lparr>condition = ''cond A'', action = ''act A''\<rparr>,
      g_enabled = True, g_tags = [], g_metadata = []\<rparr>"

definition scenario_guideline_B :: Guideline where
  "scenario_guideline_B =
     \<lparr>g_id = ''guideB0000'', g_creation_utc = scenario_now,
      g_content = \<lparr>condition = ''cond B'', action = ''act B''\<rparr>,
      g_enabled = True, g_tags = [''t1''], g_metadata = []\<rparr>"

definition scenario_store :: document_store where
  "scenario_store =
     snd (create_guideline scenario_now (\<lambda>k. if k = 0 then ''guideB0000'' else ''assocB0001'')
            ''cond B'' ''act B'' [] None True (Some [''t1''])
       (snd (create_guideline scenario_now (\<lambda>k. ''guideA0000'')
               ''cond A'' ''act A'' [] None True None empty_store)))"

text \<open>
  A store in which one agent has two association records for the same tag:
  \<^verbatim>\<open>create_agent\<close> was called with the tag listed twice.
\<close>

definition twice_tagged_store :: document_store where
  "twice_tagged_store =
     snd (create_agent scenario_now
            (\<lambda>k. if k = 0 then ''agent00001'' else if k = 1 then ''assoc00001'' else ''assoc00002'')
            ''A'' None None None None (Some [''t1'', ''t1'']) empty_store)"

section \<open>Basic facts about the store operations\<close>

lemma collection_emit [simp]:
  "collection (emit e s) = collection s"
  "tag_association_collection (emit e s) = tag_association_collection s"
  "events (emit e s) = events s @ [e]"
  by (simp_all add: emit_def)

lemma get_collection_simps [simp]:
  "get_collection Entities s = collection s"
  "get_collection TagAssociations s = tag_association_collection s"
  "get_collection c (emit e s) = get_collection c s"
  by (simp_all add: get_collection_def split: collection_ref.splits)

lemma set_collection_simps [simp]:
  "collection (set_collection Entities docs s) = docs"
  "collection (set_collection TagAssociations docs s) = collection s"
  "tag_association_collection (set_collection Entities docs s) = tag_association_collection s"
  "tag_association_collection (set_collection TagAssociations docs s) = docs"
  "events (set_collection c docs s) = events s"
  by (simp_all add: set_collection_def split: collection_ref.splits)

lemma bind_op_simps [simp]:
  "bind_op (returns x) f = f x"
  "bind_op (raise e) f = raise e"
  "bind_op (lift (Inr x)) f = f x"
  "bind_op (lift (Inl e)) f = raise e"
  by (auto simp: bind_op_def returns_def raise_def lift_def)

lemma same_data_refl [simp]: "same_data s s" "same_data s (emit e s)"
  by (simp_all add: same_data_def)

lemma same_data_trans: "same_data s s' \<Longrightarrow> same_data s' s'' \<Longrightarrow> same_data s s''"
  by (simp add: same_data_def)

lemma reads_only_basic [simp]:
  "reads_only (returns x)" "reads_only (raise e)" "reads_only (lift r)"
  "reads_only (find_op c ld w)" "reads_only (find_one_op c ld w)"
  by (simp_all add: reads_only_def returns_def raise_def lift_def find_op_def find_one_op_def)

lemma reads_only_bind [intro]:
  "reads_only m \<Longrightarrow> (\<And>x. reads_only (f x)) \<Longrightarrow> reads_only (bind_op m f)"
  unfolding reads_only_def bind_op_def
  apply (auto split: prod.splits sum.splits)
  apply (metis snd_conv)
  by (metis same_data_trans snd_conv)

lemma reads_only_with_lock [intro]:
  "reads_only m \<Longrightarrow> reads_only (with_lock sc m)"
  unfolding reads_only_def with_lock_def
  apply (auto split: prod.splits simp: same_data_def)
  apply (metis collection_emit(1) snd_conv)
  by (metis collection_emit(2) snd_conv)

lemma reads_only_deserialize_agent [simp]: "reads_only (deserialize_agent d)"
  unfolding deserialize_agent_def by (intro reads_only_bind) simp_all

lemma reads_only_read_agent [simp]: "reads_only (read_agent a)"
  unfolding read_agent_def
  by (intro reads_only_bind reads_only_with_lock) (simp_all split: option.splits)

lemma reads_only_deserialize_guideline [simp]: "reads_only (deserialize_guideline d)"
  unfolding deserialize_guideline_def by (intro reads_only_bind) simp_all

lemma reads_only_read_guideline [simp]: "reads_only (read_guideline a)"
  unfolding read_guideline_def
  by (intro reads_only_bind reads_only_with_lock) (simp_all split: option.splits)

section \<open>What an update leaves unchanged\<close>

lemma snd_bind_reads_only:
  assumes "\<And>x. reads_only (f x)"
  shows "same_data (snd (m s)) (snd (bind_op m f s))"
proof (cases "m s")
  case (Pair r s')
  show ?thesis
  proof (cases r)
    case (Inl e)
    with Pair show ?thesis by (simp add: bind_op_def)
  next
    case (Inr x)
    from assms[of x] have "same_data s' (snd (f x s'))" by (simp add: reads_only_def)
    with Pair Inr show ?thesis by (simp add: bind_op_def)
  qed
qed

lemma snd_with_lock_data:
  "same_data (snd (body (emit (Acquire sc) s))) (snd (with_lock sc body s))"
  by (simp add: with_lock_def same_data_def split: prod.splits)

lemma update_one_frame:
  "list_all2 (\<lambda>d d'. \<forall>k. params k = None \<longrightarrow> d' k = d k) ds
     (snd (collection_update_one w params ds))"
  by (induction ds) (auto simp: map_add_def list_all2_same list.rel_refl split: prod.splits)

lemma list_all2_frame_refl:
  "list_all2 (\<lambda>d d'. \<forall>k. P k \<longrightarrow> d' k = d k) ds ds"
  by (simp add: list.rel_refl)

lemma update_one_op_frame:
  assumes "same_data s s'"
  shows "list_all2 (\<lambda>d d'. \<forall>k. params k = None \<longrightarrow> d' k = d k) (collection s)
     (collection (snd (update_one_op Entities w params s'))) \<and>
   tag_association_collection (snd (update_one_op Entities w params s')) = tag_association_collection s"
  using assms update_one_frame[of params "collection s" w]
  by (auto simp: update_one_op_def same_data_def split: prod.splits)

lemma frame_ok_same_data: "same_data s s' \<Longrightarrow> frame_ok params s s'"
  by (simp add: frame_ok_def same_data_def list.rel_refl)

lemma frame_ok_then_same: "frame_ok params s s' \<Longrightarrow> same_data s' s'' \<Longrightarrow> frame_ok params s s''"
  by (simp add: frame_ok_def same_data_def)

lemma update_agent_frame: "frame_ok params s (snd (update_agent agent_id params s))"
proof -
  let ?w = "WFields [(''id'', OpEq (JStr agent_id))]"
  let ?body = "bind_op (find_one_op Entities agent_document_loader ?w) (\<lambda>agent_document.
                 if \<not> truthy agent_document then raise (ItemNotFoundError agent_id)
                 else update_one_op Entities ?w params)"
  let ?s1 = "emit (Acquire Writer) s"
  have body: "frame_ok params s (snd (?body ?s1))"
    using update_one_op_frame[of s "emit (Access Entities FindOne) ?s1" params ?w]
    by (auto simp: bind_op_def find_one_op_def raise_def frame_ok_def same_data_def list.rel_refl
             split: sum.splits prod.splits)
  have "same_data (snd (?body ?s1)) (snd (with_lock Writer ?body s))"
    by (rule snd_with_lock_data)
  with body have lock: "frame_ok params s (snd (with_lock Writer ?body s))"
    by (rule frame_ok_then_same)
  have "same_data (snd (with_lock Writer ?body s)) (snd (update_agent agent_id params s))"
    unfolding update_agent_def
    by (rule snd_bind_reads_only) (simp split: option.splits)
  with lock show ?thesis by (rule frame_ok_then_same)
qed

lemma guideline_update_document_dom:
  "params k = None \<Longrightarrow> guideline_update_document params k = None"
  by (auto simp: guideline_update_document_def present_key_def map_add_def split: option.splits)

lemma guideline_update_document_metadata:
  "guideline_update_document params ''metadata'' = None"
  by (auto simp: guideline_update_document_def present_key_def map_add_def split: option.splits)

lemma update_guideline_frame:
  "frame_ok (guideline_update_document params) s (snd (update_guideline guideline_id params s))"
proof -
  let ?w = "WFields [(''id'', OpEq (JStr guideline_id))]"
  let ?body = "(let guideline_document = guideline_update_document params
                 in update_one_op Entities ?w guideline_document)"
  let ?s1 = "emit (Acquire Writer) s"
  have body: "frame_ok (guideline_update_document params) s (snd (?body ?s1))"
    using update_one_op_frame[of s ?s1 "guideline_update_document params" ?w]
    by (simp add: frame_ok_def)
  have "same_data (snd (?body ?s1)) (snd (with_lock Writer ?body s))"
    by (rule snd_with_lock_data)
  with body have lock: "frame_ok (guideline_update_document params) s (snd (with_lock Writer ?body s))"
    by (rule frame_ok_then_same)
  have "same_data (snd (with_lock Writer ?body s)) (snd (update_guideline guideline_id params s))"
    unfolding update_guideline_def
    by (rule snd_bind_reads_only) (simp split: option.splits)
  with lock show ?thesis by (rule frame_ok_then_same)
qed

section \<open>Evaluating the operations on the example stores\<close>

lemmas store_op_defs = with_lock_def bind_op_def find_one_op_def find_op_def update_one_op_def
  insert_one_op_def delete_one_op_def collection_find_one_def collection_find_def
  collection_insert_one_def emit_def get_collection_def set_collection_def truthy_def
  raise_def returns_def lift_def get_field_def str_field_def bind_result_def

lemmas agent_eval_defs = example_agent_store_def example_agent_def serialize_agent_def
  agent_tag_association_document_def agent_document_loader_def agent_VERSION_def
  deserialize_agent_def agent_association_document_loader_def agent_of_document_def
  description_field_def int_field_def composition_mode_field_def composition_mode_of_def
  fromisoformat_def json_of_description_def numeral_3_eq_3

lemmas guideline_eval_defs = example_guideline_store_def example_guideline_def
  serialize_guideline_def guideline_tag_association_document_def guideline_document_loader_def
  guideline_VERSION_def deserialize_guideline_def guideline_association_document_loader_def
  guideline_of_document_def bool_field_def obj_field_def fromisoformat_def
  numeral_eq_Suc pred_numeral_simps

section \<open>Operations that leave the primary collection alone\<close>

lemma event_blind_refl: "event_blind R \<Longrightarrow> R s s"
  by (simp add: event_blind_def reflpD)

lemma event_blind_emit: "event_blind R \<Longrightarrow> R s (emit e s)"
  by (simp add: event_blind_def)

lemma event_blind_trans: "event_blind R \<Longrightarrow> R s s' \<Longrightarrow> R s' s'' \<Longrightarrow> R s s''"
  unfolding event_blind_def by (blast dest: transpD)

lemma preserves_basic:
  assumes "event_blind R"
  shows "preserves R (returns x)" "preserves R (raise e)" "preserves R (lift r)"
    "preserves R (find_op c ld w)" "preserves R (find_one_op c ld w)"
  using event_blind_refl[OF assms] event_blind_emit[OF assms]
  by (simp_all add: preserves_def returns_def raise_def lift_def find_op_def find_one_op_def)

lemma preserves_bind:
  assumes R: "event_blind R" and m: "preserves R m" and f: "\<And>x. preserves R (f x)"
  shows "preserves R (bind_op m f)"
  unfolding preserves_def
proof
  fix s
  obtain r s' where ms: "m s = (r, s')" by (cases "m s")
  from m ms have 1: "R s s'" by (auto simp: preserves_def dest: spec[of _ s])
  show "R s (snd (bind_op m f s))"
  proof (cases r)
    case (Inl e)
    with ms 1 show ?thesis by (simp add: bind_op_def)
  next
    case (Inr x)
    from f[of x] have "R s' (snd (f x s'))" by (simp add: preserves_def)
    with 1 have "R s (snd (f x s'))" by (rule event_blind_trans[OF R])
    with ms Inr show ?thesis by (simp add: bind_op_def)
  qed
qed

lemma preserves_with_lock:
  assumes R: "event_blind R" and m: "preserves R m"
  shows "preserves R (with_lock sc m)"
  unfolding preserves_def
proof
  fix s
  let ?s1 = "emit (Acquire sc) s"
  obtain r s' where ms: "m ?s1 = (r, s')" by (cases "m ?s1")
  from m ms have "R ?s1 s'" by (auto simp: preserves_def dest: spec[of _ ?s1])
  with event_blind_emit[OF R] have "R s s'" by (rule event_blind_trans[OF R])
  then have "R s (emit (Release sc) s')"
    using event_blind_emit[OF R] by (rule event_blind_trans[OF R])
  with ms show "R s (snd (with_lock sc m s))" by (simp add: with_lock_def)
qed

lemma event_blind_same_data: "event_blind same_data"
  by (auto simp: event_blind_def same_data_def reflp_def transp_def)

lemma event_blind_primary_kept: "event_blind primary_kept"
  by (auto simp: event_blind_def primary_kept_def reflp_def transp_def)

lemma same_data_primary_kept: "same_data s s' \<Longrightarrow> primary_kept s s'"
  by (simp add: same_data_def primary_kept_def)

lemma reads_only_primary_kept: "reads_only m \<Longrightarrow> preserves primary_kept m"
  by (simp add: reads_only_def preserves_def same_data_primary_kept)

lemma primary_kept_tag_ops:
  "preserves primary_kept (insert_one_op TagAssociations doc)"
  "preserves primary_kept (delete_one_op TagAssociations w)"
  by (auto simp: preserves_def primary_kept_def insert_one_op_def delete_one_op_def
           split: sum.splits prod.splits)

lemmas pk_intros = preserves_bind[OF event_blind_primary_kept]
  preserves_with_lock[OF event_blind_primary_kept]
  preserves_basic[OF event_blind_primary_kept] primary_kept_tag_ops

lemma read_primary_kept:
  "preserves primary_kept (read_guideline g)" "preserves primary_kept (read_agent a)"
  by (simp_all add: reads_only_primary_kept)

lemma guideline_upsert_tag_primary_kept:
  "preserves primary_kept (guideline_upsert_tag now gen guideline_id tag_id creation_utc)"
  unfolding guideline_upsert_tag_def Let_def
  by (intro pk_intros read_primary_kept
        | simp split: sum.splits | intro conjI impI allI)+

lemma guideline_remove_tag_primary_kept:
  "preserves primary_kept (guideline_remove_tag guideline_id tag_id)"
  unfolding guideline_remove_tag_def
  by (intro pk_intros | simp split: sum.splits | intro conjI impI allI)+

lemma agent_upsert_tag_primary_kept:
  "preserves primary_kept (agent_upsert_tag now gen agent_id tag_id creation_utc)"
  unfolding agent_upsert_tag_def Let_def
  by (intro pk_intros read_primary_kept
        | simp split: sum.splits | intro conjI impI allI)+

section \<open>The migration chains of the two stores\<close>

lemma migrate_more_fuel:
  "migrate n cs t doc = Some r \<Longrightarrow> migrate (n + k) cs t doc = Some r"
proof (induction n arbitrary: doc)
  case 0 then show ?case by simp
next
  case (Suc n)
  then show ?case
    by (auto split: option.splits json.splits if_splits sum.splits)
qed

lemma converter_0_1_0_version:
  "guideline_document_converter_0_1_0_to_0_2_0 d = Inr (Some d') \<Longrightarrow> d' ''version'' = Some (JStr ''0.2.0'')"
  by (auto simp: guideline_document_converter_0_1_0_to_0_2_0_def bind_result_def get_field_def
      split: option.splits sum.splits)

lemma converter_0_1_0_not_dropped:
  "guideline_document_converter_0_1_0_to_0_2_0 d \<noteq> Inr None"
  by (auto simp: guideline_document_converter_0_1_0_to_0_2_0_def bind_result_def get_field_def
      split: option.splits sum.splits)

lemma converter_0_3_0_version:
  "v0_3_0_to_v0_4_0 d = Inr (Some d') \<Longrightarrow> d' ''version'' = Some (JStr ''0.4.0'')"
  by (auto simp: v0_3_0_to_v0_4_0_def bind_result_def get_field_def
      split: option.splits sum.splits)

lemma migrate_at_target:
  "doc ''version'' = Some (JStr t) \<Longrightarrow> migrate (Suc n) cs t doc = Some (Inr (Some doc))"
  by simp

lemma migrate_0_2_0:
  "doc ''version'' = Some (JStr ''0.2.0'') \<Longrightarrow>
     migrate (Suc n) guideline_converters guideline_VERSION doc = Some (Inl prepare_migration_exception)"
  by (simp add: guideline_converters_def guideline_VERSION_def v0_2_0_to_v_0_3_0_def)

lemma migrate_0_1_0:
  assumes "doc ''version'' = Some (JStr ''0.1.0'')"
  shows "\<exists>e. migrate (Suc (Suc n)) guideline_converters guideline_VERSION doc = Some (Inl e)"
proof (cases "guideline_document_converter_0_1_0_to_0_2_0 doc")
  case (Inl e)
  with assms show ?thesis
    by (simp add: guideline_converters_def guideline_VERSION_def)
next
  case (Inr r)
  with converter_0_1_0_not_dropped[of doc] obtain d' where d': "r = Some d'" by (cases r) auto
  from converter_0_1_0_version[of doc d'] Inr d'
  have "migrate (Suc n) guideline_converters guideline_VERSION d' = Some (Inl prepare_migration_exception)"
    by (intro migrate_0_2_0) simp
  with assms Inr d' show ?thesis
    by (simp add: guideline_converters_def guideline_VERSION_def)
qed

lemma migrate_0_3_0:
  assumes "doc ''version'' = Some (JStr ''0.3.0'')"
  shows "migrate (Suc (Suc n)) guideline_converters guideline_VERSION doc = Some (v0_3_0_to_v0_4_0 doc)"
proof (cases "v0_3_0_to_v0_4_0 doc")
  case (Inl e)
  with assms show ?thesis by (simp add: guideline_converters_def guideline_VERSION_def)
next
  case (Inr r)
  show ?thesis
  proof (cases r)
    case None
    with Inr assms show ?thesis by (simp add: guideline_converters_def guideline_VERSION_def)
  next
    case (Some d')
    from converter_0_3_0_version[of doc d'] Inr Some
    have "d' ''version'' = Some (JStr guideline_VERSION)" by (simp add: guideline_VERSION_def)
    then have "migrate (Suc n) guideline_converters guideline_VERSION d' = Some (Inr (Some d'))"
      by (rule migrate_at_target)
    with assms Inr Some show ?thesis by (simp add: guideline_converters_def guideline_VERSION_def)
  qed
qed

lemma guideline_loader_fuel:
  "\<exists>r. migrate (Suc (Suc n)) guideline_converters guideline_VERSION doc = Some r"
proof (cases "doc ''version''")
  case None then show ?thesis by simp
next
  case (Some v)
  show ?thesis
  proof (cases "\<exists>x. v = JStr x")
    case False
    with Some show ?thesis by (cases v) auto
  next
    case True
    then obtain x where x: "v = JStr x" ..
    consider "x = ''0.4.0''" | "x = ''0.1.0''" | "x = ''0.2.0''" | "x = ''0.3.0''"
      | "x \<notin> {''0.4.0'', ''0.1.0'', ''0.2.0'', ''0.3.0''}" by blast
    then show ?thesis
    proof cases
      case 1 with Some x show ?thesis by (simp add: guideline_VERSION_def)
    next
      case 2 with Some x migrate_0_1_0[of doc n] show ?thesis by auto
    next
      case 3 with Some x migrate_0_2_0[of doc "Suc n"] show ?thesis by auto
    next
      case 4 with Some x migrate_0_3_0[of doc n] show ?thesis by auto
    next
      case 5 with Some x show ?thesis
        by (simp add: guideline_converters_def guideline_VERSION_def)
    qed
  qed
qed

lemma agent_loader_fuel:
  "\<exists>r. migrate (Suc n) agent_converters agent_VERSION doc = Some r"
  by (auto simp: agent_converters_def agent_v0_1_0_to_v_0_2_0_def agent_v0_2_0_to_v_0_3_0_def
      split: option.splits json.splits)

section \<open>Deserialization as a function of the loaded associations\<close>

lemma deserialize_guideline_pure:
  assumes "load_documents guideline_association_document_loader (tag_association_collection s) = Inr A"
  shows "fst (deserialize_guideline d s) = guideline_from d A"
  using assms
  by (auto simp: deserialize_guideline_def guideline_from_def bind_op_def bind_result_def lift_def
        find_op_def collection_find_def raise_def split: sum.splits)

lemma deserialize_agent_pure:
  assumes "load_documents agent_association_document_loader (tag_association_collection s) = Inr A"
  shows "fst (deserialize_agent d s) = agent_from d A"
  using assms
  by (auto simp: deserialize_agent_def agent_from_def bind_op_def bind_result_def lift_def
        find_op_def collection_find_def raise_def split: sum.splits)

lemma reads_only_tags: "reads_only m \<Longrightarrow> tag_association_collection (snd (m s)) = tag_association_collection s"
  by (simp add: reads_only_def same_data_def)

lemma deserialize_guidelines_pure:
  assumes "load_documents guideline_association_document_loader (tag_association_collection s) = Inr A"
  shows "fst (deserialize_guidelines ds s) = map_result (\<lambda>d. guideline_from d A) ds"
  using assms
proof (induction ds arbitrary: s)
  case Nil then show ?case by (simp add: returns_def)
next
  case (Cons d ds)
  obtain r s' where r: "deserialize_guideline d s = (r, s')" by (cases "deserialize_guideline d s")
  from deserialize_guideline_pure[OF Cons.prems, of d] r have r1: "r = guideline_from d A" by simp
  from reads_only_tags[OF reads_only_deserialize_guideline, of d s] r
  have "tag_association_collection s' = tag_association_collection s" by simp
  with Cons.prems have "load_documents guideline_association_document_loader (tag_association_collection s') = Inr A"
    by simp
  from Cons.IH[OF this] have ih: "fst (deserialize_guidelines ds s') = map_result (\<lambda>d. guideline_from d A) ds" .
  show ?case
    using r r1 ih
    by (cases "deserialize_guidelines ds s'")
       (auto simp: bind_op_def returns_def split: sum.splits)
qed

lemma reads_only_deserialize_guidelines [simp]: "reads_only (deserialize_guidelines ds)"
  by (induction ds) (auto intro!: reads_only_bind)

lemma map_result_filter:
  assumes "map_result f xs = Inr ys"
    and "\<And>x y. x \<in> set xs \<Longrightarrow> f x = Inr y \<Longrightarrow> P x = Q y"
  shows "map_result f (filter P xs) = Inr (filter Q ys)"
  using assms
proof (induction xs arbitrary: ys)
  case Nil then show ?case by simp
next
  case (Cons x xs)
  from Cons.prems(1) obtain y ys' where y: "f x = Inr y" and ys': "map_result f xs = Inr ys'"
    and ys: "ys = y # ys'"
    by (auto split: sum.splits)
  from Cons.IH[OF ys'] Cons.prems(2)
  have "map_result f (filter P xs) = Inr (filter Q ys')" by simp
  moreover from Cons.prems(2)[of x y] y have "P x = Q y" by simp
  ultimately show ?case using y ys by simp
qed

lemma map_result_Inr_set:
  "map_result f xs = Inr ys \<Longrightarrow> list_all2 (\<lambda>x y. f x = Inr y) xs ys"
  by (induction xs arbitrary: ys) (auto split: sum.splits)

section \<open>The unique-id generator\<close>

lemma generate_id_returns_accepted:
  assumes "generate_id g n = Some r" 
  shows "(\<forall>n. length (g n) = 10) \<longrightarrow> (\<exists>s. r = Inr s \<and> length s = 10 \<and> accepted_id s)"
proof (rule generate_id.raw_induct[OF _ assms], goal_cases)
  case (1 f g n r)
  show ?case
  proof
    assume len: "\<forall>n. length (g n) = 10"
    then have "length (g n) = 10" by blast
    then have ne: "g n \<noteq> []" by auto
    show "\<exists>s. r = Inr s \<and> length s = 10 \<and> accepted_id s"
    proof (cases "accepted_id (g n)")
      case True
      with 1(2) ne len show ?thesis by (auto simp: Let_def)
    next
      case False
      with 1(2) ne have "f g (Suc n) = Some r" by (simp add: Let_def)
      from 1(1)[OF this] len show ?thesis by blast
    qed
  qed
qed

lemma generate_id_returns:
  "g (k + n) \<noteq> [] \<Longrightarrow> accepted_id (g (k + n)) \<Longrightarrow> generate_id g k \<noteq> None"
proof (induction n arbitrary: k)
  case 0 then show ?case by (subst generate_id.simps) (simp add: Let_def)
next
  case (Suc n)
  from Suc.IH[of "Suc k"] Suc.prems have "generate_id g (Suc k) \<noteq> None" by simp
  then show ?case by (subst generate_id.simps) (simp add: Let_def)
qed

lemma accepted_id_ends:
  "s \<noteq> [] \<Longrightarrow> accepted_id s \<Longrightarrow>
     hd s \<notin> {CHR ''-'', CHR ''_''} \<and> last s \<notin> {CHR ''-'', CHR ''_''}"
proof -
  assume ne: "s \<noteq> []" and acc: "accepted_id s"
  from ne have "hd s \<in> set s" and "last s \<in> set s" by simp_all
  with acc show ?thesis unfolding accepted_id_def by auto
qed

text \<open>
  Claim C9. Every string that \<^verbatim>\<open>generate_id\<close> returns has length 10 and neither starts nor
  ends with one of the separators \<open>-\<close> and \<open>_\<close>, given that \<^verbatim>\<open>nanoid.generate(size=10)\<close>
  returns strings of length 10; and the loop does return as soon as the random source
  yields an accepted candidate.
\<close>

theorem generate_id_fixed_length:
  assumes "\<forall>n. length (nanoid_generate n) = 10"
  shows "(\<forall>r. generate_id nanoid_generate 0 = Some r \<longrightarrow>
            (\<exists>s. r = Inr s \<and> length s = 10 \<and>
                 hd s \<notin> {CHR ''-'', CHR ''_''} \<and> last s \<notin> {CHR ''-'', CHR ''_''})) \<and>
         ((\<exists>n. accepted_id (nanoid_generate n)) \<longrightarrow> generate_id nanoid_generate 0 \<noteq> None)"
proof (intro conjI allI impI)
  fix r assume "generate_id nanoid_generate 0 = Some r"
  from generate_id_returns_accepted[OF this] assms
  obtain s where s: "r = Inr s" "length s = 10" "accepted_id s" by blast
  then have "s \<noteq> []" by auto
  from accepted_id_ends[OF this s(3)] s
  show "\<exists>s. r = Inr s \<and> length s = 10 \<and>
                 hd s \<notin> {CHR ''-'', CHR ''_''} \<and> last s \<notin> {CHR ''-'', CHR ''_''}" by blast
next
  assume "\<exists>n. accepted_id (nanoid_generate n)"
  then obtain n where n: "accepted_id (nanoid_generate n)" ..
  from assms have "length (nanoid_generate n) = 10" by blast
  then have "nanoid_generate (0 + n) \<noteq> []" by auto
  with n generate_id_returns[of nanoid_generate 0 n]
  show "generate_id nanoid_generate 0 \<noteq> None" by simp
qed

theorem generate_id_fixed_length_witness:
  "(\<forall>n. length ((\<lambda>n::nat. if n = 0 then ''_bcdefghij'' else ''abc-efghij'') n) = 10) \<and>
   generate_id (\<lambda>n. if n = 0 then ''_bcdefghij'' else ''abc-efghij'') 0 = Some (Inr ''abc-efghij'') \<and>
   (\<exists>s. generate_id (\<lambda>n. if n = 0 then ''_bcdefghij'' else ''abc-efghij'') 0 = Some (Inr s) \<and>
        length s = 10 \<and>
        hd s \<notin> {CHR ''-'', CHR ''_''} \<and> last s \<notin> {CHR ''-'', CHR ''_''})"
proof -
  let ?g = "\<lambda>n::nat. if n = 0 then ''_bcdefghij'' else ''abc-efghij''"
  have len: "\<forall>n. length (?g n) = 10" by simp
  have run: "generate_id ?g 0 = Some (Inr ''abc-efghij'')"
    by (subst generate_id.simps, simp add: Let_def accepted_id_def,
        subst generate_id.simps, simp add: Let_def accepted_id_def)
  from generate_id_fixed_length[OF len] run have
    "\<exists>s. generate_id ?g 0 = Some (Inr s) \<and> length s = 10 \<and>
           hd s \<notin> {CHR ''-'', CHR ''_''} \<and> last s \<notin> {CHR ''-'', CHR ''_''}" by blast
  with len run show ?thesis by (intro conjI)
qed

section \<open>Listing guidelines under a tag filter\<close>

lemma guideline_association_loader_wf:
  assumes "wf_association ''guideline_id'' d"
  shows "guideline_association_document_loader d = Inr None \<or>
         (\<exists>d'. guideline_association_document_loader d = Inr (Some d') \<and>
               wf_association ''guideline_id'' d' \<and> d' ''guideline_id'' = d ''guideline_id'' \<and>
               d' ''tag_id'' = d ''tag_id'' \<and> d' ''id'' = d ''id'')"
  using assms
  by (auto simp: wf_association_def guideline_association_document_loader_def bind_result_def
        get_field_def)

lemma load_guideline_associations_wf:
  assumes "list_all (wf_association ''guideline_id'') ds"
  shows "\<exists>A. load_documents guideline_association_document_loader ds = Inr A \<and>
             list_all (wf_association ''guideline_id'') A"
  using assms
proof (induction ds)
  case Nil then show ?case by simp
next
  case (Cons d ds)
  then obtain A where A: "load_documents guideline_association_document_loader ds = Inr A"
    "list_all (wf_association ''guideline_id'') A" by auto
  from Cons.prems have "wf_association ''guideline_id'' d" by simp
  from guideline_association_loader_wf[OF this] A show ?case by auto
qed

lemma map_result_tag_ids:
  "map_result (\<lambda>a. str_field a ''tag_id'') xs = Inr ts \<Longrightarrow>
     list_all2 (\<lambda>a t. a ''tag_id'' = Some (JStr t)) xs ts"
  by (induction xs arbitrary: ts)
     (auto simp: str_field_def split: sum.splits option.splits json.splits)

lemma tags_empty_iff:
  "list_all2 (\<lambda>a t. a ''tag_id'' = Some (JStr t)) xs ts \<Longrightarrow> ts = [] \<longleftrightarrow> xs = []"
  by (auto dest: list_all2_lengthD)

lemma tags_member_iff:
  "list_all2 (\<lambda>a t. a ''tag_id'' = Some (JStr t)) xs ts \<Longrightarrow>
     t \<in> set ts \<longleftrightarrow> (\<exists>a\<in>set xs. a ''tag_id'' = Some (JStr t))"
  by (induction rule: list_all2_induct) auto

lemma matches_field_eq:
  "matches_filters (WFields [(k, OpEq i)]) = (\<lambda>a. a k = Some i)"
  by (simp add: fun_eq_iff)

lemma guideline_fromD:
  assumes "guideline_from d A = Inr g"
  shows "\<exists>i. d ''id'' = Some i \<and>
     list_all2 (\<lambda>a t. a ''tag_id'' = Some (JStr t))
       (filter (\<lambda>a. a ''guideline_id'' = Some i) A) (g_tags g)"
proof -
  from assms obtain i ts where i: "d ''id'' = Some i"
    and ts: "map_result (\<lambda>a. str_field a ''tag_id'')
               (filter (matches_filters (WFields [(''guideline_id'', OpEq i)])) A) = Inr ts"
    and g: "guideline_of_document d ts = Inr g"
    by (auto simp: guideline_from_def bind_result_def get_field_def split: sum.splits option.splits)
  from g have "g_tags g = ts"
    by (auto simp: guideline_of_document_def bind_result_def split: sum.splits)
  with map_result_tag_ids[OF ts] i show ?thesis by (auto simp: matches_field_eq)
qed

lemma map_result_guideline_ids:
  assumes "list_all (wf_association ''guideline_id'') A"
  shows "\<exists>js. map_result (\<lambda>a. get_field a ''guideline_id'') A = Inr js \<and>
              map Some js = map (\<lambda>a. a ''guideline_id'') A"
  using assms
  by (induction A) (auto simp: wf_association_def get_field_def)

lemma matches_and_ne:
  "matches_filters (WAnd (map (\<lambda>i. WFields [(''id'', OpNe i)]) js)) d \<longleftrightarrow>
     (\<forall>j\<in>set js. d ''id'' \<noteq> Some j)"
  by (simp add: list_all_iff)

lemma matches_or_eq:
  "matches_filters (WOr (map (\<lambda>i. WFields [(k, OpEq i)]) js)) d \<longleftrightarrow>
     (\<exists>j\<in>set js. d k = Some j)"
  by (simp add: list_ex_iff)

lemma matches_or_tag:
  "matches_filters (WOr (map (\<lambda>tag. WFields [(''tag_id'', OpEq (JStr tag))]) ts)) d \<longleftrightarrow>
     (\<exists>t\<in>set ts. d ''tag_id'' = Some (JStr t))"
  by (simp add: list_ex_iff)

lemma fst_with_lock: "fst (with_lock sc m s) = fst (m (emit (Acquire sc) s))"
  by (simp add: with_lock_def split: prod.splits)

lemma find_then_deserialize_guidelines:
  assumes "load_documents guideline_association_document_loader (tag_association_collection s) = Inr A"
  shows "fst (bind_op (find_op Entities guideline_document_loader w) deserialize_guidelines s) =
     (case load_documents guideline_document_loader (collection s) of
        Inl e \<Rightarrow> Inl e
      | Inr D \<Rightarrow> map_result (\<lambda>d. guideline_from d A) (filter (matches_filters w) D))"
proof (cases "load_documents guideline_document_loader (collection s)")
  case (Inl e)
  then show ?thesis by (simp add: bind_op_def find_op_def collection_find_def)
next
  case (Inr D)
  let ?s' = "emit (Access Entities Find) s"
  from assms have "load_documents guideline_association_document_loader (tag_association_collection ?s') = Inr A"
    by simp
  from deserialize_guidelines_pure[OF this, of "filter (matches_filters w) D"] Inr
  show ?thesis by (simp add: bind_op_def find_op_def collection_find_def)
qed

lemma list_guidelines_None:
  assumes A: "load_documents guideline_association_document_loader (tag_association_collection s) = Inr A"
  shows "fst (list_guidelines None s) =
     (case load_documents guideline_document_loader (collection s) of
        Inl e \<Rightarrow> Inl e
      | Inr D \<Rightarrow> map_result (\<lambda>d. guideline_from d A) D)"
proof -
  let ?s1 = "emit (Acquire Reader) s"
  from A have A1: "load_documents guideline_association_document_loader (tag_association_collection ?s1) = Inr A"
    by simp
  have "matches_filters (WFields []) = (\<lambda>d. True)" by (simp add: fun_eq_iff)
  with find_then_deserialize_guidelines[OF A1, of "WFields []"]
  show ?thesis by (simp add: list_guidelines_def fst_with_lock cong: sum.case_cong)
qed

lemma list_guidelines_empty:
  assumes A: "load_documents guideline_association_document_loader (tag_association_collection s) = Inr A"
    and wf: "list_all (wf_association ''guideline_id'') A"
  shows "fst (list_guidelines (Some []) s) =
     (case load_documents guideline_document_loader (collection s) of
        Inl e \<Rightarrow> Inl e
      | Inr D \<Rightarrow> map_result (\<lambda>d. guideline_from d A)
                   (filter (\<lambda>d. \<forall>a\<in>set A. d ''id'' \<noteq> a ''guideline_id'') D))"
proof -
  let ?s1 = "emit (Acquire Reader) s"
  let ?s2 = "emit (Access TagAssociations Find) ?s1"
  from map_result_guideline_ids[OF wf] obtain js where
    js: "map_result (\<lambda>a. get_field a ''guideline_id'') A = Inr js"
    and js2: "map Some js = map (\<lambda>a. a ''guideline_id'') A" by blast
  from js2 have set_js: "Some ` set js = (\<lambda>a. a ''guideline_id'') ` set A"
    by (metis set_map)
  let ?w = "if remdups js \<noteq> [] then WAnd (map (\<lambda>i. WFields [(''id'', OpNe i)]) (remdups js))
            else WFields []"
  have m: "matches_filters ?w = (\<lambda>d. \<forall>a\<in>set A. d ''id'' \<noteq> a ''guideline_id'')"
  proof
    fix d
    have "matches_filters ?w d \<longleftrightarrow> (\<forall>j\<in>set js. d ''id'' \<noteq> Some j)"
      by (cases "remdups js = []") (simp_all add: list_all_iff)
    also have "\<dots> \<longleftrightarrow> (\<forall>x \<in> Some ` set js. d ''id'' \<noteq> x)" by blast
    also have "\<dots> \<longleftrightarrow> (\<forall>a\<in>set A. d ''id'' \<noteq> a ''guideline_id'')"
      unfolding set_js by blast
    finally show "matches_filters ?w d = (\<forall>a\<in>set A. d ''id'' \<noteq> a ''guideline_id'')" .
  qed
  from A have A2: "load_documents guideline_association_document_loader (tag_association_collection ?s2) = Inr A"
    by simp
  have all: "filter (matches_filters (WFields [])) A = A" by simp
  have "fst (list_guidelines (Some []) s) =
     fst (bind_op (find_op Entities guideline_document_loader ?w) deserialize_guidelines ?s2)"
    using A js all
    by (simp add: list_guidelines_def fst_with_lock bind_op_def find_op_def collection_find_def
          lift_def returns_def Let_def del: matches_filters.simps)
  also note find_then_deserialize_guidelines[OF A2, of ?w]
  finally show ?thesis by (simp only: m collection_emit cong: sum.case_cong)
qed


lemma list_guidelines_tags:
  assumes A: "load_documents guideline_association_document_loader (tag_association_collection s) = Inr A"
    and wf: "list_all (wf_association ''guideline_id'') A"
    and ne: "ts \<noteq> []"
  shows "fst (list_guidelines (Some ts) s) =
     (if \<forall>a\<in>set A. \<not> (\<exists>t\<in>set ts. a ''tag_id'' = Some (JStr t)) then Inr []
      else case load_documents guideline_document_loader (collection s) of
        Inl e \<Rightarrow> Inl e
      | Inr D \<Rightarrow> map_result (\<lambda>d. guideline_from d A)
                   (filter (\<lambda>d. \<exists>a\<in>set A. (\<exists>t\<in>set ts. a ''tag_id'' = Some (JStr t)) \<and>
                                  d ''id'' = a ''guideline_id'') D))"
proof -
  let ?s1 = "emit (Acquire Reader) s"
  let ?s2 = "emit (Access TagAssociations Find) ?s1"
  let ?tw = "WOr (map (\<lambda>tag. WFields [(''tag_id'', OpEq (JStr tag))]) ts)"
  let ?T = "filter (matches_filters ?tw) A"
  have T: "?T = filter (\<lambda>a. \<exists>t\<in>set ts. a ''tag_id'' = Some (JStr t)) A"
    by (rule filter_cong) (simp_all add: list_ex_iff)
  from wf have "list_all (wf_association ''guideline_id'') ?T" by (simp add: list_all_iff)
  from map_result_guideline_ids[OF this] obtain js where
    js: "map_result (\<lambda>a. get_field a ''guideline_id'') ?T = Inr js"
    and js2: "map Some js = map (\<lambda>a. a ''guideline_id'') ?T" by blast
  from js2 have set_js: "Some ` set js = (\<lambda>a. a ''guideline_id'') ` set ?T"
    by (metis set_map)
  from js2 have len: "length js = length ?T" by (metis length_map)
  let ?w = "WOr (map (\<lambda>i. WFields [(''id'', OpEq i)]) (remdups js))"
  have m: "matches_filters ?w = (\<lambda>d. \<exists>a\<in>set A. (\<exists>t\<in>set ts. a ''tag_id'' = Some (JStr t)) \<and>
                                  d ''id'' = a ''guideline_id'')"
  proof
    fix d
    have "matches_filters ?w d \<longleftrightarrow> (\<exists>j\<in>set js. d ''id'' = Some j)"
      by (simp add: list_ex_iff)
    also have "\<dots> \<longleftrightarrow> (\<exists>x \<in> Some ` set js. d ''id'' = x)" by blast
    also have "\<dots> \<longleftrightarrow> (\<exists>a\<in>set ?T. d ''id'' = a ''guideline_id'')"
      unfolding set_js by blast
    also have "\<dots> \<longleftrightarrow> (\<exists>a\<in>set A. (\<exists>t\<in>set ts. a ''tag_id'' = Some (JStr t)) \<and>
                                  d ''id'' = a ''guideline_id'')"
      unfolding T by auto
    finally show "matches_filters ?w d = (\<exists>a\<in>set A. (\<exists>t\<in>set ts. a ''tag_id'' = Some (JStr t)) \<and>
                                  d ''id'' = a ''guideline_id'')" .
  qed
  have empty_iff: "remdups js = [] \<longleftrightarrow> (\<forall>a\<in>set A. \<not> (\<exists>t\<in>set ts. a ''tag_id'' = Some (JStr t)))"
  proof -
    have "remdups js = [] \<longleftrightarrow> ?T = []" using len by (cases js) auto
    also have "\<dots> \<longleftrightarrow> (\<forall>a\<in>set A. \<not> (\<exists>t\<in>set ts. a ''tag_id'' = Some (JStr t)))"
      unfolding T by (simp add: filter_empty_conv)
    finally show ?thesis .
  qed
  from A have A2: "load_documents guideline_association_document_loader (tag_association_collection ?s2) = Inr A"
    by simp
  show ?thesis
  proof (cases "remdups js = []")
    case True
    have r: "fst (list_guidelines (Some ts) s) = Inr []"
      using A js ne True
      by (simp add: list_guidelines_def fst_with_lock bind_op_def find_op_def collection_find_def
          lift_def returns_def Let_def del: matches_filters.simps)
    from True empty_iff
    have c: "\<forall>a\<in>set A. \<not> (\<exists>t\<in>set ts. a ''tag_id'' = Some (JStr t))" by blast
    show ?thesis unfolding if_P[OF c] by (rule r)
  next
    case False
    have "fst (list_guidelines (Some ts) s) =
      fst (bind_op (find_op Entities guideline_document_loader ?w) deserialize_guidelines ?s2)"
      using A js ne False
      by (simp add: list_guidelines_def fst_with_lock bind_op_def find_op_def collection_find_def
          lift_def returns_def Let_def del: matches_filters.simps)
    also note find_then_deserialize_guidelines[OF A2, of ?w]
    finally have r: "fst (list_guidelines (Some ts) s) =
      (case load_documents guideline_document_loader (collection s) of
        Inl e \<Rightarrow> Inl e
      | Inr D \<Rightarrow> map_result (\<lambda>d. guideline_from d A)
                   (filter (\<lambda>d. \<exists>a\<in>set A. (\<exists>t\<in>set ts. a ''tag_id'' = Some (JStr t)) \<and>
                                  d ''id'' = a ''guideline_id'') D))"
      by (simp only: m collection_emit cong: sum.case_cong)
    from False empty_iff
    have c: "\<not> (\<forall>a\<in>set A. \<not> (\<exists>t\<in>set ts. a ''tag_id'' = Some (JStr t)))" by blast
    show ?thesis unfolding if_not_P[OF c] by (rule r)
  qed
qed

lemma no_tags_iff:
  assumes "guideline_from d A = Inr g"
  shows "(\<forall>a\<in>set A. d ''id'' \<noteq> a ''guideline_id'') \<longleftrightarrow> g_tags g = []"
proof -
  from guideline_fromD[OF assms] obtain i where i: "d ''id'' = Some i"
    and l: "list_all2 (\<lambda>a t. a ''tag_id'' = Some (JStr t))
       (filter (\<lambda>a. a ''guideline_id'' = Some i) A) (g_tags g)" by blast
  from tags_empty_iff[OF l] have "g_tags g = [] \<longleftrightarrow> (\<forall>a\<in>set A. a ''guideline_id'' \<noteq> Some i)"
    by (simp add: filter_empty_conv)
  with i show ?thesis by auto
qed

lemma some_tag_iff:
  assumes "guideline_from d A = Inr g"
  shows "(\<exists>a\<in>set A. (\<exists>t\<in>set ts. a ''tag_id'' = Some (JStr t)) \<and> d ''id'' = a ''guideline_id'')
      \<longleftrightarrow> (\<exists>t\<in>set ts. t \<in> set (g_tags g))"
proof -
  from guideline_fromD[OF assms] obtain i where i: "d ''id'' = Some i"
    and l: "list_all2 (\<lambda>a t. a ''tag_id'' = Some (JStr t))
       (filter (\<lambda>a. a ''guideline_id'' = Some i) A) (g_tags g)" by blast
  have key: "t \<in> set (g_tags g) \<longleftrightarrow> (\<exists>a\<in>set A. a ''guideline_id'' = Some i \<and> a ''tag_id'' = Some (JStr t))" for t
    using tags_member_iff[OF l, of t] by auto
  show ?thesis unfolding key i by (safe; metis)
qed

section \<open>Creating an agent and reading it back\<close>

lemma load_documents_append:
  "load_documents ld (xs @ ys) =
     (case load_documents ld xs of
        Inl e \<Rightarrow> Inl e
      | Inr a \<Rightarrow> (case load_documents ld ys of Inl e \<Rightarrow> Inl e | Inr b \<Rightarrow> Inr (a @ b)))"
  by (induction xs) (auto split: sum.splits option.splits)

lemma agent_association_loader_cases:
  "agent_association_document_loader d = Inr (Some d') \<Longrightarrow> d' = d"
  by (auto simp: agent_association_document_loader_def split: option.splits if_splits)

lemma load_agent_associations_subset:
  "load_documents agent_association_document_loader ds = Inr ds' \<Longrightarrow> set ds' \<subseteq> set ds"
proof (induction ds arbitrary: ds')
  case Nil then show ?case by simp
next
  case (Cons d ds)
  then show ?case
    by (auto split: sum.splits option.splits dest: agent_association_loader_cases)
qed

lemma load_agent_associations_wf:
  assumes "list_all (wf_association ''agent_id'') ds"
  shows "\<exists>A. load_documents agent_association_document_loader ds = Inr A"
  using assms
  by (induction ds) (auto simp: wf_association_def agent_association_document_loader_def)

lemma new_agent_tags_simps [simp]:
  "new_agent_tags gen k c a [] = []"
  "new_agent_tags gen k c a (t # ts) =
     agent_tag_association_document (gen k) c a t # new_agent_tags gen (Suc k) c a ts"
  by (simp_all add: new_agent_tags_def upt_rec[of k "Suc (k + length ts)"] del: upt_Suc)

lemma insert_agent_tags_result:
  assumes "insert_agent_tags gen k c a tags s = (Inr u, s')"
  shows "tag_association_collection s' = tag_association_collection s @ new_agent_tags gen k c a tags \<and>
         collection s' = collection s"
  using assms
proof (induction tags arbitrary: k s)
  case Nil then show ?case by (simp add: returns_def)
next
  case (Cons t ts)
  let ?d = "agent_tag_association_document (gen k) c a t"
  from Cons.prems obtain s1 where
    s1: "insert_one_op TagAssociations ?d s = (Inr (), s1)"
    and rest: "insert_agent_tags gen (Suc k) c a ts s1 = (Inr u, s')"
    by (auto simp: bind_op_def split: prod.splits sum.splits)
  from s1 have "tag_association_collection s1 = tag_association_collection s @ [?d]"
    and "collection s1 = collection s"
    by (auto simp: insert_one_op_def collection_insert_one_def split: if_splits)
  with Cons.IH[OF rest] show ?case by simp
qed

lemma agent_of_serialize:
  "agent_of_document (serialize_agent agent) tags = Inr (agent\<lparr>a_tags := tags\<rparr>)"
  by (cases "a_composition_mode agent"; cases "a_description agent"; cases "a_creation_utc agent")
     (simp_all add: agent_of_document_def serialize_agent_def bind_result_def str_field_def
        description_field_def int_field_def composition_mode_field_def composition_mode_of_def
        json_of_description_def fromisoformat_def)

lemma load_new_agent_tags:
  "load_documents agent_association_document_loader (new_agent_tags gen k c a tags) =
     Inr (new_agent_tags gen k c a tags)"
  by (induction tags arbitrary: k)
     (simp_all add: agent_association_document_loader_def agent_tag_association_document_def
        agent_VERSION_def)

lemma new_agent_tags_owner:
  "filter (\<lambda>d. d ''agent_id'' = Some (JStr a)) (new_agent_tags gen k c a tags) =
     new_agent_tags gen k c a tags"
  by (induction tags arbitrary: k) (simp_all add: agent_tag_association_document_def)

lemma new_agent_tags_tag_ids:
  "map_result (\<lambda>d. str_field d ''tag_id'') (new_agent_tags gen k c a tags) = Inr tags"
  by (induction tags arbitrary: k) (simp_all add: agent_tag_association_document_def str_field_def)

lemma read_agent_result:
  assumes D: "load_documents agent_document_loader (collection s) = Inr D"
    and A: "load_documents agent_association_document_loader (tag_association_collection s) = Inr A"
  shows "fst (read_agent i s) =
     (case filter (\<lambda>d. d ''id'' = Some (JStr i)) D of
        [] \<Rightarrow> Inl (ItemNotFoundError i)
      | d # _ \<Rightarrow> if d = Map.empty then Inl (ItemNotFoundError i) else agent_from d A)"
proof -
  let ?s2 = "emit (Release Reader) (emit (Access Entities FindOne) (emit (Acquire Reader) s))"
  from A have A2: "load_documents agent_association_document_loader (tag_association_collection ?s2) = Inr A"
    by simp
  show ?thesis
    using D deserialize_agent_pure[OF A2]
    by (auto simp: read_agent_def bind_op_def with_lock_def find_one_op_def collection_find_one_def
          collection_find_def raise_def matches_field_eq split: list.splits)
qed

lemma create_agent_result:
  assumes "fst (create_agent now gen name description creation_utc max_engine_iterations
             composition_mode tags s) = Inr agent"
  shows "agent = \<lparr>a_id = gen 0, a_name = name, a_description = description,
                   a_creation_utc = (case creation_utc of None \<Rightarrow> now | Some t \<Rightarrow> t),
                   a_max_engine_iterations =
                     (case max_engine_iterations of None \<Rightarrow> 1 | Some m \<Rightarrow> if m = 0 then 1 else m),
                   a_tags = (case tags of None \<Rightarrow> [] | Some ts \<Rightarrow> ts),
                   a_composition_mode = (case composition_mode of None \<Rightarrow> FLUID | Some m \<Rightarrow> m)\<rparr>"
    and "collection (snd (create_agent now gen name description creation_utc max_engine_iterations
             composition_mode tags s)) = collection s @ [serialize_agent agent]"
    and "tag_association_collection (snd (create_agent now gen name description creation_utc
             max_engine_iterations composition_mode tags s)) =
           tag_association_collection s @
             new_agent_tags gen 1 (a_creation_utc agent) (a_id agent) (a_tags agent)"
    and "\<not> list_ex (\<lambda>d. d ''id'' = Some (JStr (a_id agent))) (collection s)"
proof -
  let ?agent = "\<lparr>a_id = gen 0, a_name = name, a_description = description,
                   a_creation_utc = (case creation_utc of None \<Rightarrow> now | Some t \<Rightarrow> t),
                   a_max_engine_iterations =
                     (case max_engine_iterations of None \<Rightarrow> 1 | Some m \<Rightarrow> if m = 0 then 1 else m),
                   a_tags = (case tags of None \<Rightarrow> [] | Some ts \<Rightarrow> ts),
                   a_composition_mode = (case composition_mode of None \<Rightarrow> FLUID | Some m \<Rightarrow> m)\<rparr>"
  let ?s0 = "emit (Acquire Writer) s"
  let ?body = "bind_op (insert_one_op Entities (serialize_agent ?agent)) (\<lambda>_.
           bind_op (insert_agent_tags gen 1 (a_creation_utc ?agent) (a_id ?agent) (a_tags ?agent)) (\<lambda>_.
           returns ?agent))"
  have c: "create_agent now gen name description creation_utc max_engine_iterations
             composition_mode tags = with_lock Writer ?body"
    by (simp add: create_agent_def Let_def)
  obtain r s2 where b: "?body ?s0 = (r, s2)" by (cases "?body ?s0")
  with assms c have r: "r = Inr agent" by (simp add: with_lock_def)
  from b r obtain s1 u where
    i1: "insert_one_op Entities (serialize_agent ?agent) ?s0 = (Inr (), s1)"
    and i2: "insert_agent_tags gen 1 (a_creation_utc ?agent) (a_id ?agent) (a_tags ?agent) s1 = (Inr u, s2)"
    and ag: "agent = ?agent"
    by (auto simp: bind_op_def returns_def split: prod.splits sum.splits)
  from i1 have c1: "collection s1 = collection s @ [serialize_agent ?agent]"
    and t1: "tag_association_collection s1 = tag_association_collection s"
    and nd: "\<not> list_ex (\<lambda>d. d ''id'' = serialize_agent ?agent ''id'') (collection s)"
    by (auto simp: insert_one_op_def collection_insert_one_def split: if_splits)
  from insert_agent_tags_result[OF i2] c1 t1
  have c2: "collection s2 = collection s @ [serialize_agent ?agent]"
    and t2: "tag_association_collection s2 = tag_association_collection s @
       new_agent_tags gen 1 (a_creation_utc ?agent) (a_id ?agent) (a_tags ?agent)"
    by simp_all
  have sid: "serialize_agent ?agent ''id'' = Some (JStr (gen 0))"
    by (simp add: serialize_agent_def)
  show "agent = ?agent" by (rule ag)
  from b c c2 ag show "collection (snd (create_agent now gen name description creation_utc max_engine_iterations
             composition_mode tags s)) = collection s @ [serialize_agent agent]"
    by (simp add: with_lock_def)
  from b c t2 ag show "tag_association_collection (snd (create_agent now gen name description creation_utc
             max_engine_iterations composition_mode tags s)) =
           tag_association_collection s @
             new_agent_tags gen 1 (a_creation_utc agent) (a_id agent) (a_tags agent)"
    by (simp add: with_lock_def)
  from nd sid ag show "\<not> list_ex (\<lambda>d. d ''id'' = Some (JStr (a_id agent))) (collection s)"
    by simp
qed

section \<open>Upserting a tag\<close>

lemma load_agent_associations_current:
  "current_version agent_VERSION ds \<Longrightarrow>
     load_documents agent_association_document_loader ds = Inr ds"
  by (induction ds)
     (auto simp: current_version_def agent_association_document_loader_def agent_VERSION_def)

lemma read_agent_loads:
  assumes "fst (read_agent i s) = Inr agent"
  shows "\<exists>D. load_documents agent_document_loader (collection s) = Inr D"
proof (cases "load_documents agent_document_loader (collection s)")
  case (Inl e)
  then have "fst (read_agent i s) = Inl e"
    by (simp add: read_agent_def bind_op_def with_lock_def find_one_op_def
          collection_find_one_def collection_find_def)
  with assms show ?thesis by simp
next
  case (Inr D) then show ?thesis by blast
qed

lemma read_agent_data_only:
  assumes "same_data s s'"
  shows "fst (read_agent i s') = fst (read_agent i s)"
proof -
  from assms have c: "collection s' = collection s"
    and t: "tag_association_collection s' = tag_association_collection s"
    by (simp_all add: same_data_def)
  show ?thesis
    by (simp add: read_agent_def deserialize_agent_def bind_op_def with_lock_def find_one_op_def
          find_op_def raise_def lift_def c t
        split: prod.splits sum.splits option.splits)
qed

lemma read_agentD:
  assumes rd: "fst (read_agent i s) = Inr agent"
    and A: "load_documents agent_association_document_loader (tag_association_collection s) = Inr A"
  shows "\<exists>d. collection_find_one agent_document_loader (WFields [(''id'', OpEq (JStr i))])
              (collection s) = Inr (Some d) \<and> d \<noteq> Map.empty \<and> d ''id'' = Some (JStr i) \<and>
            agent_from d A = Inr agent"
proof -
  from read_agent_loads[OF rd] obtain D where
    D: "load_documents agent_document_loader (collection s) = Inr D" ..
  from read_agent_result[OF D A, of i] rd
  obtain d ds where f: "filter (\<lambda>d. d ''id'' = Some (JStr i)) D = d # ds"
    and ne: "d \<noteq> Map.empty" and af: "agent_from d A = Inr agent"
    by (auto split: list.splits if_splits)
  from f have "d \<in> set (filter (\<lambda>d. d ''id'' = Some (JStr i)) D)" by simp
  then have "d ''id'' = Some (JStr i)" by simp
  with D f ne af show ?thesis
    by (simp add: collection_find_one_def collection_find_def matches_field_eq)
qed

lemma agent_upsert_tag_present:
  assumes rd: "fst (read_agent i s) = Inr agent"
    and present: "tag \<in> set (a_tags agent)"
  shows "fst (agent_upsert_tag now gen i tag utc s) = Inr False \<and>
         same_data s (snd (agent_upsert_tag now gen i tag utc s))"
proof -
  let ?s0 = "emit (Acquire Writer) s"
  obtain r1 s1 where r: "read_agent i ?s0 = (r1, s1)" by (cases "read_agent i ?s0")
  from read_agent_data_only[of s ?s0 i] rd r have r1: "r1 = Inr agent" by simp
  from reads_only_read_agent[of i] r have "same_data ?s0 s1"
    by (auto simp: reads_only_def dest: spec[of _ ?s0])
  then have sd: "same_data s s1" by (simp add: same_data_def)
  from r r1 present sd show ?thesis
    by (simp add: agent_upsert_tag_def bind_op_def with_lock_def returns_def same_data_def)
qed

lemma agent_upsert_tag_absent:
  assumes cur: "current_version agent_VERSION (tag_association_collection s)"
    and rd: "fst (read_agent i s) = Inr agent"
    and absent: "tag \<notin> set (a_tags agent)"
    and fresh: "\<not> list_ex (\<lambda>d. d ''id'' = Some (JStr (gen 0))) (tag_association_collection s)"
  shows "fst (agent_upsert_tag now gen i tag utc s) = Inr True \<and>
         collection (snd (agent_upsert_tag now gen i tag utc s)) = collection s \<and>
         tag_association_collection (snd (agent_upsert_tag now gen i tag utc s)) =
           tag_association_collection s @
             [agent_tag_association_document (gen 0) (case utc of None \<Rightarrow> now | Some t \<Rightarrow> t) i tag]"
proof -
  let ?s0 = "emit (Acquire Writer) s"
  let ?doc = "agent_tag_association_document (gen 0) (case utc of None \<Rightarrow> now | Some t \<Rightarrow> t) i tag"
  obtain r1 s1 where r: "read_agent i ?s0 = (r1, s1)" by (cases "read_agent i ?s0")
  from read_agent_data_only[of s ?s0 i] rd r have r1: "r1 = Inr agent" by simp
  from reads_only_read_agent[of i] r have "same_data ?s0 s1"
    by (auto simp: reads_only_def dest: spec[of _ ?s0])
  then have c1: "collection s1 = collection s"
    and t1: "tag_association_collection s1 = tag_association_collection s"
    by (simp_all add: same_data_def)
  have did: "?doc ''id'' = Some (JStr (gen 0))" by (simp add: agent_tag_association_document_def)
  from fresh t1 did
  have ins: "insert_one_op TagAssociations ?doc s1 =
      (Inr (), emit (Access TagAssociations InsertOne)
                 (set_collection TagAssociations (tag_association_collection s @ [?doc]) s1))"
    by (simp add: insert_one_op_def collection_insert_one_def)
  from load_agent_associations_current[OF cur]
  have A: "load_documents agent_association_document_loader (tag_association_collection s) =
      Inr (tag_association_collection s)" .
  from read_agentD[OF rd A] obtain d where
    f: "collection_find_one agent_document_loader (WFields [(''id'', OpEq (JStr i))])
              (collection s) = Inr (Some d)" and ne: "d \<noteq> Map.empty" by blast
  from r r1 absent ins f ne c1 show ?thesis
    by (simp add: agent_upsert_tag_def bind_op_def with_lock_def returns_def raise_def Let_def
          find_one_op_def truthy_def)
qed

lemma map_result_append:
  "map_result f (xs @ ys) =
     (case map_result f xs of
        Inl e \<Rightarrow> Inl e
      | Inr a \<Rightarrow> (case map_result f ys of Inl e \<Rightarrow> Inl e | Inr b \<Rightarrow> Inr (a @ b)))"
  by (induction xs) (auto split: sum.splits)

lemma agent_of_document_tags:
  "agent_of_document d ts = Inr a \<Longrightarrow> agent_of_document d ts' = Inr (a\<lparr>a_tags := ts'\<rparr>)"
  by (auto simp: agent_of_document_def bind_result_def split: sum.splits)

lemma agent_fromD:
  assumes "agent_from d A = Inr agent"
  shows "\<exists>i. d ''id'' = Some i \<and>
     list_all2 (\<lambda>a t. a ''tag_id'' = Some (JStr t))
       (filter (\<lambda>a. a ''agent_id'' = Some i) A) (a_tags agent)"
proof -
  from assms obtain i ts where i: "d ''id'' = Some i"
    and ts: "map_result (\<lambda>a. str_field a ''tag_id'')
               (filter (matches_filters (WFields [(''agent_id'', OpEq i)])) A) = Inr ts"
    and g: "agent_of_document d ts = Inr agent"
    by (auto simp: agent_from_def bind_result_def get_field_def split: sum.splits option.splits)
  from g have "a_tags agent = ts"
    by (auto simp: agent_of_document_def bind_result_def split: sum.splits)
  with map_result_tag_ids[OF ts] i show ?thesis by (auto simp: matches_field_eq)
qed

lemma agent_from_new_tag:
  assumes af: "agent_from d A = Inr agent" and i: "d ''id'' = Some (JStr i)"
  shows "agent_from d (A @ [agent_tag_association_document n c i tag]) =
           Inr (agent\<lparr>a_tags := a_tags agent @ [tag]\<rparr>)"
proof -
  let ?doc = "agent_tag_association_document n c i tag"
  from af i obtain ts where
    ts: "map_result (\<lambda>a. str_field a ''tag_id'')
               (filter (\<lambda>a. a ''agent_id'' = Some (JStr i)) A) = Inr ts"
    and g: "agent_of_document d ts = Inr agent"
    by (auto simp: agent_from_def bind_result_def get_field_def matches_field_eq
          split: sum.splits option.splits)
  from g have tg: "a_tags agent = ts"
    by (auto simp: agent_of_document_def bind_result_def split: sum.splits)
  have d1: "?doc ''agent_id'' = Some (JStr i)" and d2: "str_field ?doc ''tag_id'' = Inr tag"
    by (simp_all add: agent_tag_association_document_def str_field_def)
  have "map_result (\<lambda>a. str_field a ''tag_id'')
          (filter (\<lambda>a. a ''agent_id'' = Some (JStr i)) (A @ [?doc])) = Inr (ts @ [tag])"
    using ts d1 d2 by (simp add: map_result_append)
  with i agent_of_document_tags[OF g, of "ts @ [tag]"] tg show ?thesis
    by (simp add: agent_from_def bind_result_def get_field_def matches_field_eq)
qed

lemma agent_read_after_insert:
  assumes cur: "current_version agent_VERSION (tag_association_collection s)"
    and rd: "fst (read_agent i s) = Inr agent"
    and c: "collection s' = collection s"
    and t: "tag_association_collection s' =
              tag_association_collection s @ [agent_tag_association_document n utc i tag]"
  shows "fst (read_agent i s') = Inr (agent\<lparr>a_tags := a_tags agent @ [tag]\<rparr>)"
proof -
  let ?doc = "agent_tag_association_document n utc i tag"
  from load_agent_associations_current[OF cur]
  have A: "load_documents agent_association_document_loader (tag_association_collection s) =
      Inr (tag_association_collection s)" .
  have "current_version agent_VERSION (tag_association_collection s')"
    using cur t by (simp add: current_version_def agent_tag_association_document_def)
  from load_agent_associations_current[OF this] t
  have A': "load_documents agent_association_document_loader (tag_association_collection s') =
      Inr (tag_association_collection s @ [?doc])" by simp
  from read_agent_loads[OF rd] obtain D where
    D: "load_documents agent_document_loader (collection s) = Inr D" ..
  with c have D': "load_documents agent_document_loader (collection s') = Inr D" by simp
  from read_agent_result[OF D A, of i] rd
  obtain d ds where f: "filter (\<lambda>d. d ''id'' = Some (JStr i)) D = d # ds"
    and ne: "d \<noteq> Map.empty" and af: "agent_from d (tag_association_collection s) = Inr agent"
    by (auto split: list.splits if_splits)
  from f have "d \<in> set (filter (\<lambda>d. d ''id'' = Some (JStr i)) D)" by simp
  then have di: "d ''id'' = Some (JStr i)" by simp
  from read_agent_result[OF D' A', of i] f ne agent_from_new_tag[OF af di, of n utc tag]
  show ?thesis by simp
qed

lemma agent_pair_records:
  assumes cur: "current_version agent_VERSION (tag_association_collection s)"
    and rd: "fst (read_agent i s) = Inr agent"
  shows "tag \<in> set (a_tags agent) \<longleftrightarrow>
           pair_records ''agent_id'' i tag (tag_association_collection s) \<noteq> []"
proof -
  from load_agent_associations_current[OF cur]
  have A: "load_documents agent_association_document_loader (tag_association_collection s) =
      Inr (tag_association_collection s)" .
  from read_agentD[OF rd A] obtain d where di: "d ''id'' = Some (JStr i)"
    and af: "agent_from d (tag_association_collection s) = Inr agent" by blast
  from agent_fromD[OF af] di
  have l: "list_all2 (\<lambda>a t. a ''tag_id'' = Some (JStr t))
       (filter (\<lambda>a. a ''agent_id'' = Some (JStr i)) (tag_association_collection s)) (a_tags agent)"
    by auto
  from tags_member_iff[OF l, of tag] show ?thesis
    by (auto simp: pair_records_def filter_empty_conv)
qed

lemma read_guideline_result:
  assumes D: "load_documents guideline_document_loader (collection s) = Inr D"
    and A: "load_documents guideline_association_document_loader (tag_association_collection s) = Inr A"
  shows "fst (read_guideline i s) =
     (case filter (\<lambda>d. d ''id'' = Some (JStr i)) D of
        [] \<Rightarrow> Inl (ItemNotFoundError i)
      | d # _ \<Rightarrow> if d = Map.empty then Inl (ItemNotFoundError i) else guideline_from d A)"
proof -
  let ?s2 = "emit (Release Reader) (emit (Access Entities FindOne) (emit (Acquire Reader) s))"
  from A have A2: "load_documents guideline_association_document_loader (tag_association_collection ?s2) = Inr A"
    by simp
  show ?thesis
    using D deserialize_guideline_pure[OF A2]
    by (auto simp: read_guideline_def bind_op_def with_lock_def find_one_op_def collection_find_one_def
          collection_find_def raise_def matches_field_eq split: list.splits)
qed

lemma load_guideline_associations_current:
  "current_version guideline_VERSION ds \<Longrightarrow>
     load_documents guideline_association_document_loader ds = Inr ds"
  by (induction ds)
     (auto simp: current_version_def guideline_association_document_loader_def guideline_VERSION_def)

lemma read_guideline_loads:
  assumes "fst (read_guideline i s) = Inr guideline"
  shows "\<exists>D. load_documents guideline_document_loader (collection s) = Inr D"
proof (cases "load_documents guideline_document_loader (collection s)")
  case (Inl e)
  then have "fst (read_guideline i s) = Inl e"
    by (simp add: read_guideline_def bind_op_def with_lock_def find_one_op_def
          collection_find_one_def collection_find_def)
  with assms show ?thesis by simp
next
  case (Inr D) then show ?thesis by blast
qed

lemma read_guideline_data_only:
  assumes "same_data s s'"
  shows "fst (read_guideline i s') = fst (read_guideline i s)"
proof -
  from assms have c: "collection s' = collection s"
    and t: "tag_association_collection s' = tag_association_collection s"
    by (simp_all add: same_data_def)
  show ?thesis
    by (simp add: read_guideline_def deserialize_guideline_def bind_op_def with_lock_def find_one_op_def
          find_op_def raise_def lift_def c t
        split: prod.splits sum.splits option.splits)
qed

lemma read_guidelineD:
  assumes rd: "fst (read_guideline i s) = Inr guideline"
    and A: "load_documents guideline_association_document_loader (tag_association_collection s) = Inr A"
  shows "\<exists>d. collection_find_one guideline_document_loader (WFields [(''id'', OpEq (JStr i))])
              (collection s) = Inr (Some d) \<and> d \<noteq> Map.empty \<and> d ''id'' = Some (JStr i) \<and>
            guideline_from d A = Inr guideline"
proof -
  from read_guideline_loads[OF rd] obtain D where
    D: "load_documents guideline_document_loader (collection s) = Inr D" ..
  from read_guideline_result[OF D A, of i] rd
  obtain d ds where f: "filter (\<lambda>d. d ''id'' = Some (JStr i)) D = d # ds"
    and ne: "d \<noteq> Map.empty" and af: "guideline_from d A = Inr guideline"
    by (auto split: list.splits if_splits)
  from f have "d \<in> set (filter (\<lambda>d. d ''id'' = Some (JStr i)) D)" by simp
  then have "d ''id'' = Some (JStr i)" by simp
  with D f ne af show ?thesis
    by (simp add: collection_find_one_def collection_find_def matches_field_eq)
qed

lemma guideline_upsert_tag_present:
  assumes rd: "fst (read_guideline i s) = Inr guideline"
    and present: "tag \<in> set (g_tags guideline)"
  shows "fst (guideline_upsert_tag now gen i tag utc s) = Inr False \<and>
         same_data s (snd (guideline_upsert_tag now gen i tag utc s))"
proof -
  let ?s0 = "emit (Acquire Writer) s"
  obtain r1 s1 where r: "read_guideline i ?s0 = (r1, s1)" by (cases "read_guideline i ?s0")
  from read_guideline_data_only[of s ?s0 i] rd r have r1: "r1 = Inr guideline" by simp
  from reads_only_read_guideline[of i] r have "same_data ?s0 s1"
    by (auto simp: reads_only_def dest: spec[of _ ?s0])
  then have sd: "same_data s s1" by (simp add: same_data_def)
  from r r1 present sd show ?thesis
    by (simp add: guideline_upsert_tag_def bind_op_def with_lock_def returns_def same_data_def)
qed

lemma guideline_upsert_tag_absent:
  assumes cur: "current_version guideline_VERSION (tag_association_collection s)"
    and rd: "fst (read_guideline i s) = Inr guideline"
    and absent: "tag \<notin> set (g_tags guideline)"
    and fresh: "\<not> list_ex (\<lambda>d. d ''id'' = Some (JStr (gen 0))) (tag_association_collection s)"
  shows "fst (guideline_upsert_tag now gen i tag utc s) = Inr True \<and>
         collection (snd (guideline_upsert_tag now gen i tag utc s)) = collection s \<and>
         tag_association_collection (snd (guideline_upsert_tag now gen i tag utc s)) =
           tag_association_collection s @
             [guideline_tag_association_document (gen 0) (case utc of None \<Rightarrow> now | Some t \<Rightarrow> t) i tag]"
proof -
  let ?s0 = "emit (Acquire Writer) s"
  let ?doc = "guideline_tag_association_document (gen 0) (case utc of None \<Rightarrow> now | Some t \<Rightarrow> t) i tag"
  obtain r1 s1 where r: "read_guideline i ?s0 = (r1, s1)" by (cases "read_guideline i ?s0")
  from read_guideline_data_only[of s ?s0 i] rd r have r1: "r1 = Inr guideline" by simp
  from reads_only_read_guideline[of i] r have "same_data ?s0 s1"
    by (auto simp: reads_only_def dest: spec[of _ ?s0])
  then have c1: "collection s1 = collection s"
    and t1: "tag_association_collection s1 = tag_association_collection s"
    by (simp_all add: same_data_def)
  have did: "?doc ''id'' = Some (JStr (gen 0))" by (simp add: guideline_tag_association_document_def)
  from fresh t1 did
  have ins: "insert_one_op TagAssociations ?doc s1 =
      (Inr (), emit (Access TagAssociations InsertOne)
                 (set_collection TagAssociations (tag_association_collection s @ [?doc]) s1))"
    by (simp add: insert_one_op_def collection_insert_one_def)
  from load_guideline_associations_current[OF cur]
  have A: "load_documents guideline_association_document_loader (tag_association_collection s) =
      Inr (tag_association_collection s)" .
  from read_guidelineD[OF rd A] obtain d where
    f: "collection_find_one guideline_document_loader (WFields [(''id'', OpEq (JStr i))])
              (collection s) = Inr (Some d)" and ne: "d \<noteq> Map.empty" by blast
  from r r1 absent ins f ne c1 show ?thesis
    by (simp add: guideline_upsert_tag_def bind_op_def with_lock_def returns_def raise_def Let_def
          find_one_op_def truthy_def)
qed

lemma guideline_of_document_tags:
  "guideline_of_document d ts = Inr a \<Longrightarrow> guideline_of_document d ts' = Inr (a\<lparr>g_tags := ts'\<rparr>)"
  by (auto simp: guideline_of_document_def bind_result_def split: sum.splits)

lemma guideline_from_new_tag:
  assumes af: "guideline_from d A = Inr guideline" and i: "d ''id'' = Some (JStr i)"
  shows "guideline_from d (A @ [guideline_tag_association_document n c i tag]) =
           Inr (guideline\<lparr>g_tags := g_tags guideline @ [tag]\<rparr>)"
proof -
  let ?doc = "guideline_tag_association_document n c i tag"
  from af i obtain ts where
    ts: "map_result (\<lambda>a. str_field a ''tag_id'')
               (filter (\<lambda>a. a ''guideline_id'' = Some (JStr i)) A) = Inr ts"
    and g: "guideline_of_document d ts = Inr guideline"
    by (auto simp: guideline_from_def bind_result_def get_field_def matches_field_eq
          split: sum.splits option.splits)
  from g have tg: "g_tags guideline = ts"
    by (auto simp: guideline_of_document_def bind_result_def split: sum.splits)
  have d1: "?doc ''guideline_id'' = Some (JStr i)" and d2: "str_field ?doc ''tag_id'' = Inr tag"
    by (simp_all add: guideline_tag_association_document_def str_field_def)
  have "map_result (\<lambda>a. str_field a ''tag_id'')
          (filter (\<lambda>a. a ''guideline_id'' = Some (JStr i)) (A @ [?doc])) = Inr (ts @ [tag])"
    using ts d1 d2 by (simp add: map_result_append)
  with i guideline_of_document_tags[OF g, of "ts @ [tag]"] tg show ?thesis
    by (simp add: guideline_from_def bind_result_def get_field_def matches_field_eq)
qed

lemma guideline_read_after_insert:
  assumes cur: "current_version guideline_VERSION (tag_association_collection s)"
    and rd: "fst (read_guideline i s) = Inr guideline"
    and c: "collection s' = collection s"
    and t: "tag_association_collection s' =
              tag_association_collection s @ [guideline_tag_association_document n utc i tag]"
  shows "fst (read_guideline i s') = Inr (guideline\<lparr>g_tags := g_tags guideline @ [tag]\<rparr>)"
proof -
  let ?doc = "guideline_tag_association_document n utc i tag"
  from load_guideline_associations_current[OF cur]
  have A: "load_documents guideline_association_document_loader (tag_association_collection s) =
      Inr (tag_association_collection s)" .
  have "current_version guideline_VERSION (tag_association_collection s')"
    using cur t by (simp add: current_version_def guideline_tag_association_document_def)
  from load_guideline_associations_current[OF this] t
  have A': "load_documents guideline_association_document_loader (tag_association_collection s') =
      Inr (tag_association_collection s @ [?doc])" by simp
  from read_guideline_loads[OF rd] obtain D where
    D: "load_documents guideline_document_loader (collection s) = Inr D" ..
  with c have D': "load_documents guideline_document_loader (collection s') = Inr D" by simp
  from read_guideline_result[OF D A, of i] rd
  obtain d ds where f: "filter (\<lambda>d. d ''id'' = Some (JStr i)) D = d # ds"
    and ne: "d \<noteq> Map.empty" and af: "guideline_from d (tag_association_collection s) = Inr guideline"
    by (auto split: list.splits if_splits)
  from f have "d \<in> set (filter (\<lambda>d. d ''id'' = Some (JStr i)) D)" by simp
  then have di: "d ''id'' = Some (JStr i)" by simp
  from read_guideline_result[OF D' A', of i] f ne guideline_from_new_tag[OF af di, of n utc tag]
  show ?thesis by simp
qed

lemma guideline_pair_records:
  assumes cur: "current_version guideline_VERSION (tag_association_collection s)"
    and rd: "fst (read_guideline i s) = Inr guideline"
  shows "tag \<in> set (g_tags guideline) \<longleftrightarrow>
           pair_records ''guideline_id'' i tag (tag_association_collection s) \<noteq> []"
proof -
  from load_guideline_associations_current[OF cur]
  have A: "load_documents guideline_association_document_loader (tag_association_collection s) =
      Inr (tag_association_collection s)" .
  from read_guidelineD[OF rd A] obtain d where di: "d ''id'' = Some (JStr i)"
    and af: "guideline_from d (tag_association_collection s) = Inr guideline" by blast
  from guideline_fromD[OF af] di
  have l: "list_all2 (\<lambda>a t. a ''tag_id'' = Some (JStr t))
       (filter (\<lambda>a. a ''guideline_id'' = Some (JStr i)) (tag_association_collection s)) (g_tags guideline)"
    by auto
  from tags_member_iff[OF l, of tag] show ?thesis
    by (auto simp: pair_records_def filter_empty_conv)
qed

lemma pair_records_append:
  "pair_records k i t (xs @ ys) = pair_records k i t xs @ pair_records k i t ys"
  by (simp add: pair_records_def)

lemma agent_upsert_tag_twice:
  assumes cur: "current_version agent_VERSION (tag_association_collection s)"
    and rd: "fst (read_agent i s) = Inr agent"
    and fresh: "\<not> list_ex (\<lambda>d. d ''id'' = Some (JStr (gen 0))) (tag_association_collection s)"
  shows "(tag \<in> set (a_tags agent) \<longrightarrow>
            fst (agent_upsert_tag now gen i tag utc s) = Inr False \<and>
            same_data s (snd (agent_upsert_tag now gen i tag utc s))) \<and>
         (tag \<notin> set (a_tags agent) \<longrightarrow>
            fst (agent_upsert_tag now gen i tag utc s) = Inr True \<and>
            collection (snd (agent_upsert_tag now gen i tag utc s)) = collection s \<and>
            tag_association_collection (snd (agent_upsert_tag now gen i tag utc s)) =
              tag_association_collection s @
                [agent_tag_association_document (gen 0)
                   (case utc of None \<Rightarrow> now | Some t \<Rightarrow> t) i tag]) \<and>
         fst (agent_upsert_tag now' gen' i tag utc' (snd (agent_upsert_tag now gen i tag utc s))) =
           Inr False \<and>
         same_data (snd (agent_upsert_tag now gen i tag utc s))
           (snd (agent_upsert_tag now' gen' i tag utc' (snd (agent_upsert_tag now gen i tag utc s)))) \<and>
         (length (pair_records ''agent_id'' i tag (tag_association_collection s)) \<le> 1 \<longrightarrow>
            length (pair_records ''agent_id'' i tag
              (tag_association_collection
                (snd (agent_upsert_tag now' gen' i tag utc'
                   (snd (agent_upsert_tag now gen i tag utc s)))))) = 1)"
proof (cases "tag \<in> set (a_tags agent)")
  case True
  let ?s1 = "snd (agent_upsert_tag now gen i tag utc s)"
  let ?s2 = "snd (agent_upsert_tag now' gen' i tag utc' ?s1)"
  from agent_upsert_tag_present[OF rd True, of now gen utc]
  have r1: "fst (agent_upsert_tag now gen i tag utc s) = Inr False" and sd: "same_data s ?s1"
    by simp_all
  from read_agent_data_only[OF sd, of i] rd have rd1: "fst (read_agent i ?s1) = Inr agent" by simp
  from agent_upsert_tag_present[OF rd1 True, of now' gen' utc']
  have r2: "fst (agent_upsert_tag now' gen' i tag utc' ?s1) = Inr False"
    and sd2: "same_data ?s1 ?s2" by simp_all
  from sd sd2 have t2: "tag_association_collection ?s2 = tag_association_collection s"
    by (simp add: same_data_def)
  from agent_pair_records[OF cur rd, of tag] True
  have "pair_records ''agent_id'' i tag (tag_association_collection s) \<noteq> []" by simp
  then have "length (pair_records ''agent_id'' i tag (tag_association_collection s)) \<ge> 1"
    by (cases "pair_records ''agent_id'' i tag (tag_association_collection s)") simp_all
  with True r1 sd r2 sd2 t2 show ?thesis by simp
next
  case False
  let ?s1 = "snd (agent_upsert_tag now gen i tag utc s)"
  let ?s2 = "snd (agent_upsert_tag now' gen' i tag utc' ?s1)"
  let ?doc = "agent_tag_association_document (gen 0) (case utc of None \<Rightarrow> now | Some t \<Rightarrow> t) i tag"
  from agent_upsert_tag_absent[where gen = gen and now = now and utc = utc, OF cur rd False fresh]
  have r1: "fst (agent_upsert_tag now gen i tag utc s) = Inr True"
    and c1: "collection ?s1 = collection s"
    and t1: "tag_association_collection ?s1 = tag_association_collection s @ [?doc]"
    by simp_all
  from agent_read_after_insert[OF cur rd c1 t1]
  have rd1: "fst (read_agent i ?s1) = Inr (agent\<lparr>a_tags := a_tags agent @ [tag]\<rparr>)" .
  have "tag \<in> set (a_tags (agent\<lparr>a_tags := a_tags agent @ [tag]\<rparr>))" by simp
  from agent_upsert_tag_present[OF rd1 this, of now' gen' utc']
  have r2: "fst (agent_upsert_tag now' gen' i tag utc' ?s1) = Inr False"
    and sd2: "same_data ?s1 ?s2" by simp_all
  from sd2 t1 have t2: "tag_association_collection ?s2 = tag_association_collection s @ [?doc]"
    by (simp add: same_data_def)
  from agent_pair_records[OF cur rd, of tag] False
  have "pair_records ''agent_id'' i tag (tag_association_collection s) = []" by simp
  moreover have "pair_records ''agent_id'' i tag [?doc] = [?doc]"
    by (simp add: pair_records_def agent_tag_association_document_def)
  ultimately have "length (pair_records ''agent_id'' i tag (tag_association_collection ?s2)) = 1"
    by (simp add: t2 pair_records_append)
  with False r1 c1 t1 r2 sd2 show ?thesis by simp
qed

lemma guideline_upsert_tag_twice:
  assumes cur: "current_version guideline_VERSION (tag_association_collection s)"
    and rd: "fst (read_guideline i s) = Inr guideline"
    and fresh: "\<not> list_ex (\<lambda>d. d ''id'' = Some (JStr (gen 0))) (tag_association_collection s)"
  shows "(tag \<in> set (g_tags guideline) \<longrightarrow>
            fst (guideline_upsert_tag now gen i tag utc s) = Inr False \<and>
            same_data s (snd (guideline_upsert_tag now gen i tag utc s))) \<and>
         (tag \<notin> set (g_tags guideline) \<longrightarrow>
            fst (guideline_upsert_tag now gen i tag utc s) = Inr True \<and>
            collection (snd (guideline_upsert_tag now gen i tag utc s)) = collection s \<and>
            tag_association_collection (snd (guideline_upsert_tag now gen i tag utc s)) =
              tag_association_collection s @
                [guideline_tag_association_document (gen 0)
                   (case utc of None \<Rightarrow> now | Some t \<Rightarrow> t) i tag]) \<and>
         fst (guideline_upsert_tag now' gen' i tag utc' (snd (guideline_upsert_tag now gen i tag utc s))) =
           Inr False \<and>
         same_data (snd (guideline_upsert_tag now gen i tag utc s))
           (snd (guideline_upsert_tag now' gen' i tag utc' (snd (guideline_upsert_tag now gen i tag utc s)))) \<and>
         (length (pair_records ''guideline_id'' i tag (tag_association_collection s)) \<le> 1 \<longrightarrow>
            length (pair_records ''guideline_id'' i tag
              (tag_association_collection
                (snd (guideline_upsert_tag now' gen' i tag utc'
                   (snd (guideline_upsert_tag now gen i tag utc s)))))) = 1)"
proof (cases "tag \<in> set (g_tags guideline)")
  case True
  let ?s1 = "snd (guideline_upsert_tag now gen i tag utc s)"
  let ?s2 = "snd (guideline_upsert_tag now' gen' i tag utc' ?s1)"
  from guideline_upsert_tag_present[OF rd True, of now gen utc]
  have r1: "fst (guideline_upsert_tag now gen i tag utc s) = Inr False" and sd: "same_data s ?s1"
    by simp_all
  from read_guideline_data_only[OF sd, of i] rd have rd1: "fst (read_guideline i ?s1) = Inr guideline" by simp
  from guideline_upsert_tag_present[OF rd1 True, of now' gen' utc']
  have r2: "fst (guideline_upsert_tag now' gen' i tag utc' ?s1) = Inr False"
    and sd2: "same_data ?s1 ?s2" by simp_all
  from sd sd2 have t2: "tag_association_collection ?s2 = tag_association_collection s"
    by (simp add: same_data_def)
  from guideline_pair_records[OF cur rd, of tag] True
  have "pair_records ''guideline_id'' i tag (tag_association_collection s) \<noteq> []" by simp
  then have "length (pair_records ''guideline_id'' i tag (tag_association_collection s)) \<ge> 1"
    by (cases "pair_records ''guideline_id'' i tag (tag_association_collection s)") simp_all
  with True r1 sd r2 sd2 t2 show ?thesis by simp
next
  case False
  let ?s1 = "snd (guideline_upsert_tag now gen i tag utc s)"
  let ?s2 = "snd (guideline_upsert_tag now' gen' i tag utc' ?s1)"
  let ?doc = "guideline_tag_association_document (gen 0) (case utc of None \<Rightarrow> now | Some t \<Rightarrow> t) i tag"
  from guideline_upsert_tag_absent[where gen = gen and now = now and utc = utc, OF cur rd False fresh]
  have r1: "fst (guideline_upsert_tag now gen i tag utc s) = Inr True"
    and c1: "collection ?s1 = collection s"
    and t1: "tag_association_collection ?s1 = tag_association_collection s @ [?doc]"
    by simp_all
  from guideline_read_after_insert[OF cur rd c1 t1]
  have rd1: "fst (read_guideline i ?s1) = Inr (guideline\<lparr>g_tags := g_tags guideline @ [tag]\<rparr>)" .
  have "tag \<in> set (g_tags (guideline\<lparr>g_tags := g_tags guideline @ [tag]\<rparr>))" by simp
  from guideline_upsert_tag_present[OF rd1 this, of now' gen' utc']
  have r2: "fst (guideline_upsert_tag now' gen' i tag utc' ?s1) = Inr False"
    and sd2: "same_data ?s1 ?s2" by simp_all
  from sd2 t1 have t2: "tag_association_collection ?s2 = tag_association_collection s @ [?doc]"
    by (simp add: same_data_def)
  from guideline_pair_records[OF cur rd, of tag] False
  have "pair_records ''guideline_id'' i tag (tag_association_collection s) = []" by simp
  moreover have "pair_records ''guideline_id'' i tag [?doc] = [?doc]"
    by (simp add: pair_records_def guideline_tag_association_document_def)
  ultimately have "length (pair_records ''guideline_id'' i tag (tag_association_collection ?s2)) = 1"
    by (simp add: t2 pair_records_append)
  with False r1 c1 t1 r2 sd2 show ?thesis by simp
qed

lemma example_agent_read:
  "fst (read_agent ''agent00001'' example_agent_store) = Inr example_agent"
  by (simp add: read_agent_def store_op_defs agent_eval_defs)

lemma example_guideline_read:
  "fst (read_guideline ''guide00001'' example_guideline_store) = Inr example_guideline"
  by (simp add: read_guideline_def store_op_defs guideline_eval_defs)

section \<open>The events of the operations\<close>

lemma traces_in_basic [simp]:
  "traces_in E (returns x)" "traces_in E (raise e)" "traces_in E (lift r)"
  by (simp_all add: traces_in_def returns_def raise_def lift_def)

lemma traces_in_access:
  "Access c Find \<in> E \<Longrightarrow> traces_in E (find_op c ld w)"
  "Access c FindOne \<in> E \<Longrightarrow> traces_in E (find_one_op c ld w)"
  "Access c InsertOne \<in> E \<Longrightarrow> traces_in E (insert_one_op c doc)"
  "Access c UpdateOne \<in> E \<Longrightarrow> traces_in E (update_one_op c w params)"
  "Access c DeleteOne \<in> E \<Longrightarrow> traces_in E (delete_one_op c w)"
  by (auto simp: traces_in_def find_op_def find_one_op_def insert_one_op_def update_one_op_def
        delete_one_op_def split: sum.splits prod.splits)

lemma traces_in_bind:
  assumes m: "traces_in E m" and f: "\<And>x. traces_in E (f x)"
  shows "traces_in E (bind_op m f)"
  unfolding traces_in_def
proof
  fix s
  obtain r s' where ms: "m s = (r, s')" by (cases "m s")
  from m ms obtain a where a: "events s' = events s @ a" "set a \<subseteq> E"
    by (auto simp: traces_in_def dest: spec[of _ s])
  show "\<exists>tr. events (snd (bind_op m f s)) = events s @ tr \<and> set tr \<subseteq> E"
  proof (cases r)
    case (Inl e)
    with ms a show ?thesis by (auto simp: bind_op_def)
  next
    case (Inr x)
    from f[of x] obtain b where b: "events (snd (f x s')) = events s' @ b" "set b \<subseteq> E"
      by (auto simp: traces_in_def dest: spec[of _ s'])
    with a have "events (snd (f x s')) = events s @ (a @ b)" "set (a @ b) \<subseteq> E" by simp_all
    with ms Inr show ?thesis by (intro exI[of _ "a @ b"]) (simp add: bind_op_def)
  qed
qed

lemma traces_in_with_lock:
  assumes m: "traces_in E m" and "Acquire sc \<in> E" and "Release sc \<in> E"
  shows "traces_in E (with_lock sc m)"
  unfolding traces_in_def
proof
  fix s
  let ?s1 = "emit (Acquire sc) s"
  obtain r s' where ms: "m ?s1 = (r, s')" by (cases "m ?s1")
  from m ms obtain a where a: "events s' = events ?s1 @ a" "set a \<subseteq> E"
    by (auto simp: traces_in_def dest: spec[of _ ?s1])
  then have "events (emit (Release sc) s') = events s @ (Acquire sc # a @ [Release sc])"
    by simp
  moreover from a assms(2,3) have "set (Acquire sc # a @ [Release sc]) \<subseteq> E" by simp
  ultimately show "\<exists>tr. events (snd (with_lock sc m s)) = events s @ tr \<and> set tr \<subseteq> E"
    using ms by (intro exI[of _ "Acquire sc # a @ [Release sc]"]) (simp add: with_lock_def)
qed

lemma with_lock_events:
  assumes m: "traces_in E m"
  shows "\<exists>b. events (snd (with_lock sc m s)) = events s @ Acquire sc # b @ [Release sc] \<and>
             set b \<subseteq> E"
proof -
  let ?s1 = "emit (Acquire sc) s"
  obtain r s' where ms: "m ?s1 = (r, s')" by (cases "m ?s1")
  from m ms obtain a where a: "events s' = events ?s1 @ a" "set a \<subseteq> E"
    by (auto simp: traces_in_def dest: spec[of _ ?s1])
  then have "events (emit (Release sc) s') = events s @ Acquire sc # a @ [Release sc]"
    by simp
  with a(2) ms show ?thesis by (auto simp: with_lock_def)
qed

lemma writer_section_then_events:
  assumes body: "traces_in B body" and cont: "\<And>x. traces_in C (cont x)"
  shows "\<exists>b c. new_events s (snd (bind_op (with_lock Writer body) cont s)) =
             Acquire Writer # b @ [Release Writer] @ c \<and> set b \<subseteq> B \<and> set c \<subseteq> C"
proof -
  obtain r s' where ms: "with_lock Writer body s = (r, s')" by (cases "with_lock Writer body s")
  from with_lock_events[OF body, of Writer s] ms obtain b where
    b: "events s' = events s @ Acquire Writer # b @ [Release Writer]" "set b \<subseteq> B" by auto
  show ?thesis
  proof (cases r)
    case (Inl e)
    with ms b have "new_events s (snd (bind_op (with_lock Writer body) cont s)) =
        Acquire Writer # b @ [Release Writer] @ []"
      by (simp add: bind_op_def new_events_def)
    with b(2) show ?thesis by (intro exI[of _ b] exI[of _ "[]"]) simp
  next
    case (Inr x)
    from cont[of x] obtain c where c: "events (snd (cont x s')) = events s' @ c" "set c \<subseteq> C"
      by (auto simp: traces_in_def dest: spec[of _ s'])
    with ms Inr b have "new_events s (snd (bind_op (with_lock Writer body) cont s)) =
        Acquire Writer # b @ [Release Writer] @ c"
      by (simp add: bind_op_def new_events_def)
    with b(2) c(2) show ?thesis by (intro exI[of _ b] exI[of _ c]) simp
  qed
qed

lemma one_writer_sectionI:
  assumes "tr = Acquire Writer # b @ [Release Writer] @ c" and "set b \<subseteq> {e. \<not> is_lock_event e}"
    and "set c \<subseteq> {}"
  shows "one_writer_section tr"
  using assms by (auto simp: one_writer_section_def list_all_iff butlast_append)

lemma writer_guards_writesI:
  assumes tr: "tr = Acquire Writer # b @ [Release Writer] @ c"
    and b: "set b \<subseteq> - {Acquire Writer, Release Writer}"
    and c: "set c \<subseteq> {e. is_read e}"
  shows "writer_guards_writes tr"
proof -
  from b have "takeWhile (\<lambda>e. e \<noteq> Release Writer) (b @ [Release Writer] @ c) = b"
    by (subst takeWhile_append2) auto
  with b c tr show ?thesis
    by (auto simp: writer_guards_writes_def Let_def list_all_iff)
qed

lemmas traces_intros = traces_in_bind traces_in_with_lock traces_in_access traces_in_basic

lemma traces_in_deserialize:
  assumes "Access TagAssociations Find \<in> E"
  shows "traces_in E (deserialize_agent d)" "traces_in E (deserialize_guideline d)"
  unfolding deserialize_agent_def deserialize_guideline_def
  by (intro traces_intros assms)+

lemma traces_in_read:
  assumes "Access TagAssociations Find \<in> E" "Access Entities FindOne \<in> E"
    "Acquire Reader \<in> E" "Release Reader \<in> E"
  shows "traces_in E (read_agent i)" "traces_in E (read_guideline i)"
  unfolding read_agent_def read_guideline_def
  by (intro traces_intros assms | simp split: option.splits add: traces_in_deserialize assms
      | intro conjI impI allI)+

lemma traces_in_after_update:
  "traces_in {e. is_read e}
     (case updated_document result of None \<Rightarrow> raise AssertionError
      | Some d \<Rightarrow> if d = Map.empty then raise AssertionError else deserialize_agent d)"
  "traces_in {e. is_read e}
     (case updated_document result of None \<Rightarrow> raise AssertionError
      | Some d \<Rightarrow> if d = Map.empty then raise AssertionError else deserialize_guideline d)"
  by (simp_all split: option.splits add: traces_in_deserialize)

lemma update_agent_events:
  "writer_guards_writes (new_events s (snd (update_agent agent_id params s)))"
proof -
  let ?B = "- {Acquire Writer, Release Writer}"
  have "\<exists>b c. new_events s (snd (update_agent agent_id params s)) =
      Acquire Writer # b @ [Release Writer] @ c \<and> set b \<subseteq> ?B \<and> set c \<subseteq> {e. is_read e}"
    unfolding update_agent_def
    by (rule writer_section_then_events)
       ((intro traces_intros | simp | intro conjI impI)+, rule traces_in_after_update)
  then show ?thesis by (auto intro: writer_guards_writesI)
qed


lemma rmw_shape:
  assumes "\<exists>b c. tr = Acquire Writer # b @ [Release Writer] @ c \<and>
             set b \<subseteq> - {Acquire Writer, Release Writer} \<and> set c \<subseteq> {e. is_read e}"
  shows "writer_guards_writes tr"
  using assms by (auto intro: writer_guards_writesI)

lemma traces_in_after_upsert:
  "traces_in {e. is_read e}
     (case r of Inl b \<Rightarrow> returns b
      | Inr doc \<Rightarrow> if \<not> truthy doc then raise (ItemNotFoundError i) else returns True)"
  by (simp split: sum.splits)

lemma agent_upsert_tag_events:
  "writer_guards_writes (new_events s (snd (agent_upsert_tag now gen i tag utc s)))"
  unfolding agent_upsert_tag_def Let_def
  by (rule rmw_shape, rule writer_section_then_events)
     ((intro traces_intros traces_in_read | simp | intro conjI impI)+,
      rule traces_in_after_upsert)

lemma guideline_upsert_tag_events:
  "writer_guards_writes (new_events s (snd (guideline_upsert_tag now gen i tag utc s)))"
  unfolding guideline_upsert_tag_def Let_def
  by (rule rmw_shape, rule writer_section_then_events)
     ((intro traces_intros traces_in_read | simp | intro conjI impI)+,
      rule traces_in_after_upsert)

lemma update_guideline_events:
  "writer_guards_writes (new_events s (snd (update_guideline i params s)))"
  unfolding update_guideline_def Let_def
  by (rule rmw_shape, rule writer_section_then_events)
     ((intro traces_intros | simp | intro conjI impI)+, rule traces_in_after_update)

lemma traces_in_metadata_body:
  "traces_in (- {Acquire Writer, Release Writer})
     (case guideline_document of None \<Rightarrow> raise e
      | Some d \<Rightarrow> if d = Map.empty then raise e
          else bind_op (lift (obj_field d ''metadata''))
                 (\<lambda>old. update_one_op Entities w (f old)))"
  by (auto split: option.splits intro!: traces_intros)

lemma add_metadata_events:
  "writer_guards_writes (new_events s (snd (add_metadata i metadata s)))"
  unfolding add_metadata_def Let_def
  by (rule rmw_shape, rule writer_section_then_events)
     ((intro traces_intros traces_in_metadata_body | simp)+, rule traces_in_after_update)

lemma remove_metadata_events:
  "writer_guards_writes (new_events s (snd (remove_metadata i keys s)))"
  unfolding remove_metadata_def Let_def
  by (rule rmw_shape, rule writer_section_then_events)
     ((intro traces_intros traces_in_metadata_body | simp)+, rule traces_in_after_update)

lemma agent_upsert_tag_example_events:
  "new_events example_agent_store
     (snd (agent_upsert_tag scenario_now (\<lambda>k. ''assoc00002'') ''agent00001'' ''t2'' None
             example_agent_store)) =
   [Acquire Writer, Acquire Reader, Access Entities FindOne, Release Reader,
    Access TagAssociations Find, Access TagAssociations InsertOne, Access Entities FindOne,
    Release Writer]"
  by (simp add: agent_upsert_tag_def read_agent_def new_events_def store_op_defs agent_eval_defs
        Let_def)

lemma update_agent_example_events:
  "new_events example_agent_store
     (snd (update_agent ''agent00001'' [''name'' \<mapsto> JStr ''B''] example_agent_store)) =
   [Acquire Writer, Access Entities FindOne, Access Entities UpdateOne, Release Writer,
    Access TagAssociations Find]"
  by (simp add: update_agent_def new_events_def store_op_defs agent_eval_defs)

section \<open>Deleting an entity\<close>

lemma delete_one_by_id:
  assumes "distinct (map (\<lambda>d. d ''id'') T)"
  shows "snd (collection_delete_one (WFields [(''id'', OpEq j)]) T) =
           filter (\<lambda>x. x ''id'' \<noteq> Some j) T"
  using assms
proof (induction T)
  case Nil then show ?case by simp
next
  case (Cons d T)
  show ?case
  proof (cases "d ''id'' = Some j")
    case True
    with Cons.prems have "\<forall>x\<in>set T. x ''id'' \<noteq> Some j" by (auto simp: image_iff)
    then have "filter (\<lambda>x. x ''id'' \<noteq> Some j) T = T" by (simp add: filter_id_conv)
    with True show ?thesis by simp
  next
    case False
    with Cons show ?thesis by (auto split: prod.splits)
  qed
qed

lemma delete_one_count:
  "deleted_count (fst (collection_delete_one w T)) = (if list_ex (matches_filters w) T then 1 else 0)"
  by (induction T) (auto split: prod.splits)

lemma delete_one_document:
  "list_ex (matches_filters w) T \<Longrightarrow>
     \<exists>d. deleted_document (fst (collection_delete_one w T)) = Some d \<and> matches_filters w d"
  by (induction T) (auto split: prod.splits)

lemma delete_one_no_document:
  "\<not> list_ex (matches_filters w) T \<Longrightarrow>
     deleted_document (fst (collection_delete_one w T)) = None"
  by (induction T) (auto split: prod.splits)

lemma distinct_ids_filter:
  "distinct (map (\<lambda>d. d ''id'') T) \<Longrightarrow> distinct (map (\<lambda>d. d ''id'') (filter P T))"
  by (rule distinct_map_filter)

lemma delete_associations_result:
  assumes "list_all (\<lambda>d. d ''id'' \<noteq> None) F"
    and "distinct (map (\<lambda>d. d ''id'') (tag_association_collection s))"
  shows "fst (delete_associations F s) = Inr () \<and>
         collection (snd (delete_associations F s)) = collection s \<and>
         tag_association_collection (snd (delete_associations F s)) =
           filter (\<lambda>x. x ''id'' \<notin> (\<lambda>d. d ''id'') ` set F) (tag_association_collection s)"
  using assms
proof (induction F arbitrary: s)
  case Nil then show ?case by (simp add: returns_def)
next
  case (Cons d F)
  from Cons.prems(1) obtain j where j: "d ''id'' = Some j" by auto
  let ?w = "WFields [(''id'', OpEq j)]"
  let ?s1 = "snd (delete_one_op TagAssociations ?w s)"
  have t1: "tag_association_collection ?s1 =
      filter (\<lambda>x. x ''id'' \<noteq> Some j) (tag_association_collection s)"
    using delete_one_by_id[OF Cons.prems(2), of j]
    by (auto simp: delete_one_op_def split: prod.splits)
  have c1: "collection ?s1 = collection s"
    by (simp add: delete_one_op_def split: prod.splits)
  have f1: "fst (delete_one_op TagAssociations ?w s) =
      Inr (fst (collection_delete_one ?w (tag_association_collection s)))"
    by (simp add: delete_one_op_def split: prod.splits)
  from Cons.prems(2) have "distinct (map (\<lambda>d. d ''id'') (tag_association_collection ?s1))"
    unfolding t1 by (rule distinct_ids_filter)
  with Cons.IH[of ?s1] Cons.prems(1)
  have ih: "fst (delete_associations F ?s1) = Inr ()"
    "collection (snd (delete_associations F ?s1)) = collection ?s1"
    "tag_association_collection (snd (delete_associations F ?s1)) =
           filter (\<lambda>x. x ''id'' \<notin> (\<lambda>d. d ''id'') ` set F) (tag_association_collection ?s1)"
    by simp_all
  have step: "delete_associations (d # F) s = delete_associations F ?s1"
    using j f1
    by (cases "delete_one_op TagAssociations ?w s")
       (simp add: bind_op_def get_field_def lift_def)
  show ?case
    unfolding step using ih c1 t1 j by (auto intro: filter_cong)
qed

text \<open>
  Claim C7. An update leaves every field that its params do not name as it was, in every
  record of the primary collection, and leaves the tag associations alone; this holds
  for \<^verbatim>\<open>update_agent\<close> and for \<^verbatim>\<open>update_guideline\<close>, whether the entity exists or not.
\<close>

theorem update_keeps_unnamed_fields:
  "list_all2 (\<lambda>d d'. \<forall>k. params k = None \<longrightarrow> d' k = d k)
     (collection s) (collection (snd (update_agent agent_id params s))) \<and>
   tag_association_collection (snd (update_agent agent_id params s)) =
     tag_association_collection s \<and>
   list_all2 (\<lambda>d d'. \<forall>k. params k = None \<longrightarrow> d' k = d k)
     (collection s) (collection (snd (update_guideline guideline_id params s))) \<and>
   tag_association_collection (snd (update_guideline guideline_id params s)) =
     tag_association_collection s"
proof -
  have mono: "list_all2 (\<lambda>d d'. \<forall>k. guideline_update_document params k = None \<longrightarrow> d' k = d k) xs ys
     \<Longrightarrow> list_all2 (\<lambda>d d'. \<forall>k. params k = None \<longrightarrow> d' k = d k) xs ys" for xs ys
    by (erule list_all2_mono) (simp add: guideline_update_document_dom)
  from update_guideline_frame[of params s guideline_id]
  have "list_all2 (\<lambda>d d'. \<forall>k. guideline_update_document params k = None \<longrightarrow> d' k = d k)
          (collection s) (collection (snd (update_guideline guideline_id params s)))"
    and g2: "tag_association_collection (snd (update_guideline guideline_id params s)) =
          tag_association_collection s"
    by (simp_all add: frame_ok_def)
  from mono[OF this(1)] g2 update_agent_frame[of params s agent_id]
  show ?thesis by (simp add: frame_ok_def)
qed

theorem update_keeps_unnamed_fields_witness:
  "fst (update_agent ''agent00001'' [''name'' \<mapsto> JStr ''B''] example_agent_store) =
     Inr (example_agent\<lparr>a_name := ''B''\<rparr>) \<and>
   list_all2 (\<lambda>d d'. d' ''description'' = d ''description'' \<and> d' ''creation_utc'' = d ''creation_utc'')
     (collection example_agent_store)
     (collection (snd (update_agent ''agent00001'' [''name'' \<mapsto> JStr ''B''] example_agent_store))) \<and>
   list_all2 (\<lambda>d d'. d' ''action'' = d ''action'' \<and> d' ''metadata'' = d ''metadata'')
     (collection example_guideline_store)
     (collection (snd (update_guideline ''guide00001'' [''condition'' \<mapsto> JStr ''asked''] example_guideline_store)))"
proof -
  have a: "fst (update_agent ''agent00001'' [''name'' \<mapsto> JStr ''B''] example_agent_store) =
     Inr (example_agent\<lparr>a_name := ''B''\<rparr>)"
    by (simp add: update_agent_def store_op_defs agent_eval_defs)
  note t1 = update_keeps_unnamed_fields[of "[''name'' \<mapsto> JStr ''B'']" example_agent_store
      "''agent00001''" "''x''"]
  note t2 = update_keeps_unnamed_fields[of "[''condition'' \<mapsto> JStr ''asked'']"
      example_guideline_store "''x''" "''guide00001''"]
  from t1 have b: "list_all2 (\<lambda>d d'. d' ''description'' = d ''description'' \<and> d' ''creation_utc'' = d ''creation_utc'')
     (collection example_agent_store)
     (collection (snd (update_agent ''agent00001'' [''name'' \<mapsto> JStr ''B''] example_agent_store)))"
    by (elim conjE list_all2_mono) simp
  from t2 have c: "list_all2 (\<lambda>d d'. d' ''action'' = d ''action'' \<and> d' ''metadata'' = d ''metadata'')
     (collection example_guideline_store)
     (collection (snd (update_guideline ''guide00001'' [''condition'' \<mapsto> JStr ''asked''] example_guideline_store)))"
    by (elim conjE list_all2_mono) simp
  from a b c show ?thesis by (intro conjI)
qed

section \<open>The metadata key of the update params\<close>

lemma guideline_update_document_ignores_metadata:
  "guideline_update_document (params(''metadata'' := v)) = guideline_update_document params"
  by (simp add: guideline_update_document_def present_key_def)

lemma update_guideline_ignores_metadata:
  "update_guideline guideline_id (params(''metadata'' := v)) = update_guideline guideline_id params"
  by (simp add: update_guideline_def guideline_update_document_ignores_metadata)

lemma update_guideline_metadata_kept:
  "map (\<lambda>d. d ''metadata'') (collection (snd (update_guideline guideline_id params s))) =
   map (\<lambda>d. d ''metadata'') (collection s)"
proof -
  from update_guideline_frame[of params s guideline_id]
  have "list_all2 (\<lambda>d d'. \<forall>k. guideline_update_document params k = None \<longrightarrow> d' k = d k)
          (collection s) (collection (snd (update_guideline guideline_id params s)))"
    by (simp add: frame_ok_def)
  then have "list_all2 (\<lambda>d d'. d' ''metadata'' = d ''metadata'')
          (collection s) (collection (snd (update_guideline guideline_id params s)))"
    by (rule list_all2_mono) (simp add: guideline_update_document_metadata)
  then show ?thesis
    by (induction rule: list_all2_induct) simp_all
qed

text \<open>
  Claim C10. \<^verbatim>\<open>update_guideline\<close> does not look at the \<^verbatim>\<open>metadata\<close> key of its params: with
  the key set to any value, or removed, the operation is the same function of the store,
  and the \<^verbatim>\<open>metadata\<close> field of every stored record is after the update what it was
  before. \<^verbatim>\<open>upsert_tag\<close> and \<^verbatim>\<open>remove_tag\<close> do not touch the primary collection at all.
  On the example store, whose guideline has the metadata \<open>k = 1\<close>, \<^verbatim>\<open>add_metadata\<close> and
  \<^verbatim>\<open>remove_metadata\<close> change the stored metadata, and an update that supplies
  \<^verbatim>\<open>metadata\<close> leaves it as it is.
\<close>

theorem update_guideline_ignores_metadata_key:
  "update_guideline guideline_id (params(''metadata'' := v)) =
     update_guideline guideline_id params \<and>
   map (\<lambda>d. d ''metadata'') (collection (snd (update_guideline guideline_id params s))) =
     map (\<lambda>d. d ''metadata'') (collection s) \<and>
   collection (snd (guideline_upsert_tag now gen guideline_id tag_id creation_utc s)) =
     collection s \<and>
   collection (snd (guideline_remove_tag guideline_id tag_id s)) = collection s \<and>
   map (\<lambda>d. d ''metadata'')
     (collection (snd (add_metadata ''guide00001'' [(''k'', JInt 2)] example_guideline_store))) =
     [Some (JObj [(''k'', JInt 2)])] \<and>
   map (\<lambda>d. d ''metadata'')
     (collection (snd (remove_metadata ''guide00001'' [''k''] example_guideline_store))) =
     [Some (JObj [])] \<and>
   map (\<lambda>d. d ''metadata'')
     (collection (snd (update_guideline ''guide00001'' [''metadata'' \<mapsto> JObj [(''k'', JInt 2)]]
        example_guideline_store))) =
     [Some (JObj [(''k'', JInt 1)])]"
proof -
  have up: "collection (snd (guideline_upsert_tag now gen guideline_id tag_id creation_utc s)) =
     collection s"
    using guideline_upsert_tag_primary_kept[of now gen guideline_id tag_id creation_utc]
    by (simp add: preserves_def primary_kept_def)
  have rm: "collection (snd (guideline_remove_tag guideline_id tag_id s)) = collection s"
    using guideline_remove_tag_primary_kept[of guideline_id tag_id]
    by (simp add: preserves_def primary_kept_def)
  have ex_add: "map (\<lambda>d. d ''metadata'')
     (collection (snd (add_metadata ''guide00001'' [(''k'', JInt 2)] example_guideline_store))) =
     [Some (JObj [(''k'', JInt 2)])]"
    by (simp add: add_metadata_def merge_metadata_def store_op_defs guideline_eval_defs)
  have ex_rem: "map (\<lambda>d. d ''metadata'')
     (collection (snd (remove_metadata ''guide00001'' [''k''] example_guideline_store))) =
     [Some (JObj [])]"
    by (simp add: remove_metadata_def store_op_defs guideline_eval_defs)
  have ex_upd: "map (\<lambda>d. d ''metadata'')
     (collection (snd (update_guideline ''guide00001'' [''metadata'' \<mapsto> JObj [(''k'', JInt 2)]]
        example_guideline_store))) =
     [Some (JObj [(''k'', JInt 1)])]"
    by (simp add: update_guideline_def guideline_update_document_def present_key_def
          store_op_defs guideline_eval_defs)
  from update_guideline_ignores_metadata[of guideline_id params v]
    update_guideline_metadata_kept[of guideline_id params s] up rm ex_add ex_rem ex_upd
  show ?thesis by (intro conjI)
qed

section \<open>Updating an entity that is not there\<close>

lemma update_one_no_match:
  "\<not> list_ex (matches_filters w) ds \<Longrightarrow>
     collection_update_one w params ds = (\<lparr>matched_count = 0, updated_document = None\<rparr>, ds)"
  by (induction ds) auto

lemma agent_loader_cases:
  "agent_document_loader d = Inr (Some d') \<Longrightarrow> d' = d"
  by (auto simp: agent_document_loader_def numeral_3_eq_3 agent_converters_def
        agent_v0_1_0_to_v_0_2_0_def agent_v0_2_0_to_v_0_3_0_def
      split: option.splits json.splits if_splits sum.splits)

lemma load_agent_documents_subset:
  "load_documents agent_document_loader ds = Inr ds' \<Longrightarrow> set ds' \<subseteq> set ds"
proof (induction ds arbitrary: ds')
  case Nil then show ?case by simp
next
  case (Cons d ds)
  then show ?case
    by (auto split: sum.splits option.splits dest: agent_loader_cases)
qed

text \<open>
  Claim C4. When no record of the primary collection has the id, \<^verbatim>\<open>update_guideline\<close>
  fails with the AssertionError of \<^verbatim>\<open>assert result.updated_document\<close>, not with
  \<^verbatim>\<open>ItemNotFoundError\<close>; \<^verbatim>\<open>update_agent\<close>, which looks the record up first, fails with
  \<^verbatim>\<open>ItemNotFoundError\<close> (provided the stored records load).
\<close>

theorem update_absent_id:
  assumes absent: "\<forall>d\<in>set (collection s). d ''id'' \<noteq> Some (JStr i)"
  shows "fst (update_guideline i params s) = Inl AssertionError \<and>
         (\<forall>ds. load_documents agent_document_loader (collection s) = Inr ds \<longrightarrow>
            fst (update_agent i params s) = Inl (ItemNotFoundError i))"
proof (intro conjI allI impI)
  let ?w = "WFields [(''id'', OpEq (JStr i))]"
  from absent have nm: "\<not> list_ex (matches_filters ?w) (collection s)"
    by (simp add: list_ex_iff)
  then have nm': "\<not> list_ex (matches_filters ?w) (collection (emit (Acquire Writer) s))" by simp
  show "fst (update_guideline i params s) = Inl AssertionError"
    using update_one_no_match[OF nm', of "guideline_update_document params"]
    by (simp add: update_guideline_def with_lock_def bind_op_def update_one_op_def raise_def)
next
  fix ds assume ld: "load_documents agent_document_loader (collection s) = Inr ds"
  let ?w = "WFields [(''id'', OpEq (JStr i))]"
  from load_agent_documents_subset[OF ld] absent
  have "filter (matches_filters ?w) ds = []"
    by (auto simp: filter_empty_conv)
  with ld show "fst (update_agent i params s) = Inl (ItemNotFoundError i)"
    by (simp add: update_agent_def with_lock_def bind_op_def find_one_op_def
          collection_find_one_def collection_find_def raise_def truthy_def)
qed

theorem update_absent_id_witness:
  "fst (update_guideline ''guide00002'' [''enabled'' \<mapsto> JBool False] example_guideline_store) =
     Inl AssertionError \<and>
   fst (update_agent ''agent00002'' [''name'' \<mapsto> JStr ''B''] example_agent_store) =
     Inl (ItemNotFoundError ''agent00002'')"
proof -
  have g: "\<forall>d\<in>set (collection example_guideline_store). d ''id'' \<noteq> Some (JStr ''guide00002'')"
    by (simp add: example_guideline_store_def example_guideline_def serialize_guideline_def)
  have a: "\<forall>d\<in>set (collection example_agent_store). d ''id'' \<noteq> Some (JStr ''agent00002'')"
    by (simp add: example_agent_store_def example_agent_def serialize_agent_def)
  have ld: "load_documents agent_document_loader (collection example_agent_store) =
      Inr (collection example_agent_store)"
    by (simp add: agent_eval_defs)
  from update_absent_id[OF g, of "[''enabled'' \<mapsto> JBool False]"]
    update_absent_id[OF a, of "[''name'' \<mapsto> JStr ''B'']"] ld
  show ?thesis by blast
qed

section \<open>Migrating a stored guideline\<close>

lemma guideline_loader_0_1_0:
  assumes "doc ''version'' = Some (JStr ''0.1.0'')"
    and "doc ''id'' = Some i" and "doc ''creation_utc'' = Some c"
    and "doc ''guideline_set'' = Some gs" and "doc ''condition'' = Some cn"
    and "doc ''action'' = Some ac"
  shows "guideline_document_converter_0_1_0_to_0_2_0 doc =
           Inr (Some [''id'' \<mapsto> i, ''version'' \<mapsto> JStr ''0.2.0'', ''creation_utc'' \<mapsto> c,
                      ''guideline_set'' \<mapsto> gs, ''condition'' \<mapsto> cn, ''action'' \<mapsto> ac,
                      ''enabled'' \<mapsto> JBool True])"
    and "guideline_document_loader doc = Inl prepare_migration_exception"
proof -
  show c: "guideline_document_converter_0_1_0_to_0_2_0 doc =
           Inr (Some [''id'' \<mapsto> i, ''version'' \<mapsto> JStr ''0.2.0'', ''creation_utc'' \<mapsto> c,
                      ''guideline_set'' \<mapsto> gs, ''condition'' \<mapsto> cn, ''action'' \<mapsto> ac,
                      ''enabled'' \<mapsto> JBool True])"
    using assms
    by (simp add: guideline_document_converter_0_1_0_to_0_2_0_def bind_result_def get_field_def)
  have "migrate (Suc (Suc 0)) guideline_converters guideline_VERSION
          [''id'' \<mapsto> i, ''version'' \<mapsto> JStr ''0.2.0'', ''creation_utc'' \<mapsto> c,
                      ''guideline_set'' \<mapsto> gs, ''condition'' \<mapsto> cn, ''action'' \<mapsto> ac,
                      ''enabled'' \<mapsto> JBool True] = Some (Inl prepare_migration_exception)"
    by (rule migrate_0_2_0) simp
  with c assms(1) have "migrate (Suc (Suc (Suc 0))) guideline_converters guideline_VERSION doc =
      Some (Inl prepare_migration_exception)"
    by (simp add: guideline_converters_def guideline_VERSION_def)
  then have m: "migrate (Suc (Suc (Suc 0)) + 1) guideline_converters guideline_VERSION doc =
      Some (Inl prepare_migration_exception)" by (rule migrate_more_fuel)
  have four: "(4::nat) = Suc (Suc (Suc 0)) + 1" by simp
  show "guideline_document_loader doc = Inl prepare_migration_exception"
    unfolding guideline_document_loader_def four by (simp only: m option.case)
qed

lemma guideline_loader_0_3_0:
  "guideline_document_loader ((serialize_guideline g)(''version'' \<mapsto> JStr ''0.3.0'', ''metadata'' := None)) =
     Inr (Some (serialize_guideline (g\<lparr>g_metadata := []\<rparr>)))"
proof -
  let ?d = "(serialize_guideline g)(''version'' \<mapsto> JStr ''0.3.0'', ''metadata'' := None)"
  have "migrate (Suc (Suc 2)) guideline_converters guideline_VERSION ?d = Some (v0_3_0_to_v0_4_0 ?d)"
    by (rule migrate_0_3_0) simp
  moreover have "v0_3_0_to_v0_4_0 ?d = Inr (Some (serialize_guideline (g\<lparr>g_metadata := []\<rparr>)))"
    by (auto simp: v0_3_0_to_v0_4_0_def bind_result_def get_field_def serialize_guideline_def
          guideline_VERSION_def fun_eq_iff)
  ultimately have m: "migrate (Suc (Suc 2)) guideline_converters guideline_VERSION ?d =
      Some (Inr (Some (serialize_guideline (g\<lparr>g_metadata := []\<rparr>))))" by (simp only:)
  have four: "(4::nat) = Suc (Suc 2)" by simp
  show ?thesis
    unfolding guideline_document_loader_def four by (simp only: m option.case)
qed

text \<open>
  The claim C3 as stated fails: the loader of the guideline store, given a well-formed
  record stored at version 0.1.0, produces no record. The chain converts it to version
  0.2.0 and then reaches the converter for 0.2.0, a stub that raises.
\<close>

theorem guideline_v0_1_0_not_migrated_counterexample:
  "guideline_document_loader example_guideline_document_v0_1_0 = Inl prepare_migration_exception \<and>
   \<not> (\<exists>d. guideline_document_loader example_guideline_document_v0_1_0 = Inr (Some d))"
proof -
  have "guideline_document_loader example_guideline_document_v0_1_0 = Inl prepare_migration_exception"
    by (rule guideline_loader_0_1_0(2)) (simp_all add: example_guideline_document_v0_1_0_def)
  then show ?thesis by simp
qed

text \<open>
  Claim C3, amended. For a guideline record stored at version 0.1.0 the first converter
  adds \<open>enabled = true\<close>, sets the version to 0.2.0 and keeps the other fields; the chain
  then stops with the exception of the 0.2.0 stub and yields no record. A record stored
  at version 0.3.0 (the fields of a current record but the metadata) is migrated to the
  record \<^verbatim>\<open>_serialize\<close> writes under the current version 0.4.0 for the same guideline
  with empty metadata, id and timestamp included.
\<close>

theorem guideline_migration_chain:
  assumes "doc ''version'' = Some (JStr ''0.1.0'')"
    and "doc ''id'' = Some i" and "doc ''creation_utc'' = Some c"
    and "doc ''guideline_set'' = Some gs" and "doc ''condition'' = Some cn"
    and "doc ''action'' = Some ac"
  shows "guideline_document_converter_0_1_0_to_0_2_0 doc =
           Inr (Some [''id'' \<mapsto> i, ''version'' \<mapsto> JStr ''0.2.0'', ''creation_utc'' \<mapsto> c,
                      ''guideline_set'' \<mapsto> gs, ''condition'' \<mapsto> cn, ''action'' \<mapsto> ac,
                      ''enabled'' \<mapsto> JBool True]) \<and>
         guideline_document_loader doc = Inl prepare_migration_exception \<and>
         guideline_document_loader
           ((serialize_guideline g)(''version'' \<mapsto> JStr ''0.3.0'', ''metadata'' := None)) =
           Inr (Some (serialize_guideline (g\<lparr>g_metadata := []\<rparr>)))"
  using guideline_loader_0_1_0[OF assms] guideline_loader_0_3_0[of g] by (intro conjI)

theorem guideline_migration_chain_witness:
  "guideline_document_converter_0_1_0_to_0_2_0 example_guideline_document_v0_1_0 =
     Inr (Some (example_guideline_document_v0_1_0
                  (''version'' \<mapsto> JStr ''0.2.0'', ''enabled'' \<mapsto> JBool True))) \<and>
   guideline_document_loader example_guideline_document_v0_1_0 = Inl prepare_migration_exception \<and>
   guideline_document_loader
     ((serialize_guideline example_guideline)(''version'' \<mapsto> JStr ''0.3.0'', ''metadata'' := None)) =
     Inr (Some (serialize_guideline (example_guideline\<lparr>g_metadata := []\<rparr>)))"
proof -
  note t = guideline_migration_chain[of example_guideline_document_v0_1_0
      "JStr ''guide00001''" "JStr ''2025-01-01T00:00:00+00:00''" "JStr ''set1''"
      "JStr ''greeted''" "JStr ''greet back''" example_guideline]
  have eq: "[''id'' \<mapsto> JStr ''guide00001'', ''version'' \<mapsto> JStr ''0.2.0'',
             ''creation_utc'' \<mapsto> JStr ''2025-01-01T00:00:00+00:00'',
             ''guideline_set'' \<mapsto> JStr ''set1'', ''condition'' \<mapsto> JStr ''greeted'',
             ''action'' \<mapsto> JStr ''greet back'', ''enabled'' \<mapsto> JBool True] =
            example_guideline_document_v0_1_0
                  (''version'' \<mapsto> JStr ''0.2.0'', ''enabled'' \<mapsto> JBool True)"
    by (auto simp: example_guideline_document_v0_1_0_def fun_eq_iff)
  from t eq show ?thesis by (simp add: example_guideline_document_v0_1_0_def)
qed

text \<open>
  Claim C5. With the tag filter absent \<^verbatim>\<open>list_guidelines\<close> returns every stored guideline;
  with the empty filter exactly those of them that have no tag at all; with a non-empty
  filter exactly those that have at least one of the given tags. (The association
  records are as the store writes them, and the listing without filter succeeds.)
\<close>

theorem list_guidelines_tag_filter:
  assumes wf: "list_all (wf_association ''guideline_id'') (tag_association_collection s)"
    and all: "fst (list_guidelines None s) = Inr all"
  shows "fst (list_guidelines (Some []) s) = Inr (filter (\<lambda>g. g_tags g = []) all) \<and>
         (ts \<noteq> [] \<longrightarrow>
            fst (list_guidelines (Some ts) s) =
              Inr (filter (\<lambda>g. \<exists>t\<in>set ts. t \<in> set (g_tags g)) all)) \<and>
         (\<exists>D. load_documents guideline_document_loader (collection s) = Inr D \<and>
              map (\<lambda>g. Some (JStr (g_id g))) all = map (\<lambda>d. d ''id'') D)"
proof -
  from load_guideline_associations_wf[OF wf] obtain A where
    A: "load_documents guideline_association_document_loader (tag_association_collection s) = Inr A"
    and wfA: "list_all (wf_association ''guideline_id'') A" by blast
  from all list_guidelines_None[OF A] obtain D where
    D: "load_documents guideline_document_loader (collection s) = Inr D"
    and mr: "map_result (\<lambda>d. guideline_from d A) D = Inr all"
    by (auto split: sum.splits)
  have e: "fst (list_guidelines (Some []) s) = Inr (filter (\<lambda>g. g_tags g = []) all)"
    using list_guidelines_empty[OF A wfA] D
      map_result_filter[OF mr, of "\<lambda>d. \<forall>a\<in>set A. d ''id'' \<noteq> a ''guideline_id''" "\<lambda>g. g_tags g = []"]
      no_tags_iff
    by simp
  have t: "fst (list_guidelines (Some ts) s) =
              Inr (filter (\<lambda>g. \<exists>t\<in>set ts. t \<in> set (g_tags g)) all)" if ne: "ts \<noteq> []"
  proof -
    let ?P = "\<lambda>d. \<exists>a\<in>set A. (\<exists>t\<in>set ts. a ''tag_id'' = Some (JStr t)) \<and> d ''id'' = a ''guideline_id''"
    have f: "map_result (\<lambda>d. guideline_from d A) (filter ?P D) =
        Inr (filter (\<lambda>g. \<exists>t\<in>set ts. t \<in> set (g_tags g)) all)"
      by (rule map_result_filter[OF mr]) (rule some_tag_iff)
    show ?thesis
    proof (cases "\<forall>a\<in>set A. \<not> (\<exists>t\<in>set ts. a ''tag_id'' = Some (JStr t))")
      case True
      then have "filter ?P D = []" by (auto simp: filter_empty_conv)
      with f have "Inr [] = Inr (filter (\<lambda>g. \<exists>t\<in>set ts. t \<in> set (g_tags g)) all)" by simp
      moreover from list_guidelines_tags[OF A wfA ne] True
      have "fst (list_guidelines (Some ts) s) = Inr []" by (simp only: if_P if_True)
      ultimately show ?thesis by simp
    next
      case False
      with list_guidelines_tags[OF A wfA ne]
      have "fst (list_guidelines (Some ts) s) =
        (case load_documents guideline_document_loader (collection s) of
          Inl e \<Rightarrow> Inl e
        | Inr D \<Rightarrow> map_result (\<lambda>d. guideline_from d A) (filter ?P D))" by (simp only: if_not_P if_False)
      with D f show ?thesis by simp
    qed
  qed
  have ids: "map (\<lambda>g. Some (JStr (g_id g))) all = map (\<lambda>d. d ''id'') D"
  proof -
    from map_result_Inr_set[OF mr] have "list_all2 (\<lambda>d g. guideline_from d A = Inr g) D all" .
    then have "list_all2 (\<lambda>d g. d ''id'' = Some (JStr (g_id g))) D all"
      by (rule list_all2_mono)
         (auto simp: guideline_from_def guideline_of_document_def bind_result_def get_field_def
            str_field_def split: sum.splits option.splits json.splits)
    then show ?thesis by (induction rule: list_all2_induct) simp_all
  qed
  from e t D ids show ?thesis by blast
qed

lemma scenario_store_collections:
  "collection scenario_store =
     [serialize_guideline scenario_guideline_A, serialize_guideline scenario_guideline_B]"
  "tag_association_collection scenario_store =
     [guideline_tag_association_document ''assocB0001'' scenario_now ''guideB0000'' ''t1'']"
  by (simp_all add: scenario_store_def create_guideline_def empty_store_def store_op_defs
        scenario_guideline_A_def scenario_guideline_B_def Let_def serialize_guideline_def)

lemma scenario_list_all:
  "fst (list_guidelines None scenario_store) = Inr [scenario_guideline_A, scenario_guideline_B]"
proof -
  have A: "load_documents guideline_association_document_loader (tag_association_collection scenario_store) =
     Inr [guideline_tag_association_document ''assocB0001'' scenario_now ''guideB0000'' ''t1'']"
    by (simp add: scenario_store_collections guideline_association_document_loader_def
          guideline_tag_association_document_def guideline_VERSION_def)
  show ?thesis
    unfolding list_guidelines_None[OF A]
    by (simp add: scenario_store_collections guideline_eval_defs guideline_from_def
          scenario_guideline_A_def scenario_guideline_B_def scenario_now_def
          bind_result_def get_field_def str_field_def)
qed

theorem list_guidelines_tag_filter_witness:
  "fst (list_guidelines None scenario_store) = Inr [scenario_guideline_A, scenario_guideline_B] \<and>
   fst (list_guidelines (Some []) scenario_store) = Inr [scenario_guideline_A] \<and>
   fst (list_guidelines (Some [''t1'']) scenario_store) = Inr [scenario_guideline_B]"
proof -
  have wf: "list_all (wf_association ''guideline_id'') (tag_association_collection scenario_store)"
    by (simp add: scenario_store_collections wf_association_def
          guideline_tag_association_document_def)
  note t = list_guidelines_tag_filter[OF wf scenario_list_all, of "[''t1'']"]
  from t have "fst (list_guidelines (Some []) scenario_store) =
      Inr (filter (\<lambda>g. g_tags g = []) [scenario_guideline_A, scenario_guideline_B])" by blast
  then have e: "fst (list_guidelines (Some []) scenario_store) = Inr [scenario_guideline_A]"
    by (simp add: scenario_guideline_A_def scenario_guideline_B_def)
  from t have "fst (list_guidelines (Some [''t1'']) scenario_store) =
      Inr (filter (\<lambda>g. \<exists>t\<in>set [''t1'']. t \<in> set (g_tags g))
             [scenario_guideline_A, scenario_guideline_B])" by blast
  then have f: "fst (list_guidelines (Some [''t1'']) scenario_store) = Inr [scenario_guideline_B]"
    by (simp add: scenario_guideline_A_def scenario_guideline_B_def)
  from scenario_list_all e f show ?thesis by (intro conjI)
qed

lemma agent_loader_serialize:
  "agent_document_loader (serialize_agent a) = Inr (Some (serialize_agent a))"
  by (simp add: agent_document_loader_def serialize_agent_def agent_VERSION_def numeral_3_eq_3)

lemma serialize_agent_nonempty: "serialize_agent a \<noteq> Map.empty"
  by (simp add: serialize_agent_def)

text \<open>
  Claim C8. An agent that \<^verbatim>\<open>create_agent\<close> has created, read back at once by its id, is
  the created agent, field for field: name, description, creation time, the iteration
  bound, the tags in their order and the composition mode. The stored records load, the
  association records are as the store writes them, and none of them refers to the
  fresh id.
\<close>

theorem create_then_read_agent:
  assumes created: "fst (create_agent now gen name description creation_utc max_engine_iterations
             composition_mode tags s) = Inr agent"
    and D: "load_documents agent_document_loader (collection s) = Inr D"
    and wf: "list_all (wf_association ''agent_id'') (tag_association_collection s)"
    and fresh: "\<forall>a\<in>set (tag_association_collection s). a ''agent_id'' \<noteq> Some (JStr (gen 0))"
  shows "fst (read_agent (a_id agent)
                (snd (create_agent now gen name description creation_utc max_engine_iterations
                        composition_mode tags s))) = Inr agent \<and>
         a_id agent = gen 0 \<and> a_name agent = name \<and> a_description agent = description \<and>
         a_creation_utc agent = (case creation_utc of None \<Rightarrow> now | Some t \<Rightarrow> t) \<and>
         a_tags agent = (case tags of None \<Rightarrow> [] | Some ts \<Rightarrow> ts)"
proof -
  let ?s' = "snd (create_agent now gen name description creation_utc max_engine_iterations
                        composition_mode tags s)"
  note cr = create_agent_result[OF created]
  from cr(1) have flds: "a_id agent = gen 0" "a_name agent = name" "a_description agent = description"
    "a_creation_utc agent = (case creation_utc of None \<Rightarrow> now | Some t \<Rightarrow> t)"
    "a_tags agent = (case tags of None \<Rightarrow> [] | Some ts \<Rightarrow> ts)"
    by simp_all
  let ?new = "new_agent_tags gen 1 (a_creation_utc agent) (a_id agent) (a_tags agent)"
  from load_agent_associations_wf[OF wf] obtain A where
    A: "load_documents agent_association_document_loader (tag_association_collection s) = Inr A" ..
  have D': "load_documents agent_document_loader (collection ?s') = Inr (D @ [serialize_agent agent])"
    by (simp add: cr(2) load_documents_append D agent_loader_serialize)
  have A': "load_documents agent_association_document_loader (tag_association_collection ?s') =
      Inr (A @ ?new)"
    by (simp add: cr(3) load_documents_append A load_new_agent_tags)
  from load_agent_documents_subset[OF D] cr(4)
  have "filter (\<lambda>d. d ''id'' = Some (JStr (a_id agent))) D = []"
    by (auto simp: filter_empty_conv list_ex_iff)
  then have f: "filter (\<lambda>d. d ''id'' = Some (JStr (a_id agent))) (D @ [serialize_agent agent]) =
      [serialize_agent agent]"
    by (simp add: serialize_agent_def)
  from load_agent_associations_subset[OF A] fresh flds(1)
  have fA: "filter (\<lambda>d. d ''agent_id'' = Some (JStr (a_id agent))) A = []"
    by (auto simp: filter_empty_conv)
  then have g: "filter (\<lambda>d. d ''agent_id'' = Some (JStr (a_id agent))) (A @ ?new) = ?new"
    by (simp add: new_agent_tags_owner)
  have gid: "get_field (serialize_agent agent) ''id'' = Inr (JStr (a_id agent))"
    by (simp add: get_field_def serialize_agent_def)
  have "agent_from (serialize_agent agent) (A @ ?new) = Inr agent"
    unfolding agent_from_def gid
    by (simp add: bind_result_def matches_field_eq fA new_agent_tags_owner
          new_agent_tags_tag_ids agent_of_serialize)
  with read_agent_result[OF D' A', of "a_id agent"] f serialize_agent_nonempty[of agent]
  have "fst (read_agent (a_id agent) ?s') = Inr agent" by simp
  with flds show ?thesis by simp
qed


theorem create_then_read_agent_witness:
  "fst (create_agent scenario_now
          (\<lambda>k. if k = 0 then ''agent00002'' else if k = 1 then ''assoc00002'' else ''assoc00003'')
          ''B'' None None (Some 0) None (Some [''t2'', ''t1'']) example_agent_store) =
     Inr \<lparr>a_id = ''agent00002'', a_name = ''B'', a_description = None,
          a_creation_utc = scenario_now, a_max_engine_iterations = 1,
          a_tags = [''t2'', ''t1''], a_composition_mode = FLUID\<rparr> \<and>
   fst (read_agent ''agent00002''
          (snd (create_agent scenario_now
                  (\<lambda>k. if k = 0 then ''agent00002'' else if k = 1 then ''assoc00002'' else ''assoc00003'')
                  ''B'' None None (Some 0) None (Some [''t2'', ''t1'']) example_agent_store))) =
     Inr \<lparr>a_id = ''agent00002'', a_name = ''B'', a_description = None,
          a_creation_utc = scenario_now, a_max_engine_iterations = 1,
          a_tags = [''t2'', ''t1''], a_composition_mode = FLUID\<rparr>"
proof -
  let ?gen = "\<lambda>k::nat. if k = 0 then ''agent00002'' else if k = 1 then ''assoc00002'' else ''assoc00003''"
  let ?agent = "\<lparr>a_id = ''agent00002'', a_name = ''B'', a_description = None,
          a_creation_utc = scenario_now, a_max_engine_iterations = 1,
          a_tags = [''t2'', ''t1''], a_composition_mode = FLUID\<rparr>"
  have c: "fst (create_agent scenario_now ?gen ''B'' None None (Some 0) None (Some [''t2'', ''t1''])
             example_agent_store) = Inr ?agent"
    by (simp add: create_agent_def store_op_defs agent_eval_defs Let_def)
  have D: "load_documents agent_document_loader (collection example_agent_store) =
      Inr (collection example_agent_store)"
    by (simp add: agent_eval_defs)
  have wf: "list_all (wf_association ''agent_id'') (tag_association_collection example_agent_store)"
    by (simp add: example_agent_store_def wf_association_def agent_tag_association_document_def)
  have fresh: "\<forall>a\<in>set (tag_association_collection example_agent_store).
      a ''agent_id'' \<noteq> Some (JStr (?gen 0))"
    by (simp add: example_agent_store_def agent_tag_association_document_def)
  from create_then_read_agent[OF c D wf fresh] c show ?thesis by simp
qed

section \<open>Idempotence of upsert\_tag\<close>

lemma twice_tagged_store_collections:
  "collection twice_tagged_store =
     [serialize_agent \<lparr>a_id = ''agent00001'', a_name = ''A'', a_description = None,
          a_creation_utc = scenario_now, a_max_engine_iterations = 1,
          a_tags = [''t1'', ''t1''], a_composition_mode = FLUID\<rparr>]"
  "tag_association_collection twice_tagged_store =
     [agent_tag_association_document ''assoc00001'' scenario_now ''agent00001'' ''t1'',
      agent_tag_association_document ''assoc00002'' scenario_now ''agent00001'' ''t1'']"
  by (simp_all add: twice_tagged_store_def create_agent_def empty_store_def store_op_defs
        Let_def serialize_agent_def agent_tag_association_document_def)

lemma twice_tagged_read:
  "fst (read_agent ''agent00001'' twice_tagged_store) =
     Inr \<lparr>a_id = ''agent00001'', a_name = ''A'', a_description = None,
          a_creation_utc = scenario_now, a_max_engine_iterations = 1,
          a_tags = [''t1'', ''t1''], a_composition_mode = FLUID\<rparr>"
proof -
  have D: "load_documents agent_document_loader (collection twice_tagged_store) =
     Inr (collection twice_tagged_store)"
    by (simp add: twice_tagged_store_collections agent_loader_serialize)
  have A: "load_documents agent_association_document_loader
        (tag_association_collection twice_tagged_store) =
     Inr (tag_association_collection twice_tagged_store)"
    by (rule load_agent_associations_current)
       (simp add: twice_tagged_store_collections current_version_def
          agent_tag_association_document_def agent_VERSION_def)
  show ?thesis
    unfolding read_agent_result[OF D A]
    by (simp add: twice_tagged_store_collections agent_from_def bind_result_def get_field_def
          str_field_def agent_of_serialize,
        simp add: serialize_agent_def agent_tag_association_document_def str_field_def
          agent_of_serialize[unfolded serialize_agent_def, simplified])
qed

text \<open>
  The claim C6 as stated fails in its last part: when \<^verbatim>\<open>create_agent\<close> was given the same
  tag twice, the pair has two association records; both calls of \<^verbatim>\<open>upsert_tag\<close> return
  false and write nothing, and two records remain, not one.
\<close>

theorem upsert_tag_twice_counterexample:
  "fst (agent_upsert_tag scenario_now (\<lambda>k. ''assoc00003'') ''agent00001'' ''t1'' None
          twice_tagged_store) = Inr False \<and>
   fst (agent_upsert_tag scenario_now (\<lambda>k. ''assoc00004'') ''agent00001'' ''t1'' None
          (snd (agent_upsert_tag scenario_now (\<lambda>k. ''assoc00003'') ''agent00001'' ''t1'' None
                  twice_tagged_store))) = Inr False \<and>
   length (pair_records ''agent_id'' ''agent00001'' ''t1''
     (tag_association_collection
        (snd (agent_upsert_tag scenario_now (\<lambda>k. ''assoc00004'') ''agent00001'' ''t1'' None
          (snd (agent_upsert_tag scenario_now (\<lambda>k. ''assoc00003'') ''agent00001'' ''t1'' None
                  twice_tagged_store)))))) = 2"
proof -
  let ?U1 = "agent_upsert_tag scenario_now (\<lambda>k. ''assoc00003'') ''agent00001'' ''t1'' None"
  let ?U2 = "agent_upsert_tag scenario_now (\<lambda>k. ''assoc00004'') ''agent00001'' ''t1'' None"
  let ?agent = "\<lparr>a_id = ''agent00001'', a_name = ''A'', a_description = None,
          a_creation_utc = scenario_now, a_max_engine_iterations = 1,
          a_tags = [''t1'', ''t1''], a_composition_mode = FLUID\<rparr>"
  have m: "''t1'' \<in> set (a_tags ?agent)" by simp
  from agent_upsert_tag_present[OF twice_tagged_read m]
  have r1: "fst (?U1 twice_tagged_store) = Inr False"
    and sd1: "same_data twice_tagged_store (snd (?U1 twice_tagged_store))" by blast+
  from read_agent_data_only[OF sd1, of "''agent00001''"] twice_tagged_read
  have rd1: "fst (read_agent ''agent00001'' (snd (?U1 twice_tagged_store))) = Inr ?agent" by simp
  from agent_upsert_tag_present[OF rd1 m]
  have r2: "fst (?U2 (snd (?U1 twice_tagged_store))) = Inr False"
    and sd2: "same_data (snd (?U1 twice_tagged_store)) (snd (?U2 (snd (?U1 twice_tagged_store))))"
    by blast+
  from sd1 sd2 have "tag_association_collection (snd (?U2 (snd (?U1 twice_tagged_store)))) =
      tag_association_collection twice_tagged_store" by (simp add: same_data_def)
  then have "length (pair_records ''agent_id'' ''agent00001'' ''t1''
      (tag_association_collection (snd (?U2 (snd (?U1 twice_tagged_store)))))) = 2"
    by (simp add: twice_tagged_store_collections pair_records_def agent_tag_association_document_def)
  with r1 r2 show ?thesis by (intro conjI)
qed

text \<open>
  Claim C6, amended. For an entity that exists (reading it succeeds), in a store whose
  association records are at the current version, and with a generated id that no
  association record has yet: if the entity has the tag, \<^verbatim>\<open>upsert_tag\<close> returns false and
  writes nothing; otherwise it returns true and appends exactly one association record,
  leaving the primary collection alone. A second call with the same pair returns false
  and writes nothing. If the pair had at most one association record before, it has
  exactly one after the two calls. This holds for the agent store and for the guideline
  store.
\<close>

theorem upsert_tag_idempotent:
  assumes "current_version agent_VERSION (tag_association_collection sa)"
    and "fst (read_agent ia sa) = Inr agent"
    and "\<not> list_ex (\<lambda>d. d ''id'' = Some (JStr (gen 0))) (tag_association_collection sa)"
    and "current_version guideline_VERSION (tag_association_collection sg)"
    and "fst (read_guideline ig sg) = Inr guideline"
    and "\<not> list_ex (\<lambda>d. d ''id'' = Some (JStr (gen 0))) (tag_association_collection sg)"
  shows
    "((tag \<in> set (a_tags agent) \<longrightarrow>
         fst (agent_upsert_tag now gen ia tag utc sa) = Inr False \<and>
         same_data sa (snd (agent_upsert_tag now gen ia tag utc sa))) \<and>
      (tag \<notin> set (a_tags agent) \<longrightarrow>
         fst (agent_upsert_tag now gen ia tag utc sa) = Inr True \<and>
         collection (snd (agent_upsert_tag now gen ia tag utc sa)) = collection sa \<and>
         tag_association_collection (snd (agent_upsert_tag now gen ia tag utc sa)) =
           tag_association_collection sa @
             [agent_tag_association_document (gen 0)
                (case utc of None \<Rightarrow> now | Some t \<Rightarrow> t) ia tag]) \<and>
      fst (agent_upsert_tag now' gen' ia tag utc' (snd (agent_upsert_tag now gen ia tag utc sa))) =
        Inr False \<and>
      same_data (snd (agent_upsert_tag now gen ia tag utc sa))
        (snd (agent_upsert_tag now' gen' ia tag utc' (snd (agent_upsert_tag now gen ia tag utc sa)))) \<and>
      (length (pair_records ''agent_id'' ia tag (tag_association_collection sa)) \<le> 1 \<longrightarrow>
         length (pair_records ''agent_id'' ia tag
           (tag_association_collection
             (snd (agent_upsert_tag now' gen' ia tag utc'
                (snd (agent_upsert_tag now gen ia tag utc sa)))))) = 1)) \<and>
     ((tag \<in> set (g_tags guideline) \<longrightarrow>
         fst (guideline_upsert_tag now gen ig tag utc sg) = Inr False \<and>
         same_data sg (snd (guideline_upsert_tag now gen ig tag utc sg))) \<and>
      (tag \<notin> set (g_tags guideline) \<longrightarrow>
         fst (guideline_upsert_tag now gen ig tag utc sg) = Inr True \<and>
         collection (snd (guideline_upsert_tag now gen ig tag utc sg)) = collection sg \<and>
         tag_association_collection (snd (guideline_upsert_tag now gen ig tag utc sg)) =
           tag_association_collection sg @
             [guideline_tag_association_document (gen 0)
                (case utc of None \<Rightarrow> now | Some t \<Rightarrow> t) ig tag]) \<and>
      fst (guideline_upsert_tag now' gen' ig tag utc'
             (snd (guideline_upsert_tag now gen ig tag utc sg))) = Inr False \<and>
      same_data (snd (guideline_upsert_tag now gen ig tag utc sg))
        (snd (guideline_upsert_tag now' gen' ig tag utc'
                (snd (guideline_upsert_tag now gen ig tag utc sg)))) \<and>
      (length (pair_records ''guideline_id'' ig tag (tag_association_collection sg)) \<le> 1 \<longrightarrow>
         length (pair_records ''guideline_id'' ig tag
           (tag_association_collection
             (snd (guideline_upsert_tag now' gen' ig tag utc'
                (snd (guideline_upsert_tag now gen ig tag utc sg)))))) = 1))"
  by (rule conjI)
     (rule agent_upsert_tag_twice[where gen = gen, OF assms(1-3)],
      rule guideline_upsert_tag_twice[where gen = gen, OF assms(4-6)])

theorem upsert_tag_idempotent_witness:
  "fst (agent_upsert_tag scenario_now (\<lambda>k. ''assoc00002'') ''agent00001'' ''t2'' None
          example_agent_store) = Inr True \<and>
   fst (agent_upsert_tag scenario_now (\<lambda>k. ''assoc00003'') ''agent00001'' ''t2'' None
          (snd (agent_upsert_tag scenario_now (\<lambda>k. ''assoc00002'') ''agent00001'' ''t2'' None
                  example_agent_store))) = Inr False \<and>
   length (pair_records ''agent_id'' ''agent00001'' ''t2''
     (tag_association_collection
        (snd (agent_upsert_tag scenario_now (\<lambda>k. ''assoc00003'') ''agent00001'' ''t2'' None
          (snd (agent_upsert_tag scenario_now (\<lambda>k. ''assoc00002'') ''agent00001'' ''t2'' None
                  example_agent_store)))))) = 1 \<and>
   fst (guideline_upsert_tag scenario_now (\<lambda>k. ''assoc00002'') ''guide00001'' ''t2'' None
          example_guideline_store) = Inr True \<and>
   fst (guideline_upsert_tag scenario_now (\<lambda>k. ''assoc00003'') ''guide00001'' ''t2'' None
          (snd (guideline_upsert_tag scenario_now (\<lambda>k. ''assoc00002'') ''guide00001'' ''t2'' None
                  example_guideline_store))) = Inr False \<and>
   length (pair_records ''guideline_id'' ''guide00001'' ''t2''
     (tag_association_collection
        (snd (guideline_upsert_tag scenario_now (\<lambda>k. ''assoc00003'') ''guide00001'' ''t2'' None
          (snd (guideline_upsert_tag scenario_now (\<lambda>k. ''assoc00002'') ''guide00001'' ''t2'' None
                  example_guideline_store)))))) = 1"
proof -
  have a1: "current_version agent_VERSION (tag_association_collection example_agent_store)"
    by (simp add: current_version_def example_agent_store_def agent_tag_association_document_def
          agent_VERSION_def)
  have a3: "\<not> list_ex (\<lambda>d. d ''id'' = Some (JStr ((\<lambda>k::nat. ''assoc00002'') 0)))
      (tag_association_collection example_agent_store)"
    by (simp add: example_agent_store_def agent_tag_association_document_def)
  have g1: "current_version guideline_VERSION (tag_association_collection example_guideline_store)"
    by (simp add: current_version_def example_guideline_store_def
          guideline_tag_association_document_def guideline_VERSION_def)
  have g3: "\<not> list_ex (\<lambda>d. d ''id'' = Some (JStr ((\<lambda>k::nat. ''assoc00002'') 0)))
      (tag_association_collection example_guideline_store)"
    by (simp add: example_guideline_store_def guideline_tag_association_document_def)
  have na: "''t2'' \<notin> set (a_tags example_agent)" by (simp add: example_agent_def)
  have ng: "''t2'' \<notin> set (g_tags example_guideline)" by (simp add: example_guideline_def)
  have pa: "length (pair_records ''agent_id'' ''agent00001'' ''t2''
      (tag_association_collection example_agent_store)) \<le> 1"
    by (simp add: pair_records_def example_agent_store_def agent_tag_association_document_def)
  have pg: "length (pair_records ''guideline_id'' ''guide00001'' ''t2''
      (tag_association_collection example_guideline_store)) \<le> 1"
    by (simp add: pair_records_def example_guideline_store_def
          guideline_tag_association_document_def)
  note t = upsert_tag_idempotent[where gen = "\<lambda>k. ''assoc00002''" and gen' = "\<lambda>k. ''assoc00003''"
      and tag = "''t2''" and now = scenario_now and now' = scenario_now and utc = None
      and utc' = None, OF a1 example_agent_read a3 g1 example_guideline_read g3]
  from t na ng pa pg show ?thesis by blast
qed

section \<open>The writer scope of the read-modify-write operations\<close>

text \<open>
  The claim C2 as stated fails. \<^verbatim>\<open>upsert_tag\<close> calls \<^verbatim>\<open>read_agent\<close> inside its writer scope,
  and \<^verbatim>\<open>read_agent\<close> enters and leaves the reader scope: the operation does acquire the
  reader scope. \<^verbatim>\<open>update_agent\<close> leaves the writer scope before \<^verbatim>\<open>_deserialize_agent\<close>
  reads the tag associations of the entity it returns: the writer scope is not held to
  the end of the operation.
\<close>

theorem writer_scope_counterexample:
  "new_events example_agent_store
     (snd (agent_upsert_tag scenario_now (\<lambda>k. ''assoc00002'') ''agent00001'' ''t2'' None
             example_agent_store)) =
   [Acquire Writer, Acquire Reader, Access Entities FindOne, Release Reader,
    Access TagAssociations Find, Access TagAssociations InsertOne, Access Entities FindOne,
    Release Writer] \<and>
   \<not> one_writer_section
     (new_events example_agent_store
        (snd (agent_upsert_tag scenario_now (\<lambda>k. ''assoc00002'') ''agent00001'' ''t2'' None
                example_agent_store))) \<and>
   new_events example_agent_store
     (snd (update_agent ''agent00001'' [''name'' \<mapsto> JStr ''B''] example_agent_store)) =
   [Acquire Writer, Access Entities FindOne, Access Entities UpdateOne, Release Writer,
    Access TagAssociations Find] \<and>
   \<not> one_writer_section
     (new_events example_agent_store
        (snd (update_agent ''agent00001'' [''name'' \<mapsto> JStr ''B''] example_agent_store)))"
  unfolding agent_upsert_tag_example_events update_agent_example_events
  by (simp add: one_writer_section_def)

text \<open>
  Claim C2, amended. Every operation that reads and writes (\<^verbatim>\<open>update\<close>, \<^verbatim>\<open>upsert_tag\<close>,
  \<^verbatim>\<open>add_metadata\<close>, \<^verbatim>\<open>remove_metadata\<close>) enters the writer scope first and exactly once,
  never the reader scope before it; all its writes, and the reads before them, happen
  before the writer scope is left, and what follows the writer scope are reads only
  (the tag associations of the entity returned). Any reader scope it enters lies inside
  the writer scope.
\<close>

theorem writer_scope_discipline:
  "writer_guards_writes (new_events s (snd (update_agent ia params s))) \<and>
   writer_guards_writes (new_events s (snd (agent_upsert_tag now gen ia tag utc s))) \<and>
   writer_guards_writes (new_events s (snd (update_guideline ig params s))) \<and>
   writer_guards_writes (new_events s (snd (guideline_upsert_tag now gen ig tag utc s))) \<and>
   writer_guards_writes (new_events s (snd (add_metadata ig metadata s))) \<and>
   writer_guards_writes (new_events s (snd (remove_metadata ig keys s)))"
  using update_agent_events agent_upsert_tag_events update_guideline_events
    guideline_upsert_tag_events add_metadata_events remove_metadata_events
  by (intro conjI)


end
